(* ===== verification/Prelude.thy ===== *)
theory Prelude
  imports Complex_Main "HOL-Library.Char_ord" "HOL-Library.List_Lexorder"
    "HOL-Library.Product_Lexorder" "HOL-Library.AList" "HOL-Library.Multiset"
begin

text \<open>
  Shared vocabulary of the development: what the source uses of Python's own library.

  \<^item> \<^emph>\<open>Text\<close>. A Python \<open>str\<close> is a \<open>string\<close> whose characters are the code points below 256;
    \<open>strip\<close>, \<open>lower\<close>, \<open>split\<close>, \<open>splitlines\<close>, \<open>startswith\<close>, \<open>in\<close> and \<open>int(...)\<close> are executable
    functions on it.
  \<^item> \<^emph>\<open>Collections\<close>. A \<open>dict\<close> is an association list in insertion order (\<open>AList.update\<close> keeps the
    position of an existing key, as Python does); \<open>sorted(..., key=...)\<close> is the stable \<open>sort_key\<close>;
    \<open>max(..., key=...)\<close> and \<open>min(..., key=...)\<close> return the first extremal element.
  \<^item> \<^emph>\<open>Time\<close>. A wall-clock instant is an \<open>int\<close> counting microseconds (the resolution of
    \<open>datetime\<close>). A timestamp column is a \<open>stamp\<close>: blank (NULL or the empty text), text that
    \<open>datetime\<close> cannot parse, or an instant.
  \<^item> \<^emph>\<open>Floats\<close> are exact rationals (\<open>rat\<close>); rounding is not modelled.
  \<^item> \<^emph>\<open>Errors\<close>: a raised \<open>ValueError\<close>, \<open>RuntimeError\<close>, ... is the left injection of a sum.
\<close>

named_theorems task_predicates \<open>the one-line classifiers of a task row\<close>
named_theorems allocation_predicates \<open>the one-line classifiers of an allocation row\<close>

section \<open>Errors\<close>

datatype py_error =
    ValueError string
  | RuntimeError string
  | KeyError
  | IndexError

type_synonym 'a result = "py_error + 'a"

section \<open>Characters and text\<close>

abbreviation code :: "char \<Rightarrow> nat" where
  "code c \<equiv> of_char c"

definition py_space :: "char \<Rightarrow> bool" where
  "py_space c = (let n = code c in
     (9 \<le> n \<and> n \<le> 13) \<or> (28 \<le> n \<and> n \<le> 32) \<or> n = 133 \<or> n = 160)"

definition lower_char :: "char \<Rightarrow> char" where
  "lower_char c = (let n = code c in
     if (65 \<le> n \<and> n \<le> 90) \<or> (192 \<le> n \<and> n \<le> 222 \<and> n \<noteq> 215) then char_of (n + 32) else c)"

definition lower :: "string \<Rightarrow> string" where
  "lower s = map lower_char s"

definition lstrip_by :: "(char \<Rightarrow> bool) \<Rightarrow> string \<Rightarrow> string" where
  "lstrip_by p s = dropWhile p s"

definition rstrip_by :: "(char \<Rightarrow> bool) \<Rightarrow> string \<Rightarrow> string" where
  "rstrip_by p s = rev (dropWhile p (rev s))"

definition strip :: "string \<Rightarrow> string" where
  "strip s = rstrip_by py_space (lstrip_by py_space s)"

definition rstrip_char :: "char \<Rightarrow> string \<Rightarrow> string" where
  "rstrip_char c s = rstrip_by (\<lambda>d. d = c) s"

definition startswith :: "string \<Rightarrow> string \<Rightarrow> bool" where
  "startswith s p = (take (length p) s = p)"

fun contains :: "string \<Rightarrow> string \<Rightarrow> bool" where
  "contains p [] = (p = [])"
| "contains p (c # cs) = (take (length p) (c # cs) = p \<or> contains p cs)"

text \<open>\<open>s.split(sep)\<close> for a one-character separator, and \<open>re.split\<close> on a character class.\<close>

fun split_by :: "('a \<Rightarrow> bool) \<Rightarrow> 'a list \<Rightarrow> 'a list list" where
  "split_by p [] = [[]]"
| "split_by p (c # cs) =
     (if p c then [] # split_by p cs
      else (case split_by p cs of [] \<Rightarrow> [[c]] | w # ws \<Rightarrow> (c # w) # ws))"

definition split_on :: "char \<Rightarrow> string \<Rightarrow> string list" where
  "split_on d s = split_by (\<lambda>c. c = d) s"

text \<open>\<open>s.split()\<close>: maximal runs of non-blank characters.\<close>

definition split_ws :: "string \<Rightarrow> string list" where
  "split_ws s = filter (\<lambda>w. w \<noteq> []) (split_by py_space s)"

text \<open>\<open>s.split(sep, 1)\<close> and \<open>s.partition(sep)\<close>: the text before and after the first separator.\<close>

fun cut_at :: "char \<Rightarrow> string \<Rightarrow> (string \<times> string) option" where
  "cut_at d [] = None"
| "cut_at d (c # cs) =
     (if c = d then Some ([], cs)
      else map_option (\<lambda>(a, b). (c # a, b)) (cut_at d cs))"

text \<open>\<open>s.splitlines()\<close>: line boundaries end a line; a final boundary opens no empty line.\<close>

definition line_break :: "char \<Rightarrow> bool" where
  "line_break c = (let n = code c in (10 \<le> n \<and> n \<le> 13) \<or> (28 \<le> n \<and> n \<le> 30) \<or> n = 133)"

fun lines_from :: "string \<Rightarrow> string \<Rightarrow> string list" where
  "lines_from acc [] = (if acc = [] then [] else [rev acc])"
| "lines_from acc (c # cs) =
     (if code c = 13 \<and> (case cs of [] \<Rightarrow> False | d # _ \<Rightarrow> code d = 10)
      then rev acc # lines_from [] (tl cs)
      else if line_break c then rev acc # lines_from [] cs
      else lines_from (c # acc) cs)"

definition splitlines :: "string \<Rightarrow> string list" where
  "splitlines s = lines_from [] s"

definition join :: "string \<Rightarrow> string list \<Rightarrow> string" where
  "join sep ws = (case ws of [] \<Rightarrow> [] | v # vs \<Rightarrow> v @ concat (map (\<lambda>w. sep @ w) vs))"

section \<open>Numbers as text\<close>

definition is_digit :: "char \<Rightarrow> bool" where
  "is_digit c = (let n = code c in 48 \<le> n \<and> n \<le> 57)"

definition digit_value :: "char \<Rightarrow> int" where
  "digit_value c = int (code c) - 48"

text \<open>Digits with single underscores between them, as Python's \<open>int\<close> and \<open>float\<close> accept them.\<close>

fun digits_from :: "int \<Rightarrow> bool \<Rightarrow> string \<Rightarrow> int option" where
  "digits_from acc seen [] = (if seen then Some acc else None)"
| "digits_from acc seen (c # cs) =
     (if is_digit c then digits_from (acc * 10 + digit_value c) True cs
      else if c = CHR ''_'' \<and> seen then
        (case cs of [] \<Rightarrow> None
         | d # _ \<Rightarrow> if is_digit d then digits_from acc False cs else None)
      else None)"

definition parse_nat :: "string \<Rightarrow> int option" where
  "parse_nat s = digits_from 0 False s"

definition signed_with :: "(string \<Rightarrow> 'a option) \<Rightarrow> ('a \<Rightarrow> 'a) \<Rightarrow> string \<Rightarrow> 'a option" where
  "signed_with f neg s = (case s of [] \<Rightarrow> f []
     | c # cs \<Rightarrow> if c = CHR ''-'' then map_option neg (f cs)
               else if c = CHR ''+'' then f cs else f s)"

text \<open>\<open>int(text)\<close>; \<open>None\<close> is the \<open>ValueError\<close>.\<close>

definition py_int :: "string \<Rightarrow> int option" where
  "py_int s = signed_with parse_nat uminus (strip s)"

text \<open>
  \<open>float(text)\<close> on the finite decimals: \<open>digits\<close>, \<open>digits.digits\<close>, \<open>digits.\<close> or \<open>.digits\<close>, with an
  optional sign. Exponents and the texts \<open>inf\<close> and \<open>nan\<close> are outside the model.
\<close>

definition parse_decimal :: "string \<Rightarrow> rat option" where
  "parse_decimal s = (case cut_at (CHR ''.'') s of
       None \<Rightarrow> map_option of_int (parse_nat s)
     | Some (a, b) \<Rightarrow>
         if a = [] \<and> b = [] then None else
         (case (if a = [] then Some 0 else parse_nat a, if b = [] then Some 0 else parse_nat b) of
            (Some m, Some n) \<Rightarrow> Some (of_int m + of_int n / 10 ^ length (filter is_digit b))
          | _ \<Rightarrow> None))"

definition py_float :: "string \<Rightarrow> rat option" where
  "py_float s = signed_with parse_decimal uminus (strip s)"

text \<open>\<open>str(n)\<close> for an integer.\<close>

fun show_nat :: "nat \<Rightarrow> string" where
  "show_nat n = (if n < 10 then [char_of (48 + n)] else show_nat (n div 10) @ [char_of (48 + n mod 10)])"

declare show_nat.simps [simp del]

definition show_int :: "int \<Rightarrow> string" where
  "show_int i = (if i < 0 then CHR ''-'' # show_nat (nat (- i)) else show_nat (nat i))"

section \<open>Python collections\<close>

abbreviation dict_get :: "('k \<times> 'v) list \<Rightarrow> 'k \<Rightarrow> 'v \<Rightarrow> 'v" where
  "dict_get d k dflt \<equiv> (case map_of d k of None \<Rightarrow> dflt | Some v \<Rightarrow> v)"

text \<open>\<open>sorted(xs, key=f, reverse=True)\<close> keeps the order of elements with equal keys.\<close>

definition sort_desc :: "('a \<Rightarrow> 'k::linorder) \<Rightarrow> 'a list \<Rightarrow> 'a list" where
  "sort_desc f xs = rev (sort_key f (rev xs))"

fun max_by :: "('a \<Rightarrow> 'k::linorder) \<Rightarrow> 'a \<Rightarrow> 'a list \<Rightarrow> 'a" where
  "max_by f best [] = best"
| "max_by f best (x # xs) = max_by f (if f best < f x then x else best) xs"

fun min_by :: "('a \<Rightarrow> 'k::linorder) \<Rightarrow> 'a \<Rightarrow> 'a list \<Rightarrow> 'a" where
  "min_by f best [] = best"
| "min_by f best (x # xs) = min_by f (if f x < f best then x else best) xs"

definition py_max :: "('a \<Rightarrow> 'k::linorder) \<Rightarrow> 'a list \<Rightarrow> 'a option" where
  "py_max f xs = (case xs of [] \<Rightarrow> None | y # ys \<Rightarrow> Some (max_by f y ys))"

definition py_min :: "('a \<Rightarrow> 'k::linorder) \<Rightarrow> 'a list \<Rightarrow> 'a option" where
  "py_min f xs = (case xs of [] \<Rightarrow> None | y # ys \<Rightarrow> Some (min_by f y ys))"

text \<open>\<open>sorted(set(xs))\<close>.\<close>

definition sorted_set :: "('a::linorder) list \<Rightarrow> 'a list" where
  "sorted_set xs = sort (remdups xs)"

section \<open>Time\<close>

datatype stamp = Blank | Garbled | At int

text \<open>\<open>a or b\<close> on timestamp columns: the first that is not blank.\<close>

fun stamp_or :: "stamp \<Rightarrow> stamp \<Rightarrow> stamp" where
  "stamp_or Blank t = t"
| "stamp_or s t = s"

text \<open>\<open>Scheduler._timestamp\<close> (scheduler.py): blank and unparsable texts give \<open>None\<close>.\<close>

fun timestamp :: "stamp \<Rightarrow> int option" where
  "timestamp Blank = None"
| "timestamp Garbled = None"
| "timestamp (At t) = Some t"

text \<open>Seconds as microseconds; SQLite's CURRENT_TIMESTAMP has a resolution of one second.\<close>

definition seconds :: "int \<Rightarrow> int" where
  "seconds n = n * 1000000"

definition current_timestamp :: "int \<Rightarrow> stamp" where
  "current_timestamp now = At (now div 1000000 * 1000000)"

section \<open>Laws of the shared functions\<close>

text \<open>\<open>max\<close>/\<open>min\<close> with a key pick an element of the list, and an extremal one.\<close>

lemma max_by_in: "max_by f b xs \<in> insert b (set xs)"
  by (induction xs arbitrary: b) (auto split: if_splits)

lemma max_by_ge: "x \<in> insert b (set xs) \<Longrightarrow> f x \<le> f (max_by f b xs)"
proof (induction xs arbitrary: b x)
  case (Cons y ys)
  let ?c = "if f b < f y then y else b"
  have "f x \<le> f ?c \<or> x \<in> set ys" using Cons.prems by auto
  then show ?case
    using Cons.IH [of ?c ?c] Cons.IH [of x ?c] by (auto intro: order_trans)
qed simp

lemma min_by_in: "min_by f b xs \<in> insert b (set xs)"
  by (induction xs arbitrary: b) (auto split: if_splits)

lemma min_by_le: "x \<in> insert b (set xs) \<Longrightarrow> f (min_by f b xs) \<le> f x"
proof (induction xs arbitrary: b x)
  case (Cons y ys)
  let ?c = "if f y < f b then y else b"
  have "f ?c \<le> f x \<or> x \<in> set ys" using Cons.prems by auto
  then show ?case
    using Cons.IH [of ?c ?c] Cons.IH [of x ?c] by (auto intro: order_trans)
qed simp

lemma py_max_None [simp]: "py_max f xs = None \<longleftrightarrow> xs = []"
  by (auto simp: py_max_def split: list.splits)

lemma py_max_Some_in: "py_max f xs = Some m \<Longrightarrow> m \<in> set xs"
  using max_by_in by (fastforce simp: py_max_def split: list.splits)

lemma py_max_Some_ge: "py_max f xs = Some m \<Longrightarrow> x \<in> set xs \<Longrightarrow> f x \<le> f m"
  by (auto simp: py_max_def max_by_ge split: list.splits)

lemma py_min_None [simp]: "py_min f xs = None \<longleftrightarrow> xs = []"
  by (auto simp: py_min_def split: list.splits)

lemma py_min_Some_in: "py_min f xs = Some m \<Longrightarrow> m \<in> set xs"
  using min_by_in by (fastforce simp: py_min_def split: list.splits)

lemma py_min_Some_le: "py_min f xs = Some m \<Longrightarrow> x \<in> set xs \<Longrightarrow> f m \<le> f x"
  by (auto simp: py_min_def min_by_le split: list.splits)

lemma keys_update: "fst ` set (AList.update k v d) = insert k (fst ` set d)"
  by (induction d) auto

lemma set_update_subset: "set (AList.update k v d) \<subseteq> insert (k, v) (set d)"
  by (induction d) auto

text \<open>Sorting permutes and orders; splitting and joining text; decimal printing is parsed back.\<close>

lemma mset_sort_desc [simp]: "mset (sort_desc f xs) = mset xs"
  by (simp add: sort_desc_def)

lemma set_sort_desc [simp]: "set (sort_desc f xs) = set xs"
  by (simp add: sort_desc_def)

lemma length_sort_desc [simp]: "length (sort_desc f xs) = length xs"
  by (simp add: sort_desc_def)

lemma distinct_sort_desc [simp]: "distinct (sort_desc f xs) = distinct xs"
  by (simp add: sort_desc_def)

lemma sorted_sort_desc: "sorted_wrt (\<lambda>x y. f y \<le> f x) (sort_desc f xs)"
proof -
  have "sorted_wrt (\<lambda>x y. f x \<le> f y) (sort_key f (rev xs))"
    using sorted_sort_key [of f "rev xs"] by (simp add: sorted_map)
  then show ?thesis by (simp add: sort_desc_def sorted_wrt_rev)
qed

lemma set_sorted_set [simp]: "set (sorted_set xs) = set xs"
  by (simp add: sorted_set_def)

lemma sorted_sorted_set [simp]: "sorted (sorted_set xs)" "distinct (sorted_set xs)"
  by (simp_all add: sorted_set_def)

lemma split_by_neq_Nil [simp]: "split_by p s \<noteq> []"
  by (induction s) (auto split: list.splits)

lemma split_by_none: "\<forall>c \<in> set s. \<not> p c \<Longrightarrow> split_by p s = [s]"
  by (induction s) auto

lemma split_by_sep: "\<forall>c \<in> set a. \<not> p c \<Longrightarrow> p d \<Longrightarrow> split_by p (a @ d # s) = a # split_by p s"
  by (induction a) auto

lemma split_by_pieces: "w \<in> set (split_by p s) \<Longrightarrow> \<forall>c \<in> set w. \<not> p c \<and> c \<in> set s"
  by (induction s arbitrary: w) (fastforce split: if_splits list.splits)+

lemma cut_at_append: "d \<notin> set a \<Longrightarrow> cut_at d (a @ d # s) = Some (a, s)"
  by (induction a) auto

lemma cut_at_None: "cut_at d s = None \<longleftrightarrow> d \<notin> set s"
  by (induction s) auto

lemma cut_at_Some: "cut_at d s = Some (a, b) \<Longrightarrow> s = a @ d # b \<and> d \<notin> set a"
  by (induction s arbitrary: a) (auto split: if_splits)

lemma startswith_append [simp]: "startswith (p @ s) p"
  by (simp add: startswith_def)

lemma startswith_iff: "startswith s p \<longleftrightarrow> (\<exists>r. s = p @ r)"
  by (auto simp: startswith_def) (metis append_take_drop_id)

lemma dropWhile_idem: "dropWhile p (dropWhile p s) = dropWhile p s"
  by (induction s) auto

lemma rstrip_by_eq_Nil: "rstrip_by p s = [] \<longleftrightarrow> (\<forall>c \<in> set s. p c)"
  by (simp add: rstrip_by_def)

lemma strip_none: "\<forall>c \<in> set s. \<not> py_space c \<Longrightarrow> strip s = s"
proof -
  assume a: "\<forall>c \<in> set s. \<not> py_space c"
  have *: "dropWhile py_space t = t" if "\<forall>c \<in> set t. \<not> py_space c" for t
    using that by (cases t) auto
  show ?thesis using a by (simp add: strip_def lstrip_by_def rstrip_by_def *)
qed

lemma set_strip: "set (strip s) \<subseteq> set s"
proof
  fix c assume "c \<in> set (strip s)"
  then have "c \<in> set (dropWhile py_space (rev (dropWhile py_space s)))"
    by (simp add: strip_def lstrip_by_def rstrip_by_def)
  then have "c \<in> set (dropWhile py_space s)" by (auto dest: set_dropWhileD)
  then show "c \<in> set s" by (auto dest: set_dropWhileD)
qed

lemma code_digit [simp]: "d < 10 \<Longrightarrow> code (char_of (48 + d :: nat)) = 48 + d"
  by simp

lemma is_digit_show [simp]: "d < 10 \<Longrightarrow> is_digit (char_of (48 + d :: nat))"
  by (simp add: is_digit_def)

lemma digit_value_show [simp]: "d < 10 \<Longrightarrow> digit_value (char_of (48 + d :: nat)) = int d"
  by (simp add: digit_value_def)

lemma show_nat_neq_Nil [simp]: "show_nat n \<noteq> []"
  by (subst show_nat.simps) simp

lemma show_nat_digits: "c \<in> set (show_nat n) \<Longrightarrow> is_digit c"
proof (induction n rule: show_nat.induct)
  case (1 n)
  then show ?case
    by (subst (asm) (2) show_nat.simps) (auto split: if_splits)
qed

lemma digits_from_show: "digits_from 0 b (show_nat n @ s) = digits_from (int n) True s"
proof (induction n arbitrary: s rule: show_nat.induct)
  case (1 n)
  show ?case
  proof (cases "n < 10")
    case True
    then show ?thesis by (subst show_nat.simps) simp
  next
    case False
    have "digits_from 0 b (show_nat n @ s)
        = digits_from 0 b (show_nat (n div 10) @ char_of (48 + n mod 10) # s)"
      using False by (subst show_nat.simps) simp
    also have "\<dots> = digits_from (int (n div 10)) True (char_of (48 + n mod 10) # s)"
      using "1" [OF False] .
    also have "\<dots> = digits_from (int (n div 10) * 10 + int (n mod 10)) True s"
      by simp
    also have "int (n div 10) * 10 + int (n mod 10) = int n"
      by (metis div_mult_mod_eq of_nat_add of_nat_mult of_nat_numeral)
    finally show ?thesis .
  qed
qed

lemma parse_nat_show [simp]: "parse_nat (show_nat n) = Some (int n)"
  using digits_from_show [of False n "[]"] by (simp add: parse_nat_def)

lemma digit_not_space: "is_digit c \<Longrightarrow> \<not> py_space c"
  by (auto simp: is_digit_def py_space_def Let_def)

lemma digit_not_sign: "is_digit c \<Longrightarrow> c \<noteq> CHR ''-'' \<and> c \<noteq> CHR ''+''"
  by (auto simp: is_digit_def)

lemma py_int_show_int [simp]: "py_int (show_int i) = Some i"
proof -
  have sp: "strip (show_int i) = show_int i"
    by (rule strip_none)
      (auto simp: show_int_def py_space_def dest!: show_nat_digits dest: digit_not_space split: if_splits)
  have pos: "signed_with parse_nat uminus (show_nat n) = Some (int n)" for n
  proof (cases "show_nat n")
    case (Cons c cs)
    then have "is_digit c" using show_nat_digits [of c n] by simp
    then have "signed_with parse_nat uminus (show_nat n) = parse_nat (show_nat n)"
      using Cons digit_not_sign [of c] by (simp add: signed_with_def)
    then show ?thesis by simp
  qed simp
  have "signed_with parse_nat uminus (show_int i) = Some i"
  proof (cases "i < 0")
    case True
    then show ?thesis by (simp add: show_int_def signed_with_def)
  next
    case False
    then show ?thesis using pos [of "nat i"] by (simp add: show_int_def)
  qed
  then show ?thesis by (simp add: py_int_def sp)
qed

end
