(* ===== verification/Models.thy ===== *)
theory Models
  imports Prelude
begin

text \<open>
  \<open>slurm_scheduler/models.py\<close>: the status enumerations shared by every component, the
  normalisers of user-supplied enumeration texts, and the account snapshot used to choose a
  Slurm account for a submission.
\<close>

section \<open>Enumerations\<close>

datatype job_status = JQueued | JSubmitting | JSubmitted | JRunning | JCompleted | JFailed | JCancelled

datatype allocation_status = Pending | Warm | Active | Draining | Closing | Closed | AFailed

datatype task_status = Queued | Attaching | Running | Completed | Failed | Cancelled

datatype scheduling_profile = Standard | FeaBursty

datatype node_name_policy = Preferred | Strict

datatype aedt_backend = Standalone | Pooled

fun job_status_value :: "job_status \<Rightarrow> string" where
  "job_status_value JQueued = ''queued''"
| "job_status_value JSubmitting = ''submitting''"
| "job_status_value JSubmitted = ''submitted''"
| "job_status_value JRunning = ''running''"
| "job_status_value JCompleted = ''completed''"
| "job_status_value JFailed = ''failed''"
| "job_status_value JCancelled = ''cancelled''"

fun allocation_status_value :: "allocation_status \<Rightarrow> string" where
  "allocation_status_value Pending = ''pending''"
| "allocation_status_value Warm = ''warm''"
| "allocation_status_value Active = ''active''"
| "allocation_status_value Draining = ''draining''"
| "allocation_status_value Closing = ''closing''"
| "allocation_status_value Closed = ''closed''"
| "allocation_status_value AFailed = ''failed''"

fun task_status_value :: "task_status \<Rightarrow> string" where
  "task_status_value Queued = ''queued''"
| "task_status_value Attaching = ''attaching''"
| "task_status_value Running = ''running''"
| "task_status_value Completed = ''completed''"
| "task_status_value Failed = ''failed''"
| "task_status_value Cancelled = ''cancelled''"

fun backend_value :: "aedt_backend \<Rightarrow> string" where
  "backend_value Standalone = ''standalone''"
| "backend_value Pooled = ''pooled''"

fun profile_value :: "scheduling_profile \<Rightarrow> string" where
  "profile_value Standard = ''standard''"
| "profile_value FeaBursty = ''fea_bursty''"

fun policy_value :: "node_name_policy \<Rightarrow> string" where
  "policy_value Preferred = ''preferred''"
| "policy_value Strict = ''strict''"

section \<open>Normalisers\<close>

text \<open>A missing value (\<open>None\<close>) behaves as the empty text.\<close>

definition normalize_aedt_backend :: "string option \<Rightarrow> aedt_backend result" where
  "normalize_aedt_backend value = (let raw = lower (strip (case value of None \<Rightarrow> [] | Some v \<Rightarrow> v)) in
     if raw \<in> {[], ''standalone''} then Inr Standalone
     else if raw = ''pooled'' then Inr Pooled
     else Inl (ValueError ''aedt_backend must be standalone or pooled''))"

definition normalize_scheduling_profile :: "string option \<Rightarrow> scheduling_profile" where
  "normalize_scheduling_profile value = (let raw = lower (strip (case value of None \<Rightarrow> [] | Some v \<Rightarrow> v)) in
     if raw = ''fea_bursty'' then FeaBursty else Standard)"

text \<open>The empty policy (\<open>None\<close>) inherits the scheduler's default.\<close>

definition normalize_node_name_policy :: "string option \<Rightarrow> node_name_policy option result" where
  "normalize_node_name_policy value = (let raw = lower (strip (case value of None \<Rightarrow> [] | Some v \<Rightarrow> v)) in
     if raw = [] then Inr None
     else if raw = ''preferred'' then Inr (Some Preferred)
     else if raw = ''strict'' then Inr (Some Strict)
     else Inl (ValueError ''node_name_policy must be preferred or strict''))"

section \<open>Submitted tasks\<close>

text \<open>The columns of \<open>TaskCreate\<close> that scheduling reads, with the dataclass defaults.\<close>

record task_create =
  tc_name :: string
  tc_remote_cwd :: string
  tc_command :: string
  tc_env_setup :: string
  tc_required_capability :: string
  tc_env_profile :: string
  tc_account_name :: string
  tc_cpus :: int
  tc_memory_mb :: int
  tc_scheduling_profile :: string
  tc_aedt_backend :: string
  tc_gpus :: int
  tc_gpu_model :: string
  tc_partition :: string
  tc_node_name :: string
  tc_exclusive_node :: bool
  tc_priority :: int
  tc_timeout_seconds :: int
  tc_dedupe_key :: string
  tc_max_workers_per_node :: int
  tc_same_node_as_task_id :: int
  tc_payload_json :: string
  tc_cleanup_globs :: string
  tc_project :: string
  tc_entrypoint :: string
  tc_requested_allocation_id :: int
  tc_node_name_policy :: string

definition task_create_defaults :: "string \<Rightarrow> task_create" where
  "task_create_defaults name =
     \<lparr>tc_name = name, tc_remote_cwd = [], tc_command = [], tc_env_setup = [], tc_required_capability = [], tc_env_profile = [],
      tc_account_name = [], tc_cpus = 1, tc_memory_mb = 4096, tc_scheduling_profile = ''standard'',
      tc_aedt_backend = ''standalone'', tc_gpus = 0, tc_gpu_model = [], tc_partition = ''auto'',
      tc_node_name = [], tc_exclusive_node = False, tc_priority = 0, tc_timeout_seconds = 0,
      tc_dedupe_key = [], tc_max_workers_per_node = 0, tc_same_node_as_task_id = 0, tc_payload_json = [],
      tc_cleanup_globs = [], tc_project = [], tc_entrypoint = [],
      tc_requested_allocation_id = 0, tc_node_name_policy = []\<rparr>"

section \<open>Account snapshots\<close>

record account_snapshot =
  snap_account_name :: string
  snap_running :: int
  snap_pending :: int
  snap_max_running :: int
  snap_max_pending :: int
  snap_max_total :: int
  snap_storage_used_gb :: "rat option"
  snap_storage_quota_gb :: "rat option"

definition available :: "account_snapshot \<Rightarrow> bool" where
  "available s = (snap_running s < snap_max_running s \<and> snap_pending s < snap_max_pending s
     \<and> snap_running s + snap_pending s < snap_max_total s)"

definition score :: "account_snapshot \<Rightarrow> int \<times> int \<times> int" where
  "score s = (snap_running s + snap_pending s, snap_running s, snap_pending s)"

definition storage_percent :: "account_snapshot \<Rightarrow> rat option" where
  "storage_percent s = (case (snap_storage_used_gb s, snap_storage_quota_gb s) of
       (Some used, Some quota) \<Rightarrow> if quota = 0 then None else Some (min 100 (used / quota * 100))
     | _ \<Rightarrow> None)"

section \<open>Lemmas\<close>

text \<open>The stored texts of each enumeration are pairwise different and normalise back.\<close>

lemma task_status_value_inj: "task_status_value a = task_status_value b \<Longrightarrow> a = b"
  by (cases a; cases b) simp_all

lemma allocation_status_value_inj: "allocation_status_value a = allocation_status_value b \<Longrightarrow> a = b"
  by (cases a; cases b) simp_all

lemma normalize_backend_value: "normalize_aedt_backend (Some (backend_value b)) = Inr b"
  by (cases b; hypsubst; code_simp)

lemma normalize_profile_value: "normalize_scheduling_profile (Some (profile_value p)) = p"
  by (cases p; hypsubst; code_simp)

lemma normalize_policy_value: "normalize_node_name_policy (Some (policy_value p)) = Inr (Some p)"
  by (cases p; hypsubst; code_simp)

end
