(* ===== verification/Store.thy ===== *)
theory Store
  imports Models
begin

text \<open>
  \<open>slurm_scheduler/db.py\<close>: the SQLite store. A table is the list of its rows in insertion order;
  a row is a record with one field per column the scheduler reads. The optional AEDT tables are
  present only when the pool module created them. Every writer is one SQL statement, so it is one
  atomic function on the whole database; the conditional \<open>UPDATE ... WHERE\<close> statements, which the
  concurrent callers use as compare-and-set, return whether a row was changed.

  An update carries the list of its column assignments. \<open>CURRENT_TIMESTAMP\<close> is the \<open>now\<close> argument
  rounded down to a second. The transient \<open>_...\<close> annotations that the planner writes into row
  dictionaries are fields of the allocation row; they are never written to a table.
\<close>

section \<open>Rows\<close>

record task_row =
  t_id :: int
  t_name :: string
  t_status :: task_status
  t_allocation_id :: "int option"
  t_account_name :: string
  t_requested_account_name :: "string option"
  t_cpus :: int
  t_memory_mb :: int
  t_scheduling_profile :: string
  t_aedt_backend :: aedt_backend
  t_gpus :: int
  t_gpu_model :: string
  t_partition :: string
  t_node_name :: string
  t_node_name_policy :: string
  t_exclusive_node :: bool
  t_priority :: int
  t_timeout_seconds :: int
  t_dedupe_key :: string
  t_max_workers_per_node :: int
  t_same_node_as_task_id :: int
  t_requested_allocation_id :: int
  t_required_capability :: string
  t_env_profile :: string
  t_env_setup :: string
  t_remote_cwd :: string
  t_command :: string
  t_payload_json :: string
  t_cleanup_globs :: string
  t_project :: string
  t_entrypoint :: string
  t_exit_code :: "int option"
  t_attempt_count :: int
  t_remote_dir :: string
  t_exit_code_path :: string
  t_wrapper_pid :: string
  t_attach_token :: string
  t_launch_started_at :: stamp
  t_failure_message :: string
  t_created_at :: stamp
  t_attached_at :: stamp
  t_started_at :: stamp
  t_finished_at :: stamp
  t_updated_at :: stamp

record alloc_row =
  a_id :: int
  a_account_name :: string
  a_partition :: string
  a_node_name :: string
  a_slurm_job_id :: "string option"
  a_state :: allocation_status
  a_total_cpus :: int
  a_free_cpus :: int
  a_total_memory_mb :: int
  a_free_memory_mb :: int
  a_total_gpus :: int
  a_free_gpus :: int
  a_gpu_model :: string
  a_resource_pool :: string
  a_exclusive_node :: bool
  a_failure_message :: string
  a_drain_reason :: string
  a_pending_reason :: string
  a_created_at :: stamp
  a_submitted_at :: stamp
  a_started_at :: stamp
  a_last_active_at :: stamp
  a_drain_at :: stamp
  a_closed_at :: stamp
  a_updated_at :: stamp
  a_reserved_scheduling_profile :: string
  a_reserved_fea_slots :: int
  a_reserved_pooled_slots :: int
  a_allocation_worker_count :: "int option"
  a_node_worker_count :: "int option"

record session_row =
  s_id :: int
  s_allocation_id :: int
  s_generation :: int
  s_session_profile :: string
  s_state :: string
  s_last_heartbeat_at :: stamp
  s_quarantine_until :: stamp
  s_reuse_blocked_at :: stamp
  s_solve_batch_sealed_at :: stamp
  s_drain_requested_at :: stamp

record reservation_row =
  r_id :: int
  r_task_id :: int
  r_reservation_key :: string
  r_session_id :: int
  r_session_generation :: int
  r_session_profile :: string
  r_state :: string
  r_expires_at :: stamp

record event_row =
  e_kind :: string
  e_entity_type :: string
  e_entity_id :: int

record aedt_tables =
  aedt_sessions :: "session_row list"
  aedt_exact_session_reservations :: "reservation_row list"

record db =
  db_tasks :: "task_row list"
  db_task_seq :: int
  db_allocations :: "alloc_row list"
  db_allocation_seq :: int
  db_settings :: "(string \<times> string) list"
  db_events :: "event_row list"
  db_aedt :: "aedt_tables option"

section \<open>Generic tables\<close>

definition tbl_get :: "('r \<Rightarrow> int) \<Rightarrow> 'r list \<Rightarrow> int \<Rightarrow> 'r option" where
  "tbl_get key rows i = find (\<lambda>r. key r = i) rows"

definition tbl_update :: "('r \<Rightarrow> int) \<Rightarrow> 'r list \<Rightarrow> int \<Rightarrow> ('r \<Rightarrow> 'r) \<Rightarrow> 'r list" where
  "tbl_update key rows i f = map (\<lambda>r. if key r = i then f r else r) rows"

definition assign :: "('r \<Rightarrow> 'r) list \<Rightarrow> 'r \<Rightarrow> 'r" where
  "assign cols r = fold (\<lambda>f x. f x) cols r"

type_synonym task_field = "task_row \<Rightarrow> task_row"
type_synonym alloc_field = "alloc_row \<Rightarrow> alloc_row"

section \<open>Tasks\<close>

definition terminal_statuses :: "task_status set" where
  "terminal_statuses = {Completed, Failed, Cancelled}"

definition live_statuses :: "task_status set" where
  "live_statuses = {Attaching, Running}"

definition get_task :: "db \<Rightarrow> int \<Rightarrow> task_row option" where
  "get_task d i = tbl_get t_id (db_tasks d) i"

definition list_tasks :: "db \<Rightarrow> nat \<Rightarrow> task_status list option \<Rightarrow> task_row list" where
  "list_tasks d limit statuses =
     (case statuses of
        None \<Rightarrow> take limit (sort_desc t_id (db_tasks d))
      | Some ss \<Rightarrow> take limit (filter (\<lambda>t. t_status t \<in> set ss) (sort_desc t_id (db_tasks d))))"

definition list_tasks_by_statuses :: "db \<Rightarrow> task_status list \<Rightarrow> nat \<Rightarrow> task_row list" where
  "list_tasks_by_statuses d ss limit =
     take limit (filter (\<lambda>t. t_status t \<in> set ss) (sort_desc t_id (db_tasks d)))"

definition list_live_task_claims_for_allocation :: "db \<Rightarrow> int \<Rightarrow> task_row list" where
  "list_live_task_claims_for_allocation d aid =
     sort_key t_id (filter (\<lambda>t. t_allocation_id t = Some aid \<and> t_status t \<in> live_statuses) (db_tasks d))"

definition list_nonterminal_task_claims_for_allocation :: "db \<Rightarrow> int \<Rightarrow> task_row list" where
  "list_nonterminal_task_claims_for_allocation d aid =
     sort_key t_id (filter (\<lambda>t. t_status t \<notin> terminal_statuses
       \<and> (t_allocation_id t = Some aid \<or> t_requested_allocation_id t = aid)) (db_tasks d))"

text \<open>An inserted row: the given columns, and the schema's defaults for the others.\<close>

definition task_row_of :: "int \<Rightarrow> int \<Rightarrow> task_create \<Rightarrow> aedt_backend \<Rightarrow> node_name_policy option \<Rightarrow> task_row" where
  "task_row_of now i tc backend policy =
     \<lparr>t_id = i, t_name = tc_name tc, t_status = Queued, t_allocation_id = None,
      t_account_name = tc_account_name tc, t_requested_account_name = Some (tc_account_name tc),
      t_cpus = tc_cpus tc, t_memory_mb = tc_memory_mb tc,
      t_scheduling_profile = tc_scheduling_profile tc, t_aedt_backend = backend,
      t_gpus = tc_gpus tc, t_gpu_model = tc_gpu_model tc, t_partition = tc_partition tc,
      t_node_name = tc_node_name tc,
      t_node_name_policy = (case policy of None \<Rightarrow> [] | Some p \<Rightarrow> policy_value p),
      t_exclusive_node = tc_exclusive_node tc, t_priority = tc_priority tc,
      t_timeout_seconds = tc_timeout_seconds tc, t_dedupe_key = tc_dedupe_key tc,
      t_max_workers_per_node = tc_max_workers_per_node tc,
      t_same_node_as_task_id = max 0 (tc_same_node_as_task_id tc),
      t_requested_allocation_id = max 0 (tc_requested_allocation_id tc),
      t_required_capability = tc_required_capability tc, t_env_profile = tc_env_profile tc,
      t_env_setup = tc_env_setup tc, t_remote_cwd = tc_remote_cwd tc, t_command = tc_command tc,
      t_payload_json = tc_payload_json tc, t_cleanup_globs = tc_cleanup_globs tc, t_project = tc_project tc,
      t_entrypoint = tc_entrypoint tc, t_exit_code = None, t_attempt_count = 0,
      t_remote_dir = [], t_exit_code_path = [], t_wrapper_pid = [], t_attach_token = [],
      t_launch_started_at = Blank, t_failure_message = [],
      t_created_at = current_timestamp now, t_attached_at = Blank, t_started_at = Blank,
      t_finished_at = Blank, t_updated_at = current_timestamp now\<rparr>"

definition create_task :: "int \<Rightarrow> db \<Rightarrow> task_create \<Rightarrow> (db \<times> int) result" where
  "create_task now d tc =
     (case normalize_aedt_backend (Some (tc_aedt_backend tc)) of
        Inl e \<Rightarrow> Inl e
      | Inr backend \<Rightarrow>
          (case normalize_node_name_policy (Some (tc_node_name_policy tc)) of
             Inl e \<Rightarrow> Inl e
           | Inr policy \<Rightarrow>
               (let i = db_task_seq d + 1 in
                Inr (d\<lparr>db_tasks := db_tasks d @ [task_row_of now i tc backend policy],
                       db_task_seq := i\<rparr>, i))))"

definition find_active_task_by_dedupe_key :: "db \<Rightarrow> string \<Rightarrow> task_row option" where
  "find_active_task_by_dedupe_key d k =
     (if k = [] then None
      else (case sort_key t_id (filter (\<lambda>t. t_dedupe_key t = k \<and> t_status t \<notin> terminal_statuses) (db_tasks d))
            of [] \<Rightarrow> None | t # _ \<Rightarrow> Some t))"

definition count_tasks_by_project :: "db \<Rightarrow> string \<Rightarrow> task_status list \<Rightarrow> int" where
  "count_tasks_by_project d project ss =
     (if project = [] then 0
      else int (length (filter (\<lambda>t. t_project t = project \<and> (ss = [] \<or> t_status t \<in> set ss)) (db_tasks d))))"

text \<open>
  \<open>TRIM\<close> and \<open>LOWER\<close> of SQLite act on spaces and on ASCII letters only; \<open>sql_trim\<close> and
  \<open>sql_lower\<close> model them.
\<close>

definition sql_trim :: "string \<Rightarrow> string" where
  "sql_trim s = rstrip_by (\<lambda>c. c = CHR '' '') (lstrip_by (\<lambda>c. c = CHR '' '') s)"

definition sql_lower :: "string \<Rightarrow> string" where
  "sql_lower s = map (\<lambda>c. let n = code c in if 65 \<le> n \<and> n \<le> 90 then char_of (n + 32) else c) s"

definition count_active_standalone_fea_tasks_by_scope :: "db \<Rightarrow> string \<Rightarrow> string \<Rightarrow> int" where
  "count_active_standalone_fea_tasks_by_scope d project0 name_prefix =
     (let project = strip project0 in
      if project = [] \<or> project = ''_aedt_pool_hosts'' then 0
      else int (length (filter (\<lambda>t. t_project t = project
             \<and> t_status t \<in> live_statuses
             \<and> sql_lower (sql_trim (t_scheduling_profile t)) = ''fea_bursty''
             \<and> t_aedt_backend t = Standalone
             \<and> sql_trim (t_project t) \<noteq> ''_aedt_pool_hosts''
             \<and> (name_prefix = [] \<or> startswith (t_name t) name_prefix)) (db_tasks d))))"

definition update_task :: "int \<Rightarrow> db \<Rightarrow> int \<Rightarrow> task_field list \<Rightarrow> db" where
  "update_task now d i cols =
     (if cols = [] then d
      else d\<lparr>db_tasks := tbl_update t_id (db_tasks d) i
             (\<lambda>t. (assign cols t)\<lparr>t_updated_at := current_timestamp now\<rparr>)\<rparr>)"

definition update_tasks_where ::
  "int \<Rightarrow> db \<Rightarrow> int \<Rightarrow> (task_row \<Rightarrow> bool) \<Rightarrow> task_field list \<Rightarrow> db \<times> bool" where
  "update_tasks_where now d i P cols =
     (if list_ex (\<lambda>t. t_id t = i \<and> P t) (db_tasks d)
      then (d\<lparr>db_tasks := map (\<lambda>t. if t_id t = i \<and> P t
               then (assign cols t)\<lparr>t_updated_at := current_timestamp now\<rparr> else t) (db_tasks d)\<rparr>, True)
      else (d, False))"

definition update_task_if_status ::
  "int \<Rightarrow> db \<Rightarrow> int \<Rightarrow> task_status list \<Rightarrow> task_field list \<Rightarrow> db \<times> bool" where
  "update_task_if_status now d i expected cols =
     (if cols = [] \<or> expected = [] then (d, False)
      else update_tasks_where now d i (\<lambda>t. t_status t \<in> set expected) cols)"

definition update_task_if_attach_claim ::
  "int \<Rightarrow> db \<Rightarrow> int \<Rightarrow> string \<Rightarrow> bool \<Rightarrow> task_field list \<Rightarrow> db \<times> bool" where
  "update_task_if_attach_claim now d i token require_launch_not_started cols =
     (if token = [] \<or> cols = [] then (d, False)
      else update_tasks_where now d i
             (\<lambda>t. t_status t = Attaching \<and> t_attach_token t = token
                \<and> (require_launch_not_started \<longrightarrow> t_launch_started_at t = Blank)) cols)"

section \<open>AEDT tables\<close>

definition allocation_has_aedt_pool_claim :: "db \<Rightarrow> int \<Rightarrow> bool" where
  "allocation_has_aedt_pool_claim d aid =
     (case db_aedt d of None \<Rightarrow> False
      | Some ts \<Rightarrow> list_ex (\<lambda>s. s_allocation_id s = aid
          \<and> s_state s \<in> {''starting'', ''ready'', ''busy'', ''draining'', ''unhealthy''}) (aedt_sessions ts))"

definition task_has_auto_aedt_reservation :: "db \<Rightarrow> int \<Rightarrow> bool" where
  "task_has_auto_aedt_reservation d tid =
     (case db_aedt d of None \<Rightarrow> False
      | Some ts \<Rightarrow> list_ex (\<lambda>r. r_task_id r = tid
          \<and> startswith (sql_lower (r_reservation_key r)) ''aedt-auto:'') (aedt_exact_session_reservations ts))"

definition active_pooled_aedt_tasks :: "db \<Rightarrow> int \<Rightarrow> int" where
  "active_pooled_aedt_tasks d aid =
     (if aid \<le> 0 then 0
      else int (length (filter (\<lambda>t. t_allocation_id t = Some aid \<and> t_aedt_backend t = Pooled
                                  \<and> t_status t \<in> live_statuses) (db_tasks d))))"

text \<open>SQL comparisons of timestamp texts written by \<open>CURRENT_TIMESTAMP\<close>; NULL compares as false.\<close>

fun stamp_after :: "stamp \<Rightarrow> int \<Rightarrow> bool" where
  "stamp_after (At t) now = (now < t)"
| "stamp_after s now = False"

fun stamp_from :: "stamp \<Rightarrow> int \<Rightarrow> bool" where
  "stamp_from (At t) cutoff = (cutoff \<le> t)"
| "stamp_from s cutoff = False"

fun stamp_until :: "stamp \<Rightarrow> int \<Rightarrow> bool" where
  "stamp_until (At t) now = (t \<le> now)"
| "stamp_until s now = False"

definition get_allocation :: "db \<Rightarrow> int \<Rightarrow> alloc_row option" where
  "get_allocation d i = tbl_get a_id (db_allocations d) i"

definition healthy_reserved_session ::
  "db \<Rightarrow> aedt_tables \<Rightarrow> int \<Rightarrow> int \<Rightarrow> int \<Rightarrow> int \<Rightarrow> bool" where
  "healthy_reserved_session d ts tid aid cutoff now =
     list_ex (\<lambda>r. r_task_id r = tid \<and> r_state r = ''reserved'' \<and> stamp_after (r_expires_at r) now
       \<and> list_ex (\<lambda>s. s_id s = r_session_id r \<and> s_allocation_id s = aid
            \<and> s_generation s = r_session_generation r \<and> s_session_profile s = r_session_profile r
            \<and> s_state s \<in> {''ready'', ''busy''}
            \<and> list_ex (\<lambda>a. a_id a = s_allocation_id s \<and> a_state a \<in> {Warm, Active}) (db_allocations d)
            \<and> stamp_from (s_last_heartbeat_at s) cutoff
            \<and> (s_quarantine_until s = Blank \<or> stamp_until (s_quarantine_until s) now)
            \<and> s_reuse_blocked_at s = Blank \<and> s_solve_batch_sealed_at s = Blank
            \<and> s_drain_requested_at s = Blank) (aedt_sessions ts))
       (aedt_exact_session_reservations ts)"

definition update_pooled_task_if_reserved_capacity ::
  "int \<Rightarrow> db \<Rightarrow> int \<Rightarrow> int \<Rightarrow> int \<Rightarrow> int \<Rightarrow> int \<Rightarrow> task_field list \<Rightarrow> db \<times> bool" where
  "update_pooled_task_if_reserved_capacity now d tid aid cutoff stamp_now project_cpus0 cols =
     (if cols = [] then (d, False)
      else (let project_cpus = max 1 project_cpus0 in
        case db_aedt d of None \<Rightarrow> (d, False)
        | Some ts \<Rightarrow>
            update_tasks_where now d tid
              (\<lambda>t. t_status t = Queued \<and> t_aedt_backend t = Pooled
                 \<and> t_requested_allocation_id t = aid \<and> project_cpus \<le> t_cpus t
                 \<and> healthy_reserved_session d ts (t_id t) aid cutoff stamp_now
                 \<and> (case get_allocation d aid of None \<Rightarrow> False
                    | Some a \<Rightarrow> int (length (filter (\<lambda>u. t_allocation_id u = Some aid
                          \<and> t_aedt_backend u = Pooled \<and> t_status u \<in> live_statuses) (db_tasks d)))
                        < a_total_cpus a div project_cpus)) cols))"

section \<open>Allocations\<close>

definition live_allocation_states :: "allocation_status set" where
  "live_allocation_states = {Pending, Warm, Active, Draining, Closing}"

definition list_allocations_with_live :: "db \<Rightarrow> nat \<Rightarrow> nat \<Rightarrow> alloc_row list" where
  "list_allocations_with_live d limit live_limit =
     (let rows = sort_desc a_id (db_allocations d);
          recent = take limit rows;
          live = take live_limit (filter (\<lambda>a. a_state a \<in> live_allocation_states) rows)
      in sort_desc a_id (map snd (fold (\<lambda>a by_id. AList.update (a_id a) a by_id) (recent @ live) [])))"

definition alloc_row_of ::
  "int \<Rightarrow> int \<Rightarrow> string \<Rightarrow> string \<Rightarrow> string \<Rightarrow> int \<Rightarrow> int \<Rightarrow> int \<Rightarrow> string \<Rightarrow> string \<Rightarrow> bool \<Rightarrow> string \<Rightarrow> string \<Rightarrow> alloc_row" where
  "alloc_row_of now i account_name partition0 node_name total_cpus total_memory_mb total_gpus gpu_model
      resource_pool exclusive_node drain_reason pending_reason =
     \<lparr>a_id = i, a_account_name = account_name, a_partition = partition0, a_node_name = node_name,
      a_slurm_job_id = None, a_state = Pending, a_total_cpus = total_cpus, a_free_cpus = total_cpus,
      a_total_memory_mb = total_memory_mb, a_free_memory_mb = total_memory_mb,
      a_total_gpus = total_gpus, a_free_gpus = total_gpus, a_gpu_model = gpu_model,
      a_resource_pool = resource_pool, a_exclusive_node = exclusive_node, a_failure_message = [],
      a_drain_reason = drain_reason, a_pending_reason = pending_reason,
      a_created_at = current_timestamp now, a_submitted_at = Blank, a_started_at = Blank,
      a_last_active_at = Blank, a_drain_at = Blank, a_closed_at = Blank,
      a_updated_at = current_timestamp now, a_reserved_scheduling_profile = [],
      a_reserved_fea_slots = 0, a_reserved_pooled_slots = 0, a_allocation_worker_count = None,
      a_node_worker_count = None\<rparr>"

definition create_allocation ::
  "int \<Rightarrow> db \<Rightarrow> string \<Rightarrow> string \<Rightarrow> string \<Rightarrow> int \<Rightarrow> int \<Rightarrow> int \<Rightarrow> string \<Rightarrow> string \<Rightarrow> bool \<Rightarrow> string \<Rightarrow> string \<Rightarrow> db \<times> int" where
  "create_allocation now d account_name partition0 node_name total_cpus total_memory_mb total_gpus gpu_model
      resource_pool exclusive_node drain_reason pending_reason =
     (let i = db_allocation_seq d + 1 in
      (d\<lparr>db_allocations := db_allocations d @ [alloc_row_of now i account_name partition0 node_name total_cpus
            total_memory_mb total_gpus gpu_model resource_pool exclusive_node drain_reason pending_reason],
         db_allocation_seq := i\<rparr>, i))"

definition update_allocation :: "int \<Rightarrow> db \<Rightarrow> int \<Rightarrow> alloc_field list \<Rightarrow> db" where
  "update_allocation now d i cols =
     (if cols = [] then d
      else d\<lparr>db_allocations := tbl_update a_id (db_allocations d) i
             (\<lambda>a. (assign cols a)\<lparr>a_updated_at := current_timestamp now\<rparr>)\<rparr>)"

definition update_allocation_if_submission_claim ::
  "int \<Rightarrow> db \<Rightarrow> int \<Rightarrow> string \<Rightarrow> alloc_field list \<Rightarrow> db \<times> bool" where
  "update_allocation_if_submission_claim now d i expected_reason cols =
     (let P = (\<lambda>a. a_id a = i \<and> a_state a = Pending \<and> a_slurm_job_id a = None
                 \<and> a_pending_reason a = expected_reason) in
      if expected_reason = [] \<or> cols = [] then (d, False)
      else if list_ex P (db_allocations d)
      then (d\<lparr>db_allocations := map (\<lambda>a. if P a
               then (assign cols a)\<lparr>a_updated_at := current_timestamp now\<rparr> else a) (db_allocations d)\<rparr>, True)
      else (d, False))"

record capacity_row =
  c_id :: int
  c_state :: allocation_status
  c_free_cpus :: int
  c_free_memory_mb :: int
  c_free_gpus :: int
  c_active_tasks :: int

definition write_capacity :: "int \<Rightarrow> capacity_row \<Rightarrow> alloc_row \<Rightarrow> alloc_row" where
  "write_capacity now c a = a\<lparr>a_state := c_state c, a_free_cpus := c_free_cpus c,
     a_free_memory_mb := c_free_memory_mb c, a_free_gpus := c_free_gpus c,
     a_last_active_at := (if c_active_tasks c \<noteq> 0 then current_timestamp now else a_last_active_at a),
     a_updated_at := current_timestamp now\<rparr>"

definition update_allocation_capacities :: "int \<Rightarrow> db \<Rightarrow> capacity_row list \<Rightarrow> db" where
  "update_allocation_capacities now d rows =
     (if rows = [] then d
      else d\<lparr>db_allocations := fold (\<lambda>c as. tbl_update a_id as (c_id c) (write_capacity now c))
             rows (db_allocations d)\<rparr>)"

section \<open>Settings and events\<close>

definition get_setting :: "db \<Rightarrow> string \<Rightarrow> string option" where
  "get_setting d k = map_of (db_settings d) k"

definition set_setting :: "db \<Rightarrow> string \<Rightarrow> string \<Rightarrow> db" where
  "set_setting d k v = d\<lparr>db_settings := AList.update k v (db_settings d)\<rparr>"

definition claim_newer_setting_value :: "db \<Rightarrow> string \<Rightarrow> string \<Rightarrow> db \<times> bool" where
  "claim_newer_setting_value d k v =
     (case get_setting d k of
        None \<Rightarrow> (set_setting d k v, True)
      | Some old \<Rightarrow> if old < v then (set_setting d k v, True) else (d, False))"

definition aedt_pool_project_cpus :: "db \<Rightarrow> int" where
  "aedt_pool_project_cpus d =
     (case get_setting d ''aedt_pool_project_cpus'' of
        None \<Rightarrow> 4
      | Some v \<Rightarrow> if v = [] then 4 else (case py_int v of None \<Rightarrow> 4 | Some n \<Rightarrow> max 1 n))"

definition record_event :: "db \<Rightarrow> string \<Rightarrow> string \<Rightarrow> int \<Rightarrow> db" where
  "record_event d kind entity i =
     d\<lparr>db_events := db_events d @ [\<lparr>e_kind = kind, e_entity_type = entity, e_entity_id = i\<rparr>]\<rparr>"

section \<open>Laws of the tables\<close>

text \<open>
  What the components rely on: a table whose rows are found by their key, and the conditional
  update of one row. \<open>touch\<close> is what every statement writes besides its assignments.
\<close>

locale keyed_table =
  fixes key :: "'r \<Rightarrow> int"
    and lookup :: "'d \<Rightarrow> int \<Rightarrow> 'r option"
    and modify :: "'d \<Rightarrow> int \<Rightarrow> ('r \<Rightarrow> 'r) \<Rightarrow> 'd"
  assumes lookup_key: "lookup d i = Some r \<Longrightarrow> key r = i"
    and lookup_modify: "(\<And>r. key (f r) = key r) \<Longrightarrow>
      lookup (modify d i f) j = (if j = i then map_option f (lookup d i) else lookup d j)"
begin

lemma lookup_modify_other: "(\<And>r. key (f r) = key r) \<Longrightarrow> j \<noteq> i \<Longrightarrow> lookup (modify d i f) j = lookup d j"
  by (simp add: lookup_modify)

lemma lookup_fold_modify:
  "(\<And>u r. u \<in> set us \<Longrightarrow> key (snd u r) = key r) \<Longrightarrow>
   lookup (fold (\<lambda>u d. modify d (fst u) (snd u)) us d) j =
     map_option (fold (\<lambda>u r. if fst u = j then snd u r else r) us) (lookup d j)"
proof (induction us arbitrary: d)
  case Nil
  then show ?case by (simp add: option.map_ident)
next
  case (Cons u us)
  have "lookup (modify d (fst u) (snd u)) j =
      map_option (\<lambda>r. if fst u = j then snd u r else r) (lookup d j)"
    using Cons.prems by (cases "lookup d j") (auto simp: lookup_modify)
  moreover have "lookup (fold (\<lambda>u d. modify d (fst u) (snd u)) us (modify d (fst u) (snd u))) j =
      map_option (fold (\<lambda>u r. if fst u = j then snd u r else r) us) (lookup (modify d (fst u) (snd u)) j)"
    using Cons.prems by (intro Cons.IH) auto
  ultimately show ?case by (simp add: option.map_comp comp_def)
qed

end

locale guarded_table =
  fixes key :: "'r \<Rightarrow> int"
    and lookup :: "'d \<Rightarrow> int \<Rightarrow> 'r option"
    and cas :: "'d \<Rightarrow> int \<Rightarrow> ('r \<Rightarrow> bool) \<Rightarrow> ('r \<Rightarrow> 'r) \<Rightarrow> 'd \<times> bool"
    and touch :: "'r \<Rightarrow> 'r"
    and wf :: "'d \<Rightarrow> bool"
  assumes cas_hit: "wf d \<Longrightarrow> (\<And>r. key (f r) = key r) \<Longrightarrow> lookup d i = Some r \<Longrightarrow> P r \<Longrightarrow>
      \<exists>d'. cas d i P f = (d', True) \<and> lookup d' i = Some (touch (f r))"
    and cas_miss: "wf d \<Longrightarrow> (\<And>r. lookup d i = Some r \<Longrightarrow> \<not> P r) \<Longrightarrow> cas d i P f = (d, False)"
    and cas_frame: "(\<And>r. key (f r) = key r) \<Longrightarrow> cas d i P f = (d', b) \<Longrightarrow> j \<noteq> i \<Longrightarrow>
      lookup d' j = lookup d j"
    and cas_wf: "wf d \<Longrightarrow> (\<And>r. key (f r) = key r) \<Longrightarrow> cas d i P f = (d', b) \<Longrightarrow> wf d'"
begin

lemma cas_True_iff:
  assumes "wf d" and "\<And>r. key (f r) = key r"
  shows "snd (cas d i P f) \<longleftrightarrow> (\<exists>r. lookup d i = Some r \<and> P r)"
  using cas_hit [OF assms, of i _ P] cas_miss [OF assms(1), of i P f]
  by (metis prod.sel(2))

lemma cas_True_lookup:
  assumes "wf d" and "\<And>r. key (f r) = key r" and "cas d i P f = (d', True)"
  shows "\<exists>r. lookup d i = Some r \<and> P r \<and> lookup d' i = Some (touch (f r))"
  using cas_True_iff [OF assms(1,2), of i P] cas_hit [OF assms(1,2), of i _ P] assms(3)
  by (metis prod.inject prod.sel(2))

text \<open>Two competitors with one guard: the update that falsifies it makes the second one fail.\<close>

lemma cas_exclusive:
  assumes wf: "wf d" and key: "\<And>r. key (f r) = key r"
    and won: "cas d i P f = (d', True)"
    and falsifies: "\<And>r. P r \<Longrightarrow> \<not> P (touch (f r))"
  shows "cas d' i P g = (d', False)"
proof -
  obtain r where "P r" "lookup d' i = Some (touch (f r))"
    using cas_True_lookup [OF wf key won] by blast
  moreover have "wf d'" using cas_wf [OF wf key won] .
  ultimately show ?thesis using falsifies by (intro cas_miss) auto
qed

end

lemma tbl_get_key: "tbl_get key rows i = Some r \<Longrightarrow> key r = i"
  by (auto simp: tbl_get_def find_Some_iff)

lemma tbl_get_update:
  assumes "\<And>r. key (f r) = key r"
  shows "tbl_get key (tbl_update key rows i f) j =
    (if j = i then map_option f (tbl_get key rows i) else tbl_get key rows j)"
  using assms by (induction rows) (auto simp: tbl_get_def tbl_update_def)

interpretation table: keyed_table key "tbl_get key" "tbl_update key" for key
  by unfold_locales (auto simp: tbl_get_key tbl_get_update)

definition tasks_wf :: "db \<Rightarrow> bool" where
  "tasks_wf d = distinct (map t_id (db_tasks d))"

definition allocations_wf :: "db \<Rightarrow> bool" where
  "allocations_wf d = distinct (map a_id (db_allocations d))"

lemma tbl_get_unique:
  "distinct (map key rows) \<Longrightarrow> r \<in> set rows \<Longrightarrow> tbl_get key rows (key r) = Some r"
  by (induction rows) (auto simp: tbl_get_def)

lemma tbl_get_in: "tbl_get key rows i = Some r \<Longrightarrow> r \<in> set rows"
  by (auto simp: tbl_get_def find_Some_iff)

lemma tbl_get_None: "tbl_get key rows i = None \<longleftrightarrow> i \<notin> key ` set rows"
  by (auto simp: tbl_get_def find_None_iff)

lemma tbl_get_map:
  assumes "\<And>r. key (f r) = key r"
  shows "tbl_get key (map f rows) i = map_option f (tbl_get key rows i)"
  using assms by (induction rows) (auto simp: tbl_get_def)

lemma map_key_cond:
  assumes "\<And>r. key (f r) = key r"
  shows "map key (map (\<lambda>r. if P r then f r else r) rows) = map key rows"
  using assms by (induction rows) auto

text \<open>The conditional task updates are such guarded updates.\<close>

abbreviation touch_task :: "int \<Rightarrow> task_row \<Rightarrow> task_row" where
  "touch_task now t \<equiv> t\<lparr>t_updated_at := current_timestamp now\<rparr>"

lemma assign_Nil [simp]: "assign [] r = r"
  by (simp add: assign_def)

lemma assign_Cons [simp]: "assign (f # cols) r = assign cols (f r)"
  by (simp add: assign_def)

lemma get_task_where:
  assumes "\<And>t. t_id (assign cols t) = t_id t"
  shows "get_task (fst (update_tasks_where now d i P cols)) j =
    map_option (\<lambda>t. if t_id t = i \<and> P t then touch_task now (assign cols t) else t) (get_task d j)"
proof (cases "list_ex (\<lambda>t. t_id t = i \<and> P t) (db_tasks d)")
  case True
  then show ?thesis
    using assms by (simp add: update_tasks_where_def get_task_def tbl_get_map)
next
  case False
  then have "get_task d j = Some t \<Longrightarrow> \<not> (t_id t = i \<and> P t)" for t
    by (auto simp: get_task_def list_ex_iff dest: tbl_get_in)
  with False show ?thesis
    by (cases "get_task d j") (auto simp: update_tasks_where_def)
qed

lemma update_tasks_where_wf:
  assumes "tasks_wf d" and "\<And>t. t_id (assign cols t) = t_id t"
  shows "tasks_wf (fst (update_tasks_where now d i P cols))"
  using assms map_key_cond [of t_id "\<lambda>t. touch_task now (assign cols t)" "\<lambda>t. t_id t = i \<and> P t" "db_tasks d"]
  by (simp add: update_tasks_where_def tasks_wf_def del: map_map)

lemma update_tasks_where_snd:
  assumes "tasks_wf d"
  shows "snd (update_tasks_where now d i P cols) \<longleftrightarrow> (\<exists>t. get_task d i = Some t \<and> P t)"
  using assms
  by (auto simp: update_tasks_where_def get_task_def tasks_wf_def list_ex_iff
      dest: tbl_get_in tbl_get_key tbl_get_unique [of t_id])

lemma update_tasks_where_False [simp]:
  "\<not> snd (update_tasks_where now d i P cols) \<Longrightarrow> fst (update_tasks_where now d i P cols) = d"
  by (simp add: update_tasks_where_def split: if_splits)

interpretation task_claims:
  guarded_table t_id get_task "\<lambda>d i P f. update_tasks_where now d i P [f]" "touch_task now" tasks_wf
  for now
proof (unfold_locales, goal_cases)
  case (1 d f i r P)
  have "snd (update_tasks_where now d i P [f])"
    using 1 update_tasks_where_snd by blast
  moreover have "get_task (fst (update_tasks_where now d i P [f])) i = Some (touch_task now (f r))"
    using 1 get_task_where [of "[f]" now d i P i] by (auto simp: get_task_def dest: tbl_get_key)
  ultimately show ?case by (metis prod.collapse)
next
  case (2 d i P f)
  then show ?case
    using update_tasks_where_snd [of d now i P "[f]"] update_tasks_where_False [of now d i P "[f]"]
    by (metis prod.collapse)
next
  case (3 f d i P d' b j)
  then show ?case
    using get_task_where [of "[f]" now d i P j]
    by (cases "get_task d j") (auto simp: get_task_def dest: tbl_get_key)
next
  case (4 d f i P d' b)
  then show ?case using update_tasks_where_wf [of d "[f]" now i P] by simp
qed

section \<open>Properties\<close>

definition task_ids_wf :: "db \<Rightarrow> bool" where
  "task_ids_wf d = (tasks_wf d \<and> (\<forall>t \<in> set (db_tasks d). t_id t \<le> db_task_seq d))"

lemma tbl_get_append:
  "tbl_get key (rows @ [r]) i = (case tbl_get key rows i of Some x \<Rightarrow> Some x
     | None \<Rightarrow> if key r = i then Some r else None)"
  by (induction rows) (auto simp: tbl_get_def)

text \<open>Inserting a task gives it a fresh id: the new row is found under that id, is queued
  with no allocation, token or launch, every other row is unchanged, and ids stay unique.\<close>

theorem create_task_fresh:
  assumes "task_ids_wf d" and "create_task now d tc = Inr (d', i)"
  shows "get_task d i = None
    \<and> (\<exists>t. get_task d' i = Some t \<and> t_status t = Queued \<and> t_allocation_id t = None
         \<and> t_attach_token t = [] \<and> t_launch_started_at t = Blank \<and> t_dedupe_key t = tc_dedupe_key tc)
    \<and> (\<forall>j. j \<noteq> i \<longrightarrow> get_task d' j = get_task d j) \<and> task_ids_wf d'"
proof -
  from assms(2) obtain backend policy where
    i: "i = db_task_seq d + 1" and d': "db_tasks d' = db_tasks d @ [task_row_of now i tc backend policy]"
      "db_task_seq d' = i"
    by (auto simp: create_task_def Let_def split: sum.splits)
  have new: "get_task d i = None"
    using assms(1) i by (force simp: get_task_def tbl_get_None task_ids_wf_def)
  have "get_task d' j = (if j = i then Some (task_row_of now i tc backend policy) else get_task d j)" for j
    using new by (auto simp: get_task_def d' tbl_get_append task_row_of_def split: option.splits)
  moreover have "task_ids_wf d'"
    using assms(1) i by (force simp: task_ids_wf_def tasks_wf_def d' task_row_of_def)
  ultimately show ?thesis using new by (simp add: task_row_of_def)
qed

text \<open>The row a conditional statement matched is the only one that changes.\<close>

lemma filter_count_update_one:
  assumes "distinct (map key rows)"
  shows "length (filter Q (map (\<lambda>r. if key r = i \<and> P r then f r else r) rows)) \<le> Suc (length (filter Q rows))"
  using assms
proof (induction rows)
  case (Cons r rows)
  have "map (\<lambda>r. if key r = i \<and> P r then f r else r) rows = rows" if "key r = i"
    using Cons.prems that by (intro map_idI) (metis distinct.simps(2) image_eqI list.set_map list.simps(9))
  with Cons show ?case by (cases "key r = i") auto
qed simp

abbreviation pooled_live_on :: "int \<Rightarrow> task_row \<Rightarrow> bool" where
  "pooled_live_on aid t \<equiv> t_allocation_id t = Some aid \<and> t_aedt_backend t = Pooled \<and> t_status t \<in> live_statuses"

lemma update_tasks_where_count:
  assumes "tasks_wf d"
  shows "length (filter Q (db_tasks (fst (update_tasks_where now d i P cols))))
    \<le> length (filter Q (db_tasks d)) + (if snd (update_tasks_where now d i P cols) then 1 else 0)"
  using assms filter_count_update_one [of t_id "db_tasks d" Q i P "\<lambda>t. touch_task now (assign cols t)"]
  by (simp add: update_tasks_where_def tasks_wf_def)

lemma pooled_claim_guard:
  assumes "snd (update_pooled_task_if_reserved_capacity now d tid aid cutoff stamp_now pc cols)"
    and "get_allocation d aid = Some a"
  shows "int (length (filter (pooled_live_on aid) (db_tasks d))) < a_total_cpus a div max 1 pc"
  using assms
  by (auto simp: update_pooled_task_if_reserved_capacity_def update_tasks_where_def list_ex_iff Let_def
      split: option.splits if_splits)

lemma pooled_claim_count:
  assumes wf: "tasks_wf d"
  shows "length (filter Q (db_tasks (fst (update_pooled_task_if_reserved_capacity now d tid aid cutoff stamp_now pc cols))))
    \<le> length (filter Q (db_tasks d))
      + (if snd (update_pooled_task_if_reserved_capacity now d tid aid cutoff stamp_now pc cols) then 1 else 0)"
proof (cases "cols = [] \<or> db_aedt d = None")
  case False
  then obtain P where "update_pooled_task_if_reserved_capacity now d tid aid cutoff stamp_now pc cols
      = update_tasks_where now d tid P cols"
    by (auto simp: update_pooled_task_if_reserved_capacity_def Let_def)
  then show ?thesis using update_tasks_where_count [OF wf, of Q now tid P cols] by simp
qed (auto simp: update_pooled_task_if_reserved_capacity_def)

lemma pooled_claim_frame:
  "db_allocations (fst (update_pooled_task_if_reserved_capacity now d tid aid cutoff stamp_now pc cols)) = db_allocations d"
  "\<forall>t. t_id (assign cols t) = t_id t \<Longrightarrow> tasks_wf d \<Longrightarrow>
     tasks_wf (fst (update_pooled_task_if_reserved_capacity now d tid aid cutoff stamp_now pc cols))"
  using update_tasks_where_wf
  by (auto simp: update_pooled_task_if_reserved_capacity_def Let_def split: option.splits)
    (auto simp: update_tasks_where_def)

text \<open>One claim of the last pooled slots of an allocation by some scheduler process.\<close>

fun pooled_claim :: "int \<Rightarrow> int \<Rightarrow> int \<times> int \<times> int \<times> int \<times> task_field list \<Rightarrow> db \<Rightarrow> db" where
  "pooled_claim aid pc (now, tid, cutoff, stamp_now, cols) d =
     fst (update_pooled_task_if_reserved_capacity now d tid aid cutoff stamp_now pc cols)"

text \<open>C34. Pooled AEDT density: however many scheduler processes race to claim pooled tasks onto an
  allocation, in any order and with any column assignments, the number of live pooled tasks on it
  never grows beyond its CPUs divided by the CPUs of a pooled project.\<close>

theorem pooled_density_bound:
  assumes "tasks_wf d" and "get_allocation d aid = Some a"
    and "\<forall>(now, tid, cutoff, stamp_now, cols) \<in> set claims. \<forall>t. t_id (assign cols t) = t_id t"
    and "0 < aid" and "active_pooled_aedt_tasks d aid \<le> a_total_cpus a div max 1 pc"
  shows "active_pooled_aedt_tasks (fold (pooled_claim aid pc) claims d) aid \<le> a_total_cpus a div max 1 pc"
  using assms
proof (induction claims arbitrary: d)
  case (Cons c claims)
  obtain now tid cutoff stamp_now cols where c: "c = (now, tid, cutoff, stamp_now, cols)" by (cases c)
  let ?u = "update_pooled_task_if_reserved_capacity now d tid aid cutoff stamp_now pc cols"
  have "active_pooled_aedt_tasks (fst ?u) aid \<le> a_total_cpus a div max 1 pc"
    using pooled_claim_count [OF Cons.prems(1), of "pooled_live_on aid" now tid aid cutoff stamp_now pc cols]
      pooled_claim_guard [of now d tid aid cutoff stamp_now pc cols a] Cons.prems(2,4,5)
    by (cases "snd ?u") (auto simp: active_pooled_aedt_tasks_def)
  moreover have "tasks_wf (fst ?u)" using Cons.prems(1,3) c by (simp add: pooled_claim_frame(2))
  moreover have "get_allocation (fst ?u) aid = Some a"
    using Cons.prems(2) by (simp add: get_allocation_def pooled_claim_frame(1))
  ultimately show ?case using Cons.IH Cons.prems(3,4) c by simp
qed simp

definition empty_db :: db where
  "empty_db = \<lparr>db_tasks = [], db_task_seq = 0, db_allocations = [], db_allocation_seq = 0, db_settings = [],
     db_events = [], db_aedt = None\<rparr>"

definition plain_task :: "int \<Rightarrow> string \<Rightarrow> task_row" where
  "plain_task i name = task_row_of 0 i (task_create_defaults name) Standalone None"

theorem create_task_fresh_witness:
  "\<exists>d' t. create_task 0 empty_db (task_create_defaults ''a'') = Inr (d', 1)
     \<and> get_task d' 1 = Some t \<and> t_status t = Queued \<and> task_ids_wf d'"
proof -
  let ?tc = "task_create_defaults ''a''"
  let ?d = "empty_db\<lparr>db_tasks := [plain_task 1 ''a''], db_task_seq := 1\<rparr>"
  have run: "create_task 0 empty_db ?tc = Inr (?d, 1)" by code_simp
  have "task_ids_wf empty_db" by (simp add: task_ids_wf_def tasks_wf_def empty_db_def)
  from create_task_fresh [OF this run] run show ?thesis by blast
qed

definition pool_db :: db where
  "pool_db = empty_db
     \<lparr>db_tasks := [(plain_task 1 ''a'')\<lparr>t_aedt_backend := Pooled, t_cpus := 4, t_requested_allocation_id := 7\<rparr>,
                   (plain_task 2 ''b'')\<lparr>t_aedt_backend := Pooled, t_cpus := 4, t_requested_allocation_id := 7\<rparr>],
      db_allocations := [(alloc_row_of 0 7 ''acct'' ''cpu'' ''n1'' 4 8192 0 [] ''cpu'' False [] [])\<lparr>a_state := Warm\<rparr>],
      db_aedt := Some \<lparr>aedt_sessions = [\<lparr>s_id = 3, s_allocation_id = 7, s_generation = 1, s_session_profile = ''p'',
          s_state = ''ready'', s_last_heartbeat_at = At 50, s_quarantine_until = Blank, s_reuse_blocked_at = Blank,
          s_solve_batch_sealed_at = Blank, s_drain_requested_at = Blank\<rparr>],
        aedt_exact_session_reservations =
          map (\<lambda>i. \<lparr>r_id = i, r_task_id = i, r_reservation_key = ''aedt-auto:x'', r_session_id = 3,
             r_session_generation = 1, r_session_profile = ''p'', r_state = ''reserved'', r_expires_at = At 100\<rparr>) [1, 2]\<rparr>\<rparr>"

abbreviation pool_claim_cols :: "task_field list" where
  "pool_claim_cols \<equiv> [t_status_update (\<lambda>_. Attaching), t_allocation_id_update (\<lambda>_. Some 7)]"

theorem pooled_density_bound_witness:
  "active_pooled_aedt_tasks (fold (pooled_claim 7 4)
       [(60, 1, 40, 60, pool_claim_cols), (61, 2, 40, 61, pool_claim_cols)] pool_db) 7 \<le> 1
   \<and> active_pooled_aedt_tasks (fold (pooled_claim 7 4) [(60, 1, 40, 60, pool_claim_cols)] pool_db) 7 = 1"
proof -
  let ?a = "(alloc_row_of 0 7 ''acct'' ''cpu'' ''n1'' 4 8192 0 [] ''cpu'' False [] [])\<lparr>a_state := Warm\<rparr>"
  have "tasks_wf pool_db" "get_allocation pool_db 7 = Some ?a"
    "active_pooled_aedt_tasks pool_db 7 \<le> a_total_cpus ?a div max 1 4" by code_simp+
  note bound = pooled_density_bound [OF this(1,2) _ _ this(3),
      of "[(60, 1, 40, 60, pool_claim_cols), (61, 2, 40, 61, pool_claim_cols)]"]
  moreover have "a_total_cpus ?a div max 1 4 = 1" by code_simp
  moreover have "active_pooled_aedt_tasks (fold (pooled_claim 7 4) [(60, 1, 40, 60, pool_claim_cols)] pool_db) 7 = 1"
    by code_simp
  ultimately show ?thesis by simp
qed

end
