(* ===== verification/Pressure_Episode.thy ===== *)
theory Pressure_Episode
  imports Store
begin

text \<open>
  \<open>Database.claim_fea_pressure_episode\<close> (\<open>db.py\<close>): the durable claim that lets the scheduler reclaim
  at most one FEA task per memory-pressure episode of a node. The function runs in one
  \<open>BEGIN IMMEDIATE\<close> transaction on the setting of the node, so it is one atomic step on the value
  stored under that key: no value, a value that is not a version-1 episode (the timestamp
  watermark of an earlier release, or unreadable text), or the decoded episode. Absent keys of the
  stored dictionary read as \<open>False\<close>, zero, the empty list and a blank timestamp.
\<close>

record episode =
  ep_armed :: bool
  ep_claimed_fingerprints :: "(int \<times> int) list"
  ep_last_observed_at :: stamp
  ep_last_total_memory_mb :: int
  ep_last_free_memory_mb :: int
  ep_last_reclaim_observed_at :: stamp
  ep_last_reclaim_total_memory_mb :: int
  ep_last_reclaim_free_memory_mb :: int

datatype stored_episode = NoValue | LegacyValue | Stored episode

record pressure_sample =
  ps_observed_at :: stamp
  ps_total_memory_mb :: int
  ps_free_memory_mb :: int
  ps_hard_pressure :: bool

definition blank_episode :: episode where
  "blank_episode = \<lparr>ep_armed = False, ep_claimed_fingerprints = [], ep_last_observed_at = Blank,
     ep_last_total_memory_mb = 0, ep_last_free_memory_mb = 0, ep_last_reclaim_observed_at = Blank,
     ep_last_reclaim_total_memory_mb = 0, ep_last_reclaim_free_memory_mb = 0\<rparr>"

definition sample_memory :: "pressure_sample \<Rightarrow> int \<times> int" where
  "sample_memory p = (max 0 (ps_total_memory_mb p), max 0 (ps_free_memory_mb p))"

text \<open>The order guard: a sample that is not strictly newer than the recorded one changes nothing.\<close>

definition sample_out_of_order :: "stored_episode \<Rightarrow> pressure_sample \<Rightarrow> bool" where
  "sample_out_of_order v p =
     (case v of
        Stored ep \<Rightarrow> ep_last_observed_at ep \<noteq> Blank \<and>
          (case (timestamp (ps_observed_at p), timestamp (ep_last_observed_at ep)) of
             (Some incoming, Some stored) \<Rightarrow> incoming \<le> stored
           | _ \<Rightarrow> True)
      | _ \<Rightarrow> False)"

definition note_sample :: "pressure_sample \<Rightarrow> episode \<Rightarrow> episode" where
  "note_sample p ep = ep\<lparr>ep_last_observed_at := ps_observed_at p,
     ep_last_total_memory_mb := fst (sample_memory p), ep_last_free_memory_mb := snd (sample_memory p)\<rparr>"

definition note_reclaim :: "pressure_sample \<Rightarrow> episode \<Rightarrow> episode" where
  "note_reclaim p ep = ep\<lparr>ep_armed := False,
     ep_claimed_fingerprints := sorted_set (sample_memory p # ep_claimed_fingerprints ep),
     ep_last_reclaim_observed_at := ps_observed_at p,
     ep_last_reclaim_total_memory_mb := fst (sample_memory p),
     ep_last_reclaim_free_memory_mb := snd (sample_memory p)\<rparr>"

definition meaningfully_worsened :: "episode \<Rightarrow> pressure_sample \<Rightarrow> bool" where
  "meaningfully_worsened ep p =
     (let (total_mb, free_mb) = sample_memory p in
      total_mb = max 0 (ep_last_reclaim_total_memory_mb ep)
      \<and> free_mb \<le> max 0 (ep_last_reclaim_free_memory_mb ep) - max 1024 (total_mb div 100))"

definition cooldown_elapsed :: "int \<Rightarrow> episode \<Rightarrow> pressure_sample \<Rightarrow> bool" where
  "cooldown_elapsed cooldown_seconds ep p =
     (case (timestamp (ps_observed_at p), timestamp (ep_last_reclaim_observed_at ep)) of
        (Some current, Some previous) \<Rightarrow> seconds (max 0 cooldown_seconds) \<le> current - previous
      | _ \<Rightarrow> False)"

definition claim_fea_pressure_episode ::
  "int \<Rightarrow> stored_episode \<Rightarrow> pressure_sample \<Rightarrow> stored_episode \<times> bool" where
  "claim_fea_pressure_episode cooldown_seconds v p =
     (if sample_out_of_order v p then (v, False)
      else if \<not> ps_hard_pressure p then
        (case v of
           NoValue \<Rightarrow> (v, False)
         | LegacyValue \<Rightarrow> (Stored (note_sample p (blank_episode\<lparr>ep_armed := True\<rparr>)), False)
         | Stored ep \<Rightarrow>
             if ep_armed ep then (v, False)
             else (Stored (note_sample p (ep\<lparr>ep_armed := True, ep_claimed_fingerprints := []\<rparr>)), False))
      else
        (case v of
           LegacyValue \<Rightarrow> (Stored (note_sample p (note_reclaim p blank_episode)), False)
         | NoValue \<Rightarrow> (Stored (note_sample p (note_reclaim p blank_episode)), True)
         | Stored ep \<Rightarrow>
             (let claim = (ep_armed ep
                  \<or> (sample_memory p \<notin> set (ep_claimed_fingerprints ep)
                     \<and> meaningfully_worsened ep p \<and> cooldown_elapsed cooldown_seconds ep p))
              in (Stored (note_sample p (if claim then note_reclaim p ep else ep)), claim))))"

text \<open>A run over a sequence of samples: the stored value and the samples that claimed a reclaim.\<close>

fun pressure_run :: "int \<Rightarrow> stored_episode \<Rightarrow> pressure_sample list \<Rightarrow> stored_episode \<times> pressure_sample list" where
  "pressure_run c v [] = (v, [])"
| "pressure_run c v (p # ps) =
     (let (v', claimed) = claim_fea_pressure_episode c v p; (w, rest) = pressure_run c v' ps in
      (w, if claimed then p # rest else rest))"

section \<open>Lemmas\<close>

lemma sample_memory_nonneg [simp]: "0 \<le> fst (sample_memory p)" "0 \<le> snd (sample_memory p)"
  by (simp_all add: sample_memory_def)

text \<open>What a claim on an episode that is not armed requires.\<close>

lemma unarmed_claim:
  assumes "\<not> ep_armed ep" and "snd (claim_fea_pressure_episode c (Stored ep) p)"
  shows "ps_hard_pressure p" "meaningfully_worsened ep p" "cooldown_elapsed c ep p"
    "sample_memory p \<notin> set (ep_claimed_fingerprints ep)"
  using assms by (auto simp: claim_fea_pressure_episode_def Let_def split: if_splits)

lemma hard_step_unarmed:
  assumes "\<not> ep_armed ep" and "ps_hard_pressure p"
  shows "\<exists>ep'. fst (claim_fea_pressure_episode c (Stored ep) p) = Stored ep' \<and> \<not> ep_armed ep'
    \<and> (if snd (claim_fea_pressure_episode c (Stored ep) p)
       then ep_last_reclaim_free_memory_mb ep' = snd (sample_memory p)
          \<and> ep_last_reclaim_observed_at ep' = ps_observed_at p
       else ep_last_reclaim_free_memory_mb ep' = ep_last_reclaim_free_memory_mb ep
          \<and> ep_last_reclaim_observed_at ep' = ep_last_reclaim_observed_at ep)"
  using assms
  by (auto simp: claim_fea_pressure_episode_def Let_def note_sample_def note_reclaim_def)

lemma worsened_drop:
  assumes "meaningfully_worsened ep p"
  shows "snd (sample_memory p) div 1024 + 1 \<le> max 0 (ep_last_reclaim_free_memory_mb ep) div 1024"
proof -
  have "snd (sample_memory p) + 1024 \<le> max 0 (ep_last_reclaim_free_memory_mb ep)"
    using assms by (auto simp: meaningfully_worsened_def Let_def split: prod.splits)
  then have "(snd (sample_memory p) + 1024) div 1024 \<le> max 0 (ep_last_reclaim_free_memory_mb ep) div 1024"
    by (rule zdiv_mono1) simp
  then show ?thesis by simp
qed

lemma unarmed_run_bound:
  assumes "\<not> ep_armed ep" and "\<forall>p \<in> set ps. ps_hard_pressure p"
  shows "int (length (snd (pressure_run c (Stored ep) ps))) \<le> max 0 (ep_last_reclaim_free_memory_mb ep) div 1024"
  using assms
proof (induction ps arbitrary: ep)
  case (Cons p ps)
  from Cons.prems obtain ep' where step: "fst (claim_fea_pressure_episode c (Stored ep) p) = Stored ep'"
    "\<not> ep_armed ep'"
    "if snd (claim_fea_pressure_episode c (Stored ep) p)
     then ep_last_reclaim_free_memory_mb ep' = snd (sample_memory p)
     else ep_last_reclaim_free_memory_mb ep' = ep_last_reclaim_free_memory_mb ep"
    using hard_step_unarmed [of ep p c] by auto
  have rest: "int (length (snd (pressure_run c (Stored ep') ps))) \<le> max 0 (ep_last_reclaim_free_memory_mb ep') div 1024"
    using Cons.IH [OF step(2)] Cons.prems by simp
  show ?case
  proof (cases "snd (claim_fea_pressure_episode c (Stored ep) p)")
    case True
    then have "ep_last_reclaim_free_memory_mb ep' = snd (sample_memory p)" using step(3) by simp
    moreover have "snd (sample_memory p) div 1024 + 1 \<le> max 0 (ep_last_reclaim_free_memory_mb ep) div 1024"
      using unarmed_claim(2) [OF Cons.prems(1) True] by (rule worsened_drop)
    ultimately show ?thesis using rest True step(1)
      by (simp add: split_def Let_def max_absorb2)
  next
    case False
    then show ?thesis using rest step(1,3) by (simp add: split_def Let_def)
  qed
qed (simp add: pos_imp_zdiv_nonneg_iff)

text \<open>C32. Bounded reclaim: as long as no healthy sample is seen, the number of reclaims that a
  node's memory pressure can authorise is finite however many samples arrive and whatever their
  timestamps are: after a reclaim at \<open>f\<close> MB of free memory at most \<open>f div 1024\<close> more follow.\<close>

theorem pressure_episode_bounded:
  assumes "\<forall>p \<in> set (q # ps). ps_hard_pressure p" and "claim_fea_pressure_episode c v q = (v', True)"
  shows "int (length (snd (pressure_run c v (q # ps)))) \<le> 1 + snd (sample_memory q) div 1024"
proof -
  obtain ep where ep: "v' = Stored ep" "\<not> ep_armed ep" "ep_last_reclaim_free_memory_mb ep = snd (sample_memory q)"
    using assms(2)
    by (auto simp: claim_fea_pressure_episode_def Let_def note_sample_def note_reclaim_def
        split: if_splits stored_episode.splits)
  then show ?thesis using unarmed_run_bound [of ep ps c] assms by (simp add: max_absorb2 split_def Let_def)
qed

text \<open>Reclaims of one episode are apart: if an unarmed episode authorises a reclaim, the node's
  total memory is unchanged, its free memory fell by at least 1 GB and by one percent of the total
  since the last reclaim, the memory reading was never reclaimed for in this episode, and the
  sample was taken at least the cooldown after the last reclaim's sample.\<close>

theorem pressure_reclaim_apart:
  assumes "\<not> ep_armed ep" and "claim_fea_pressure_episode c (Stored ep) p = (v', True)"
  shows "\<exists>current previous. ps_observed_at p = At current \<and> ep_last_reclaim_observed_at ep = At previous
    \<and> seconds (max 0 c) \<le> current - previous
    \<and> snd (sample_memory p) + 1024 \<le> max 0 (ep_last_reclaim_free_memory_mb ep)
    \<and> snd (sample_memory p) + fst (sample_memory p) div 100 \<le> max 0 (ep_last_reclaim_free_memory_mb ep)
    \<and> fst (sample_memory p) = max 0 (ep_last_reclaim_total_memory_mb ep)
    \<and> sample_memory p \<notin> set (ep_claimed_fingerprints ep)"
proof -
  have won: "snd (claim_fea_pressure_episode c (Stored ep) p)" using assms(2) by simp
  have "\<exists>current previous. ps_observed_at p = At current \<and> ep_last_reclaim_observed_at ep = At previous
      \<and> seconds (max 0 c) \<le> current - previous"
    using unarmed_claim(3) [OF assms(1) won]
    by (cases "ps_observed_at p"; cases "ep_last_reclaim_observed_at ep") (auto simp: cooldown_elapsed_def)
  moreover have "snd (sample_memory p) + 1024 \<le> max 0 (ep_last_reclaim_free_memory_mb ep)"
    "snd (sample_memory p) + fst (sample_memory p) div 100 \<le> max 0 (ep_last_reclaim_free_memory_mb ep)"
    "fst (sample_memory p) = max 0 (ep_last_reclaim_total_memory_mb ep)"
    using unarmed_claim(2) [OF assms(1) won]
    by (auto simp: meaningfully_worsened_def Let_def split: prod.splits)
  ultimately show ?thesis using unarmed_claim(4) [OF assms(1) won] by blast
qed

text \<open>Observation order and upgrade safety: a sample that is not newer than the recorded one
  (or whose time cannot be compared) neither claims nor changes the episode, and a value left by
  an earlier release never authorises a reclaim by itself: neither its migration nor a second
  identical reading does.\<close>

theorem pressure_order_and_migration:
  "(sample_out_of_order v p \<longrightarrow> claim_fea_pressure_episode c v p = (v, False))
   \<and> snd (pressure_run c LegacyValue [p]) = []
   \<and> (ps_hard_pressure p \<and> sample_memory q = sample_memory p \<longrightarrow> snd (pressure_run c LegacyValue [p, q]) = [])"
proof -
  have "snd (claim_fea_pressure_episode c LegacyValue p) = False"
    by (auto simp: claim_fea_pressure_episode_def)
  moreover have "\<not> snd (claim_fea_pressure_episode c (fst (claim_fea_pressure_episode c LegacyValue p)) q)"
    if "ps_hard_pressure p" "sample_memory q = sample_memory p"
    using that
    by (simp add: claim_fea_pressure_episode_def sample_out_of_order_def note_sample_def note_reclaim_def
        blank_episode_def Let_def)
  ultimately show ?thesis
    by (auto simp: claim_fea_pressure_episode_def split_def Let_def)
qed

section \<open>Witnesses\<close>

definition pressure_at :: "int \<Rightarrow> int \<Rightarrow> bool \<Rightarrow> pressure_sample" where
  "pressure_at t free hard = \<lparr>ps_observed_at = At (seconds t), ps_total_memory_mb = 65536,
     ps_free_memory_mb = free, ps_hard_pressure = hard\<rparr>"

theorem pressure_episode_bounded_witness:
  "length (snd (pressure_run 300 NoValue [pressure_at 0 4000 True, pressure_at 400 2000 True, pressure_at 401 100 True])) = 2
   \<and> int (length (snd (pressure_run 300 NoValue
       [pressure_at 0 4000 True, pressure_at 400 2000 True, pressure_at 401 100 True]))) \<le> 1 + 4000 div 1024"
proof -
  have claim: "claim_fea_pressure_episode 300 NoValue (pressure_at 0 4000 True)
      = (fst (claim_fea_pressure_episode 300 NoValue (pressure_at 0 4000 True)), True)" by code_simp
  have "int (length (snd (pressure_run 300 NoValue
       [pressure_at 0 4000 True, pressure_at 400 2000 True, pressure_at 401 100 True])))
     \<le> 1 + snd (sample_memory (pressure_at 0 4000 True)) div 1024"
    by (rule pressure_episode_bounded [OF _ claim]) (simp add: pressure_at_def)
  moreover have "snd (sample_memory (pressure_at 0 4000 True)) = 4000" by code_simp
  moreover have "length (snd (pressure_run 300 NoValue
      [pressure_at 0 4000 True, pressure_at 400 2000 True, pressure_at 401 100 True])) = 2" by code_simp
  ultimately show ?thesis by simp
qed

definition reclaimed_episode :: episode where
  "reclaimed_episode = note_sample (pressure_at 0 4000 True) (note_reclaim (pressure_at 0 4000 True) blank_episode)"

theorem pressure_reclaim_apart_witness:
  "\<not> ep_armed reclaimed_episode \<and> snd (claim_fea_pressure_episode 300 (Stored reclaimed_episode) (pressure_at 400 2000 True))
   \<and> sample_memory (pressure_at 400 2000 True) \<notin> set (ep_claimed_fingerprints reclaimed_episode)"
proof -
  have a: "\<not> ep_armed reclaimed_episode" by code_simp
  have c: "snd (claim_fea_pressure_episode 300 (Stored reclaimed_episode) (pressure_at 400 2000 True))" by code_simp
  then have "claim_fea_pressure_episode 300 (Stored reclaimed_episode) (pressure_at 400 2000 True)
      = (fst (claim_fea_pressure_episode 300 (Stored reclaimed_episode) (pressure_at 400 2000 True)), True)"
    by (metis prod.collapse)
  from pressure_reclaim_apart [OF a this] a c show ?thesis by blast
qed

theorem pressure_order_and_migration_witness:
  "claim_fea_pressure_episode 300 (Stored reclaimed_episode) (pressure_at 0 10 True) = (Stored reclaimed_episode, False)
   \<and> snd (pressure_run 300 LegacyValue [pressure_at 0 4000 True, pressure_at 900 4000 True]) = []"
proof -
  have "sample_out_of_order (Stored reclaimed_episode) (pressure_at 0 10 True)" by code_simp
  moreover have "ps_hard_pressure (pressure_at 0 4000 True)"
    "sample_memory (pressure_at 900 4000 True) = sample_memory (pressure_at 0 4000 True)" by code_simp+
  ultimately show ?thesis
    using pressure_order_and_migration [of "Stored reclaimed_episode" "pressure_at 0 10 True" 300]
      pressure_order_and_migration [of NoValue "pressure_at 0 4000 True" 300 "pressure_at 900 4000 True"] by blast
qed

end
