(* ===== verification/Task_Kind.thy ===== *)
theory Task_Kind
  imports Store
begin

text \<open>
  The classifiers of task and allocation rows in \<open>scheduler.py\<close> that every scheduling decision
  starts from (scheduling profile, AEDT backend, node policy, placement requests, allocation
  ownership), the standalone-AEDT running caps, and the part of the scheduler's configuration they
  read. The configuration record holds the values \<open>Scheduler.__init__\<close> stores, after its
  clamping.
\<close>

section \<open>Configuration\<close>

record aedt_lane =
  lane_name :: string
  lane_project :: string
  lane_name_prefix :: string
  lane_aedt_backend :: string
  lane_max_running :: int

record sched_config =
  poll_interval_seconds :: int
  allocation_drain_after_seconds :: int
  allocation_force_cancel_after_seconds :: int
  allocation_attach_stop_before_drain_seconds :: int
  allocation_pending_timeout_seconds :: int
  allocation_pending_backoff_seconds :: int
  allocation_scale_in_idle_seconds :: int
  min_warm_allocations :: int
  gpu_prewarm_enabled :: bool
  gpu_prewarm_min_warm_allocations :: int
  gpu_prewarm_pinned_pending_timeout_seconds :: int
  gpu_prewarm_gpus_per_allocation :: int
  gpu_prewarm_cpu_reserve_per_free_gpu :: int
  cpu_partition_allocation_limits :: "(string \<times> int) list"
  fea_node_name_policy :: node_name_policy
  fea_max_attach_per_loop :: int
  standalone_aedt_max_running_by_project :: "(string \<times> int) list"
  standalone_aedt_running_lanes :: "aedt_lane list"
  config_accounts :: "string list"

text \<open>
  The lane table of the constructor: every lane names a project, a prefix and the standalone
  backend, and a lane whose scope overlaps an earlier one is rejected. A raw lane is its name with
  the fields of its mapping (\<open>None\<close> where the key is absent); \<open>max_running\<close> is \<open>None\<close> unless it
  is an \<open>int\<close> that is not a \<open>bool\<close>.
\<close>

record raw_lane =
  raw_project :: "string option"
  raw_name_prefix :: "string option"
  raw_aedt_backend :: "string option"
  raw_max_running :: "int option"

definition text_or_empty :: "string option \<Rightarrow> string" where
  "text_or_empty v = (case v of None \<Rightarrow> [] | Some s \<Rightarrow> s)"

definition lane_overlaps :: "aedt_lane \<Rightarrow> aedt_lane \<Rightarrow> bool" where
  "lane_overlaps l m = (lane_project l = lane_project m \<and> lane_aedt_backend l = lane_aedt_backend m
     \<and> (startswith (lane_name_prefix l) (lane_name_prefix m)
        \<or> startswith (lane_name_prefix m) (lane_name_prefix l)))"

fun parse_lanes :: "aedt_lane list \<Rightarrow> (string \<times> raw_lane) list \<Rightarrow> aedt_lane list result" where
  "parse_lanes accepted [] = Inr accepted"
| "parse_lanes accepted ((raw_name, raw) # rest) =
     (let name = strip raw_name;
          project = strip (text_or_empty (raw_project raw));
          prefix = strip (text_or_empty (raw_name_prefix raw));
          backend0 = text_or_empty (raw_aedt_backend raw);
          backend = lower (strip (if backend0 = [] then ''standalone'' else backend0))
      in if name = [] then Inl (ValueError ''lane name'')
         else if project = [] \<or> prefix = [] \<or> backend \<noteq> ''standalone'' then Inl (ValueError ''lane scope'')
         else (case raw_max_running raw of
             None \<Rightarrow> Inl (ValueError ''lane limit'')
           | Some limit \<Rightarrow>
               if limit \<le> 0 then Inl (ValueError ''lane limit'')
               else (let lane = \<lparr>lane_name = name, lane_project = project, lane_name_prefix = prefix,
                               lane_aedt_backend = backend, lane_max_running = limit\<rparr>
                     in if list_ex (lane_overlaps lane) accepted then Inl (ValueError ''lane overlap'')
                        else parse_lanes (accepted @ [lane]) rest)))"

section \<open>Task classifiers\<close>

definition task_requires_gpu :: "task_row \<Rightarrow> bool" where
  [task_predicates]: "task_requires_gpu t = (0 < t_gpus t)"

definition task_scheduling_profile :: "task_row \<Rightarrow> scheduling_profile" where
  "task_scheduling_profile t = normalize_scheduling_profile (Some (t_scheduling_profile t))"

definition task_is_fea_bursty :: "task_row \<Rightarrow> bool" where
  "task_is_fea_bursty t = (task_scheduling_profile t = FeaBursty)"

definition task_aedt_backend :: "task_row \<Rightarrow> aedt_backend" where
  [task_predicates]: "task_aedt_backend t = t_aedt_backend t"

definition task_is_fea_infra :: "task_row \<Rightarrow> bool" where
  "task_is_fea_infra t = (strip (t_project t) = ''_aedt_pool_hosts'')"

definition task_requested_account_name :: "task_row \<Rightarrow> string" where
  "task_requested_account_name t = (case t_requested_account_name t of
     Some a \<Rightarrow> a | None \<Rightarrow> t_account_name t)"

definition task_requested_allocation_id :: "task_row \<Rightarrow> int" where
  [task_predicates]: "task_requested_allocation_id t = max 0 (t_requested_allocation_id t)"

definition same_node_as_task_id :: "task_row \<Rightarrow> int" where
  [task_predicates]: "same_node_as_task_id t = max 0 (t_same_node_as_task_id t)"

definition explicit_task_node_name_policy :: "task_row \<Rightarrow> node_name_policy option" where
  "explicit_task_node_name_policy t =
     (case normalize_node_name_policy (Some (t_node_name_policy t)) of
        Inl _ \<Rightarrow> Some Strict
      | Inr p \<Rightarrow> p)"

definition task_node_name_policy :: "sched_config \<Rightarrow> task_row \<Rightarrow> node_name_policy option" where
  "task_node_name_policy cfg t =
     (case explicit_task_node_name_policy t of
        Some p \<Rightarrow> Some p
      | None \<Rightarrow> if task_is_fea_bursty t then Some (fea_node_name_policy cfg)
               else if strip (t_node_name t) \<noteq> [] then Some Strict else None)"

definition task_has_strict_node_contract :: "task_row \<Rightarrow> bool" where
  "task_has_strict_node_contract t = (explicit_task_node_name_policy t = Some Strict)"

definition strict_task_node_name :: "task_row \<Rightarrow> string" where
  "strict_task_node_name t = (if task_has_strict_node_contract t then strip (t_node_name t) else [])"

definition task_can_relax_preferred_node :: "sched_config \<Rightarrow> task_row \<Rightarrow> bool" where
  "task_can_relax_preferred_node cfg t =
     (task_node_name_policy cfg t = Some Preferred \<and> task_is_fea_bursty t
      \<and> strip (t_node_name t) \<noteq> [] \<and> t_same_node_as_task_id t = 0
      \<and> task_requested_allocation_id t = 0 \<and> \<not> task_requires_gpu t \<and> \<not> t_exclusive_node t)"

definition relaxed_preferred_node_task :: "sched_config \<Rightarrow> task_row \<Rightarrow> task_row" where
  "relaxed_preferred_node_task cfg t =
     (if task_can_relax_preferred_node cfg t then t\<lparr>t_node_name := []\<rparr> else t)"

definition effective_task_variants :: "sched_config \<Rightarrow> task_row \<Rightarrow> (task_row \<times> bool) list" where
  "effective_task_variants cfg t =
     (t, False) # (if task_can_relax_preferred_node cfg t
                   then [(relaxed_preferred_node_task cfg t, True)] else [])"

definition task_allocation_profile :: "task_row \<Rightarrow> string" where
  "task_allocation_profile t = (if task_is_fea_bursty t then ''fea'' else ''standard'')"

section \<open>Allocation classifiers\<close>

definition allocation_is_dedicated_aedt_pool :: "alloc_row \<Rightarrow> bool" where
  "allocation_is_dedicated_aedt_pool a = startswith (a_drain_reason a) ''AEDT pool''"

definition allocation_demand_profile :: "alloc_row \<Rightarrow> string" where
  "allocation_demand_profile a = (if startswith (a_drain_reason a) ''queued FEA '' then ''fea'' else [])"

definition allocation_has_gpu_pool :: "alloc_row \<Rightarrow> bool" where
  "allocation_has_gpu_pool a = (0 < a_total_gpus a \<or> startswith (a_resource_pool a) ''gpu:'')"

definition protected_gpu_warm_pool :: "alloc_row \<Rightarrow> bool" where
  "protected_gpu_warm_pool a = (startswith (a_resource_pool a) ''gpu:''
     \<and> contains ''warm pool'' (lower (a_drain_reason a)))"

definition resource_pool_or_cpu :: "alloc_row \<Rightarrow> string" where
  "resource_pool_or_cpu a = (if a_resource_pool a = [] then ''cpu'' else a_resource_pool a)"

definition pending_reason_is_priority :: "string \<Rightarrow> bool" where
  "pending_reason_is_priority r = (lower (strip r) \<in> {''priority'', ''(priority)''})"

definition task_can_share_dedicated_aedt_pool :: "db \<Rightarrow> alloc_row \<Rightarrow> task_row \<Rightarrow> bool" where
  "task_can_share_dedicated_aedt_pool d a t =
     (0 < a_id a \<and> task_requested_allocation_id t = a_id a
      \<and> (task_is_fea_infra t
         \<or> (0 < t_id t \<and> task_aedt_backend t = Pooled \<and> task_has_auto_aedt_reservation d (t_id t))))"

definition task_uses_reserved_aedt_pool_capacity :: "db \<Rightarrow> alloc_row \<Rightarrow> task_row \<Rightarrow> bool" where
  "task_uses_reserved_aedt_pool_capacity d a t =
     (allocation_is_dedicated_aedt_pool a \<and> task_can_share_dedicated_aedt_pool d a t)"

text \<open>\<open>partition_spec_names\<close>, \<open>partition_spec_allows\<close> and \<open>requested_accounts\<close>.\<close>

definition partition_spec_names :: "string \<Rightarrow> string list" where
  "partition_spec_names spec = filter (\<lambda>w. w \<noteq> []) (map strip (split_on (CHR '','') spec))"

definition partition_spec_allows :: "string \<Rightarrow> string \<Rightarrow> bool" where
  "partition_spec_allows spec partition0 =
     (let names = partition_spec_names spec in names = [] \<or> partition0 \<in> set names)"

definition account_separator :: "char \<Rightarrow> bool" where
  "account_separator c = (py_space c \<or> c \<in> set '',;/|'')"

definition requested_accounts :: "string \<Rightarrow> string list" where
  "requested_accounts s = filter (\<lambda>w. w \<noteq> []) (map strip (split_by account_separator s))"

section \<open>Standalone AEDT running caps\<close>

record cap_details =
  cap_active :: int
  cap_limit :: int
  cap_lane :: string

definition lane_matches :: "task_row \<Rightarrow> aedt_lane \<Rightarrow> bool" where
  "lane_matches t l = (strip (t_project t) = lane_project l
     \<and> backend_value (task_aedt_backend t) = lane_aedt_backend l
     \<and> startswith (t_name t) (lane_name_prefix l))"

definition standalone_aedt_running_cap_details :: "sched_config \<Rightarrow> db \<Rightarrow> task_row \<Rightarrow> cap_details" where
  "standalone_aedt_running_cap_details cfg d t =
     (let project = strip (t_project t);
          none = \<lparr>cap_active = 0, cap_limit = 0, cap_lane = []\<rparr> in
      if project = [] \<or> task_is_fea_infra t \<or> \<not> task_is_fea_bursty t \<or> task_aedt_backend t \<noteq> Standalone
      then none
      else (case find (lane_matches t) (standalone_aedt_running_lanes cfg) of
          Some l \<Rightarrow> \<lparr>cap_active = count_active_standalone_fea_tasks_by_scope d project (lane_name_prefix l),
                     cap_limit = lane_max_running l, cap_lane = lane_name l\<rparr>
        | None \<Rightarrow>
            (let limit = dict_get (standalone_aedt_max_running_by_project cfg) project 0 in
             if limit \<le> 0 then none
             else \<lparr>cap_active = count_active_standalone_fea_tasks_by_scope d project [],
                    cap_limit = limit, cap_lane = []\<rparr>)))"

definition standalone_aedt_running_cap_reached :: "sched_config \<Rightarrow> db \<Rightarrow> task_row \<Rightarrow> bool" where
  "standalone_aedt_running_cap_reached cfg d t =
     (let c = standalone_aedt_running_cap_details cfg d t in 0 < cap_limit c \<and> cap_limit c \<le> cap_active c)"

section \<open>Lemmas\<close>

lemma variants_first: "fst (hd (effective_task_variants cfg t)) = t"
  by (simp add: effective_task_variants_def)

text \<open>A relaxed variant differs from the task in its node name only.\<close>

lemma variants_cases:
  "(v, r) \<in> set (effective_task_variants cfg t) \<Longrightarrow> v = t \<or> v = t\<lparr>t_node_name := []\<rparr>"
  by (auto simp: effective_task_variants_def relaxed_preferred_node_task_def split: if_splits)

lemma variants_strict:
  "task_has_strict_node_contract t \<Longrightarrow> effective_task_variants cfg t = [(t, False)]"
  by (simp add: effective_task_variants_def task_can_relax_preferred_node_def
      task_node_name_policy_def task_has_strict_node_contract_def)

lemma relaxed_fields [simp]:
  "t_id (relaxed_preferred_node_task cfg t) = t_id t"
  "t_cpus (relaxed_preferred_node_task cfg t) = t_cpus t"
  "t_memory_mb (relaxed_preferred_node_task cfg t) = t_memory_mb t"
  "t_gpus (relaxed_preferred_node_task cfg t) = t_gpus t"
  by (simp_all add: relaxed_preferred_node_task_def)

lemma task_is_fea_bursty_node [simp]: "task_is_fea_bursty (t\<lparr>t_node_name := n\<rparr>) = task_is_fea_bursty t"
  by (simp add: task_is_fea_bursty_def task_scheduling_profile_def)

lemma task_is_fea_bursty_status [simp]: "task_is_fea_bursty (t\<lparr>t_status := s\<rparr>) = task_is_fea_bursty t"
  by (simp add: task_is_fea_bursty_def task_scheduling_profile_def)

lemma demand_profile_cases: "allocation_demand_profile a = [] \<or> allocation_demand_profile a = ''fea''"
  by (simp add: allocation_demand_profile_def)

text \<open>Accepted lanes are pairwise disjoint.\<close>

definition lanes_disjoint :: "aedt_lane list \<Rightarrow> bool" where
  "lanes_disjoint ls = sorted_wrt (\<lambda>l m. \<not> lane_overlaps m l) ls"

lemma parse_lanes_disjoint:
  "parse_lanes acc raw = Inr ls \<Longrightarrow> lanes_disjoint acc \<Longrightarrow> lanes_disjoint ls"
proof (induction acc raw rule: parse_lanes.induct)
  case (2 accepted raw_name raw rest)
  then show ?case
    by (auto simp: Let_def lanes_disjoint_def sorted_wrt_append list_ex_iff split: if_splits option.splits)
qed (simp add: lanes_disjoint_def)

lemma lane_matches_overlap: "lane_matches t l \<Longrightarrow> lane_matches t m \<Longrightarrow> lane_overlaps m l"
proof -
  assume "lane_matches t l" "lane_matches t m"
  then have eq: "lane_project l = lane_project m" "lane_aedt_backend l = lane_aedt_backend m"
    and p: "take (length (lane_name_prefix l)) (t_name t) = lane_name_prefix l"
      "take (length (lane_name_prefix m)) (t_name t) = lane_name_prefix m"
    by (auto simp: lane_matches_def startswith_def)
  have "startswith (lane_name_prefix m) (lane_name_prefix l) \<or> startswith (lane_name_prefix l) (lane_name_prefix m)"
    unfolding startswith_def
    using p by (metis min.cobounded1 min_absorb1 nle_le take_take)
  with eq show ?thesis by (simp add: lane_overlaps_def)
qed

lemma lanes_match_unique:
  assumes "lanes_disjoint ls"
  shows "length (filter (lane_matches t) ls) \<le> 1"
proof (cases "filter (lane_matches t) ls" rule: remdups_adj.cases)
  case (3 l m rest)
  have "sorted_wrt (\<lambda>l m. \<not> lane_overlaps m l) (filter (lane_matches t) ls)"
    using assms sorted_wrt_filter by (auto simp: lanes_disjoint_def)
  then have "\<not> lane_overlaps m l" by (simp add: 3)
  moreover have "l \<in> set (filter (lane_matches t) ls)" "m \<in> set (filter (lane_matches t) ls)"
    by (simp_all add: 3)
  then have "lane_matches t l" "lane_matches t m" by auto
  ultimately show ?thesis using lane_matches_overlap by blast
qed simp_all

end
