(* ===== verification/Fair_Queue.thy ===== *)
theory Fair_Queue
  imports Task_Kind
begin

text \<open>
  The two fairness mechanisms of \<open>scheduler.py\<close>: \<open>project_fair_queue_order\<close> (round-robin across the
  projects of one priority, FIFO within a project, resumed after the last claimed project) and
  \<open>tasks_to_refresh\<close> (the bounded, rotating choice of live tasks to probe in one tick).
\<close>

section \<open>Project-fair queue order\<close>

text \<open>One pass over the queues pops the head of each; queues that still hold tasks take part in the
  next pass.\<close>

function round_robin :: "('k \<times> 'a list) list \<Rightarrow> 'a list" where
  "round_robin queues =
     (let live = filter (\<lambda>kq. snd kq \<noteq> []) queues in
      if live = [] then []
      else map (\<lambda>kq. hd (snd kq)) live @ round_robin (map (\<lambda>kq. (fst kq, tl (snd kq))) live))"
  by pat_completeness auto

lemma sum_tl_less:
  "live \<noteq> [] \<Longrightarrow> \<forall>kq \<in> set live. snd kq \<noteq> [] \<Longrightarrow>
     sum_list (map (\<lambda>kq. length (tl (snd kq))) live) < sum_list (map (\<lambda>kq. length (snd kq)) live)"
proof (induction live)
  case (Cons kq live)
  then show ?case by (cases "live = []"; cases "snd kq") auto
qed simp

termination round_robin
proof (relation "measure (\<lambda>queues. sum_list (map (\<lambda>kq. length (snd kq)) queues))", goal_cases)
  case (2 queues live)
  have "sum_list (map (\<lambda>kq. length (tl (snd kq))) live) < sum_list (map (\<lambda>kq. length (snd kq)) live)"
    using 2 by (intro sum_tl_less) auto
  also have "\<dots> \<le> sum_list (map (\<lambda>kq. length (snd kq)) queues)"
    unfolding 2 by (induction queues) auto
  finally show ?case by (simp add: comp_def)
qed simp

declare round_robin.simps [simp del]

definition bisect_right :: "string list \<Rightarrow> string \<Rightarrow> nat" where
  "bisect_right xs x = length (takeWhile (\<lambda>y. y \<le> x) xs)"

definition rotate_projects :: "string list \<Rightarrow> string option \<Rightarrow> string list" where
  "rotate_projects projects last_claim =
     (case last_claim of None \<Rightarrow> projects
      | Some p \<Rightarrow> drop (bisect_right projects p) projects @ take (bisect_right projects p) projects)"

definition priority_class :: "task_row list \<Rightarrow> int \<Rightarrow> task_row list" where
  "priority_class tasks pr = filter (\<lambda>t. t_priority t = pr) (sort_key (\<lambda>t. (- t_priority t, t_id t)) tasks)"

definition class_order :: "task_row list \<Rightarrow> (int \<times> string) list \<Rightarrow> int \<Rightarrow> task_row list" where
  "class_order tasks last_claim_by_priority pr =
     (let cls = priority_class tasks pr;
          projects = rotate_projects (sorted_set (map t_project cls)) (map_of last_claim_by_priority pr) in
      round_robin (map (\<lambda>p. (p, filter (\<lambda>t. t_project t = p) cls)) projects))"

definition project_fair_queue_order :: "task_row list \<Rightarrow> (int \<times> string) list \<Rightarrow> task_row list" where
  "project_fair_queue_order tasks last_claim_by_priority =
     concat (map (class_order tasks last_claim_by_priority) (rev (sorted_set (map t_priority tasks))))"

definition persist_fea_project_claim :: "task_row \<Rightarrow> (int \<times> string) list \<Rightarrow> (int \<times> string) list" where
  "persist_fea_project_claim t last_claim = AList.update (t_priority t) (t_project t) last_claim"

section \<open>Round robin\<close>

definition queues_wf :: "('a \<Rightarrow> 'k) \<Rightarrow> ('k \<times> 'a list) list \<Rightarrow> bool" where
  "queues_wf key queues = (distinct (map fst queues) \<and> (\<forall>kq \<in> set queues. \<forall>x \<in> set (snd kq). key x = fst kq))"

definition queue_of :: "('k \<times> 'a list) list \<Rightarrow> 'k \<Rightarrow> 'a list" where
  "queue_of queues k = dict_get queues k []"

lemma queues_wf_tl:
  assumes "queues_wf key queues"
  shows "queues_wf key (map (\<lambda>kq. (fst kq, tl (snd kq))) (filter (\<lambda>kq. snd kq \<noteq> []) queues))"
  using assms
  by (auto simp: queues_wf_def comp_def distinct_map inj_on_def dest!: list.set_sel(2) [rotated])

lemma queue_of_tl:
  assumes "distinct (map fst queues)"
  shows "queue_of (map (\<lambda>kq. (fst kq, tl (snd kq))) (filter (\<lambda>kq. snd kq \<noteq> []) queues)) k = tl (queue_of queues k)"
  using assms
proof (induction queues)
  case (Cons x queues)
  have "map_of (map (\<lambda>kq. (fst kq, tl (snd kq))) (filter (\<lambda>kq. snd kq \<noteq> []) queues)) (fst x) = None"
    using Cons.prems by (auto simp: map_of_eq_None_iff rev_image_eqI)
  with Cons show ?case by (cases x) (auto simp: queue_of_def)
qed (simp add: queue_of_def)

lemma heads_filter:
  assumes "queues_wf key queues"
  shows "filter (\<lambda>x. key x = k) (map (\<lambda>kq. hd (snd kq)) (filter (\<lambda>kq. snd kq \<noteq> []) queues)) = take 1 (queue_of queues k)"
  using assms
proof (induction queues)
  case (Cons x queues)
  obtain j q where x: "x = (j, q)" by (cases x)
  have "queue_of queues j = []" if "queues_wf key (x # queues)"
  proof -
    have "j \<notin> fst ` set queues" using that x by (auto simp: queues_wf_def)
    then have "map_of queues j = None" by (simp add: map_of_eq_None_iff)
    then show ?thesis by (simp add: queue_of_def)
  qed
  moreover have "q \<noteq> [] \<Longrightarrow> key (hd q) = j" using Cons.prems by (auto simp: queues_wf_def x)
  moreover have "queues_wf key queues" using Cons.prems by (auto simp: queues_wf_def)
  ultimately show ?case using Cons by (auto simp: x queue_of_def take_Suc)
qed (simp add: queue_of_def)

text \<open>Within a queue the order is kept.\<close>

lemma round_robin_filter:
  "queues_wf key queues \<Longrightarrow> filter (\<lambda>x. key x = k) (round_robin queues) = queue_of queues k"
proof (induction queues rule: round_robin.induct)
  case (1 queues)
  let ?live = "filter (\<lambda>kq. snd kq \<noteq> []) queues"
  have d: "distinct (map fst queues)" using "1.prems" by (simp add: queues_wf_def)
  show ?case
  proof (cases "?live = []")
    case True
    then have "queue_of queues k = []"
      by (auto simp: queue_of_def filter_empty_conv split: option.splits dest!: map_of_SomeD)
    then show ?thesis using True by (subst round_robin.simps) simp
  next
    case False
    have "round_robin queues = map (\<lambda>kq. hd (snd kq)) ?live @ round_robin (map (\<lambda>kq. (fst kq, tl (snd kq))) ?live)"
      using False by (subst round_robin.simps) (simp add: Let_def)
    moreover have "filter (\<lambda>x. key x = k) (round_robin (map (\<lambda>kq. (fst kq, tl (snd kq))) ?live)) = tl (queue_of queues k)"
      using "1.IH" [OF refl False] queues_wf_tl [OF "1.prems"] queue_of_tl [OF d] by simp
    ultimately show ?thesis
      using heads_filter [OF "1.prems", of k]
      by (cases "queue_of queues k") simp_all
  qed
qed

lemma mset_of_filters:
  assumes "\<And>k. mset (filter (\<lambda>x. key x = k) xs) = mset (filter (\<lambda>x. key x = k) ys)"
  shows "mset xs = mset ys"
proof (rule multiset_eqI)
  fix x
  have "count (mset zs) x = count (mset (filter (\<lambda>y. key y = key x) zs)) x" for zs
    by simp
  then show "count (mset xs) x = count (mset ys) x" using assms by metis
qed

lemma round_robin_fair:
  assumes "queues_wf key queues"
    and "length (filter (\<lambda>x. key x = q) (take n (round_robin queues))) < length (queue_of queues q)"
  shows "length (filter (\<lambda>x. key x = p) (take n (round_robin queues)))
    \<le> length (filter (\<lambda>x. key x = q) (take n (round_robin queues))) + 1"
  using assms
proof (induction queues arbitrary: n rule: round_robin.induct)
  case (1 queues)
  let ?live = "filter (\<lambda>kq. snd kq \<noteq> []) queues"
  let ?heads = "map (\<lambda>kq. hd (snd kq)) ?live"
  let ?rest = "map (\<lambda>kq. (fst kq, tl (snd kq))) ?live"
  have d: "distinct (map fst queues)" using "1.prems" by (simp add: queues_wf_def)
  have one: "length (filter (\<lambda>x. key x = k) ?heads) = min 1 (length (queue_of queues k))" for k
    using heads_filter [OF "1.prems"(1), of k] by simp
  have some: "queue_of queues q \<noteq> []" using "1.prems"(2) by auto
  then have False': "?live \<noteq> []"
    by (force simp: queue_of_def filter_empty_conv split: option.splits dest!: map_of_SomeD)
  have unfold: "round_robin queues = ?heads @ round_robin ?rest"
    using False' by (subst round_robin.simps) (simp add: Let_def)
  show ?case
  proof (cases "n \<le> length ?heads")
    case True
    have "length (filter (\<lambda>x. key x = p) (take n ?heads)) \<le> length (filter (\<lambda>x. key x = p) ?heads)"
      by (metis append_take_drop_id filter_append le_add1 length_append)
    then show ?thesis using one [of p] True by (simp add: unfold)
  next
    case False
    let ?m = "n - length ?heads"
    have split: "length (filter (\<lambda>x. key x = k) (take n (round_robin queues)))
        = min 1 (length (queue_of queues k)) + length (filter (\<lambda>x. key x = k) (take ?m (round_robin ?rest)))" for k
      using False one [of k] by (simp add: unfold)
    have len: "length (queue_of ?rest k) = length (queue_of queues k) - 1" for k
      using queue_of_tl [OF d, of k] by simp
    have "length (filter (\<lambda>x. key x = q) (take ?m (round_robin ?rest))) < length (queue_of ?rest q)"
      using "1.prems"(2) split [of q] len [of q] some by (cases "queue_of queues q") auto
    from "1.IH" [OF refl False' queues_wf_tl [OF "1.prems"(1)] this]
    have "length (filter (\<lambda>x. key x = p) (take ?m (round_robin ?rest)))
      \<le> length (filter (\<lambda>x. key x = q) (take ?m (round_robin ?rest))) + 1" .
    moreover have "min 1 (length (queue_of queues q)) = 1" using some by (cases "queue_of queues q") auto
    ultimately show ?thesis using split [of p] split [of q] by simp
  qed
qed


section \<open>The queue order\<close>

lemma insort_key_same:
  "\<forall>y \<in> set (x # xs). t_priority y = pr \<Longrightarrow>
     insort_key (\<lambda>t. (- t_priority t, t_id t)) x xs = insort_key t_id x xs"
  by (induction xs) auto

lemma sort_key_same:
  "\<forall>y \<in> set xs. t_priority y = pr \<Longrightarrow> sort_key (\<lambda>t. (- t_priority t, t_id t)) xs = sort_key t_id xs"
proof (induction xs)
  case (Cons x xs)
  then show ?case using insort_key_same [of x "sort_key t_id xs" pr] by simp
qed simp

lemma priority_class_eq: "priority_class tasks pr = sort_key t_id (filter (\<lambda>t. t_priority t = pr) tasks)"
  using sort_key_same [of "filter (\<lambda>t. t_priority t = pr) tasks" pr] by (simp add: priority_class_def filter_sort)

lemma set_rotate_projects [simp]: "set (rotate_projects ps c) = set ps"
proof -
  have "set (drop n ps) \<union> set (take n ps) = set ps" for n
    by (metis append_take_drop_id set_append sup_commute)
  then show ?thesis by (simp add: rotate_projects_def split: option.splits)
qed

lemma distinct_rotate_projects [simp]: "distinct ps \<Longrightarrow> distinct (rotate_projects ps c)"
proof -
  assume "distinct ps"
  then have "distinct (drop n ps @ take n ps)" for n
    by (metis append_take_drop_id distinct_append inf_commute)
  then show ?thesis using \<open>distinct ps\<close> by (simp add: rotate_projects_def split: option.splits)
qed

definition class_queues :: "task_row list \<Rightarrow> (int \<times> string) list \<Rightarrow> int \<Rightarrow> (string \<times> task_row list) list" where
  "class_queues tasks cursor pr =
     (let cls = priority_class tasks pr in
      map (\<lambda>p. (p, filter (\<lambda>t. t_project t = p) cls))
        (rotate_projects (sorted_set (map t_project cls)) (map_of cursor pr)))"

lemma class_order_queues: "class_order tasks cursor pr = round_robin (class_queues tasks cursor pr)"
  by (simp add: class_order_def class_queues_def Let_def)

lemma class_queues_wf: "queues_wf t_project (class_queues tasks cursor pr)"
  by (auto simp: class_queues_def queues_wf_def Let_def comp_def)

lemma map_of_const_fun: "map_of (map (\<lambda>p. (p, f p)) ps) k = (if k \<in> set ps then Some (f k) else None)"
  by (induction ps) auto

lemma queue_of_class: "queue_of (class_queues tasks cursor pr) p = filter (\<lambda>t. t_project t = p) (priority_class tasks pr)"
  by (auto simp: queue_of_def class_queues_def Let_def map_of_const_fun filter_empty_conv eq_commute [of "[]"])

lemma class_order_project:
  "filter (\<lambda>t. t_project t = p) (class_order tasks cursor pr) = filter (\<lambda>t. t_project t = p) (priority_class tasks pr)"
  using round_robin_filter [OF class_queues_wf] by (simp add: class_order_queues queue_of_class)

lemma mset_class_order: "mset (class_order tasks cursor pr) = mset (priority_class tasks pr)"
  by (rule mset_of_filters [where key = t_project]) (simp add: class_order_project)

lemma set_class_order: "set (class_order tasks cursor pr) = {t \<in> set tasks. t_priority t = pr}"
proof -
  have "set (class_order tasks cursor pr) = set (priority_class tasks pr)"
    using mset_class_order by (rule mset_eq_setD)
  then show ?thesis by (auto simp: priority_class_def)
qed

lemma filter_concat_classes:
  assumes "distinct prs" and "\<And>pr t. t \<in> set (f pr) \<Longrightarrow> t_priority t = pr"
  shows "filter (\<lambda>t. t_priority t = pr) (concat (map f prs)) = (if pr \<in> set prs then f pr else [])"
  using assms
proof (induction prs)
  case (Cons p prs)
  have "filter (\<lambda>t. t_priority t = pr) (f p) = (if p = pr then f p else [])"
    using Cons.prems(2) by (auto simp: filter_id_conv filter_empty_conv)
  with Cons show ?case by auto
qed simp

lemma fair_order_class:
  "filter (\<lambda>t. t_priority t = pr) (project_fair_queue_order tasks cursor) = class_order tasks cursor pr"
proof -
  have "class_order tasks cursor pr = []" if "pr \<notin> t_priority ` set tasks"
    using that set_class_order [of tasks cursor pr] by (metis (mono_tags, lifting) Collect_empty_eq imageI set_empty)
  moreover have "filter (\<lambda>t. t_priority t = pr) (project_fair_queue_order tasks cursor) =
      (if pr \<in> set (rev (sorted_set (map t_priority tasks))) then class_order tasks cursor pr else [])"
    unfolding project_fair_queue_order_def by (rule filter_concat_classes) (auto simp: set_class_order)
  ultimately show ?thesis by simp
qed

lemma sorted_wrt_concat_classes:
  assumes "sorted_wrt (\<lambda>a b. b \<le> a) prs" and "\<And>pr t. t \<in> set (f pr) \<Longrightarrow> t_priority t = pr"
  shows "sorted_wrt (\<lambda>x y. t_priority y \<le> t_priority x) (concat (map f prs))"
  using assms
proof (induction prs)
  case (Cons p prs)
  have "sorted_wrt (\<lambda>x y. t_priority y \<le> t_priority x) (f p)"
    using Cons.prems(2) [of _ p] by (simp add: sorted_wrt_iff_nth_less)
  with Cons show ?case by (fastforce simp: sorted_wrt_append)
qed simp

text \<open>C28. The fair queue order loses and duplicates nothing, never runs a lower priority before a
  higher one, and keeps every project's tasks of one priority in submission (id) order.\<close>

theorem fair_order_correct:
  "mset (project_fair_queue_order tasks cursor) = mset tasks
   \<and> sorted_wrt (\<lambda>x y. t_priority y \<le> t_priority x) (project_fair_queue_order tasks cursor)
   \<and> filter (\<lambda>t. t_priority t = pr \<and> t_project t = p) (project_fair_queue_order tasks cursor)
     = sort_key t_id (filter (\<lambda>t. t_priority t = pr \<and> t_project t = p) tasks)"
proof -
  have "mset (filter (\<lambda>t. t_priority t = k) (project_fair_queue_order tasks cursor)) = mset (filter (\<lambda>t. t_priority t = k) tasks)" for k
    by (simp add: fair_order_class mset_class_order priority_class_eq)
  then have "mset (project_fair_queue_order tasks cursor) = mset tasks" by (rule mset_of_filters)
  moreover have "sorted_wrt (\<lambda>a b. b \<le> a) (rev (sorted_set (map t_priority tasks)))"
    by (simp add: sorted_wrt_rev)
  then have "sorted_wrt (\<lambda>x y. t_priority y \<le> t_priority x) (project_fair_queue_order tasks cursor)"
    unfolding project_fair_queue_order_def by (rule sorted_wrt_concat_classes) (simp add: set_class_order)
  moreover have "filter (\<lambda>t. t_priority t = pr \<and> t_project t = p) (project_fair_queue_order tasks cursor)
      = filter (\<lambda>t. t_project t = p) (filter (\<lambda>t. t_priority t = pr) (project_fair_queue_order tasks cursor))"
    by (simp add: conj_commute)
  then have "filter (\<lambda>t. t_priority t = pr \<and> t_project t = p) (project_fair_queue_order tasks cursor)
      = sort_key t_id (filter (\<lambda>t. t_priority t = pr \<and> t_project t = p) tasks)"
    by (simp add: fair_order_class class_order_project priority_class_eq filter_sort conj_commute)
  ultimately show ?thesis by blast
qed

text \<open>C29. Round-robin fairness: among the tasks of one priority, in every prefix of the order, a
  project that still has tasks waiting behind the prefix is at most one task behind any other.\<close>

theorem fair_order_round_robin:
  assumes "length (filter (\<lambda>t. t_project t = q) (take n (class_order tasks cursor pr)))
    < length (filter (\<lambda>t. t_priority t = pr \<and> t_project t = q) tasks)"
  shows "length (filter (\<lambda>t. t_project t = p) (take n (class_order tasks cursor pr)))
    \<le> length (filter (\<lambda>t. t_project t = q) (take n (class_order tasks cursor pr))) + 1
   \<and> class_order tasks cursor pr = filter (\<lambda>t. t_priority t = pr) (project_fair_queue_order tasks cursor)"
proof -
  have "length (queue_of (class_queues tasks cursor pr) q) = length (filter (\<lambda>t. t_priority t = pr \<and> t_project t = q) tasks)"
    by (simp add: queue_of_class priority_class_eq filter_sort conj_commute)
  then show ?thesis
    using assms round_robin_fair [OF class_queues_wf, of q n tasks cursor pr p]
    by (simp add: class_order_queues fair_order_class)
qed

section \<open>Choosing the tasks to refresh\<close>

record refresh_cursor =
  non_fea_task_refresh_cursor_id :: int
  fea_task_refresh_cursor_id :: int
  prefer_fea_for_single_task_refresh :: bool

definition rotate_tasks :: "task_row list \<Rightarrow> int \<Rightarrow> task_row list" where
  "rotate_tasks items cursor = filter (\<lambda>t. cursor < t_id t) items @ filter (\<lambda>t. t_id t \<le> cursor) items"

text \<open>The bounded choice: numbers of non-FEA and of FEA tasks taken from the rotated lists. A quarter
  of the budget, at least one probe, is the FEA share; unused quota spills to the other class.\<close>

definition refresh_split :: "nat \<Rightarrow> bool \<Rightarrow> nat \<Rightarrow> nat \<Rightarrow> nat \<times> nat" where
  "refresh_split limit prefer_fea n_non_fea n_fea =
     (if n_non_fea = 0 then (0, min limit n_fea)
      else if n_fea = 0 then (min limit n_non_fea, 0)
      else if limit = 1 then (if prefer_fea then (0, 1) else (1, 0))
      else (let fea_quota = max 1 (limit div 4);
                non_fea_0 = min (limit - fea_quota) n_non_fea;
                fea_0 = min fea_quota n_fea;
                remaining = limit - non_fea_0 - fea_0;
                non_fea_1 = min (non_fea_0 + remaining) n_non_fea;
                remaining_1 = remaining - (non_fea_1 - non_fea_0)
            in (non_fea_1, min (fea_0 + remaining_1) n_fea)))"

definition tasks_to_refresh :: "int \<Rightarrow> task_row list \<Rightarrow> refresh_cursor \<Rightarrow> task_row list \<times> refresh_cursor" where
  "tasks_to_refresh limit tasks cur =
     (if limit \<le> 0 then (sort_key t_id tasks, cur)
      else
        (let non_fea = rotate_tasks (sort_key t_id (filter (\<lambda>t. \<not> task_is_fea_bursty t) tasks))
                         (non_fea_task_refresh_cursor_id cur);
             fea = rotate_tasks (sort_key t_id (filter task_is_fea_bursty tasks)) (fea_task_refresh_cursor_id cur);
             (kn, kf) = refresh_split (nat limit) (prefer_fea_for_single_task_refresh cur) (length non_fea) (length fea);
             non_fea_selected = take kn non_fea;
             fea_selected = take kf fea
         in (non_fea_selected @ fea_selected,
             \<lparr>non_fea_task_refresh_cursor_id =
                (if non_fea_selected = [] then non_fea_task_refresh_cursor_id cur else t_id (last non_fea_selected)),
              fea_task_refresh_cursor_id =
                (if fea_selected = [] then fea_task_refresh_cursor_id cur else t_id (last fea_selected)),
              prefer_fea_for_single_task_refresh =
                (if non_fea \<noteq> [] \<and> fea \<noteq> [] \<and> limit = 1 then \<not> prefer_fea_for_single_task_refresh cur
                 else prefer_fea_for_single_task_refresh cur)\<rparr>)))"

lemma mset_rotate_tasks [simp]: "mset (rotate_tasks items c) = mset items"
  unfolding rotate_tasks_def by (induction items) auto

lemma set_rotate_tasks [simp]: "set (rotate_tasks items c) = set items"
  using mset_rotate_tasks by (rule mset_eq_setD)

lemma length_rotate_tasks [simp]: "length (rotate_tasks items c) = length items"
  using mset_rotate_tasks by (rule mset_eq_length)

lemma split_sorted:
  assumes "sorted_wrt (\<lambda>x y. t_id x < t_id y) items"
  shows "items = filter (\<lambda>t. t_id t \<le> c) items @ filter (\<lambda>t. c < t_id t) items"
  using assms
proof (induction items)
  case (Cons x items)
  show ?case
  proof (cases "t_id x \<le> c")
    case False
    then have "filter (\<lambda>t. t_id t \<le> c) items = []" using Cons.prems by (fastforce simp: filter_empty_conv)
    with False Cons show ?thesis by simp
  qed (use Cons in simp)
qed simp

lemma rotate_at_split:
  assumes "sorted_wrt (\<lambda>x y. t_id x < t_id y) (a @ b)" and "a \<noteq> []"
  shows "rotate_tasks (a @ b) (t_id (last a)) = b @ a"
proof -
  have "\<forall>t \<in> set a. t_id t \<le> t_id (last a)"
    using assms by (induction a rule: rev_induct) (auto simp: sorted_wrt_append order_less_imp_le)
  moreover have "\<forall>t \<in> set b. t_id (last a) < t_id t"
    using assms by (auto simp: sorted_wrt_append)
  ultimately have "filter (\<lambda>t. t_id (last a) < t_id t) a = []" "filter (\<lambda>t. t_id (last a) < t_id t) b = b"
    "filter (\<lambda>t. t_id t \<le> t_id (last a)) a = a" "filter (\<lambda>t. t_id t \<le> t_id (last a)) b = []"
    by (auto simp: filter_empty_conv filter_id_conv)
  then show ?thesis by (simp add: rotate_tasks_def)
qed

text \<open>Selecting the next \<open>k\<close> tasks turns the rotated list by \<open>k\<close>.\<close>

lemma rotate_tasks_advance:
  assumes sorted: "sorted_wrt (\<lambda>x y. t_id x < t_id y) items" and k: "0 < k" "k \<le> length items"
  shows "rotate_tasks items (t_id (last (take k (rotate_tasks items c))))
    = drop k (rotate_tasks items c) @ take k (rotate_tasks items c)"
proof -
  define a where "a = filter (\<lambda>t. c < t_id t) items"
  define b where "b = filter (\<lambda>t. t_id t \<le> c) items"
  have items: "items = b @ a" unfolding a_def b_def using split_sorted [OF sorted] .
  have rot: "rotate_tasks items c = a @ b" by (simp add: rotate_tasks_def a_def b_def)
  show ?thesis
  proof (cases "k \<le> length a")
    case True
    then have "a \<noteq> []" "take k a \<noteq> []" using k by auto
    then have "rotate_tasks ((b @ take k a) @ drop k a) (t_id (last (b @ take k a))) = drop k a @ (b @ take k a)"
      using sorted items by (intro rotate_at_split) simp_all
    then show ?thesis using True \<open>take k a \<noteq> []\<close> by (simp add: rot items [symmetric] flip: append_assoc) (simp add: items)
  next
    case False
    let ?m = "k - length a"
    have ne: "take ?m b \<noteq> []" using False k items by auto
    have "rotate_tasks (take ?m b @ (drop ?m b @ a)) (t_id (last (take ?m b))) = (drop ?m b @ a) @ take ?m b"
      using sorted items ne by (intro rotate_at_split) (simp_all flip: append_assoc)
    then show ?thesis using False ne by (simp add: rot) (simp add: items flip: append_assoc)
  qed
qed

lemma split_arith:
  fixes q :: nat
  assumes "0 < q" "q < limit" "0 < n" "0 < f" and n0: "n0 = min (limit - q) n" and f0: "f0 = min q f"
    and kn: "kn = min (n0 + (limit - n0 - f0)) n" and kf: "kf = min (f0 + (limit - n0 - f0 - (kn - n0))) f"
  shows "kn \<le> n \<and> kf \<le> f \<and> kn + kf = min limit (n + f) \<and> 0 < kn \<and> min q f \<le> kf"
proof -
  have a: "n0 \<le> limit - q" "n0 \<le> n" "n0 = limit - q \<or> n0 = n" "0 < n0" using assms(1-5) by auto
  have b: "f0 \<le> q" "f0 \<le> f" "f0 = q \<or> f0 = f" using f0 by auto
  have c: "kn \<le> n" "kn \<le> n0 + (limit - n0 - f0)" "kn = n \<or> kn = n0 + (limit - n0 - f0)" "n0 \<le> kn"
    using kn a by auto
  have d: "kf \<le> f" "kf \<le> f0 + (limit - n0 - f0 - (kn - n0))" "kf = f \<or> kf = f0 + (limit - n0 - f0 - (kn - n0))" "f0 \<le> kf"
    using kf b by auto
  have e: "n0 + f0 \<le> limit" using a b assms(2) by linarith
  have s: "f0 + (limit - n0 - f0 - (kn - n0)) = limit - kn" "n0 + (limit - n0 - f0) = limit - f0"
    using a c e by linarith+
  have "kn + kf = min limit (n + f)"
  proof (cases "kn = n")
    case True
    then show ?thesis using d(1,3) c(2) e kf unfolding s by (cases "limit - kn \<le> f") auto
  next
    case False
    then have "kn = limit - f0" using c(3) s by simp
    moreover have "kf = f0" using d(3,4) b(2) \<open>kn = limit - f0\<close> e kf unfolding s by simp
    ultimately show ?thesis using c(1) b(2) e by simp
  qed
  then show ?thesis using a(4) c(1,4) d(1,4) f0 by simp
qed

lemma refresh_split_bounds:
  assumes "2 \<le> limit" and "refresh_split limit b n f = (kn, kf)"
  shows "kn \<le> n \<and> kf \<le> f \<and> kn + kf = min limit (n + f)
    \<and> (0 < n \<longrightarrow> 0 < kn) \<and> min (max 1 (limit div 4)) f \<le> kf \<and> (0 < f \<longrightarrow> 0 < kf)"
proof (cases "0 < n \<and> 0 < f")
  case True
  let ?q = "max 1 (limit div 4)"
  have eq: "kn = min (min (limit - ?q) n + (limit - min (limit - ?q) n - min ?q f)) n"
    "kf = min (min ?q f + (limit - min (limit - ?q) n - min ?q f - (kn - min (limit - ?q) n))) f"
  proof -
    have "n \<noteq> 0" "f \<noteq> 0" "limit \<noteq> 1" using True assms(1) by auto
    then have run: "refresh_split limit b n f =
       (min (min (limit - ?q) n + (limit - min (limit - ?q) n - min ?q f)) n,
        min (min ?q f + (limit - min (limit - ?q) n - min ?q f
          - (min (min (limit - ?q) n + (limit - min (limit - ?q) n - min ?q f)) n - min (limit - ?q) n))) f)"
      unfolding refresh_split_def Let_def by (simp only: if_False)
    show "kn = min (min (limit - ?q) n + (limit - min (limit - ?q) n - min ?q f)) n"
      using run assms(2) by (simp only: prod.inject)
    then show "kf = min (min ?q f + (limit - min (limit - ?q) n - min ?q f - (kn - min (limit - ?q) n))) f"
      using run assms(2) by (simp only: prod.inject)
  qed
  have q: "0 < ?q" "?q < limit" using assms(1) by simp_all
  have "kn \<le> n \<and> kf \<le> f \<and> kn + kf = min limit (n + f) \<and> 0 < kn \<and> min ?q f \<le> kf"
    using split_arith [OF q _ _ refl refl eq] True by blast
  moreover have "0 < min ?q f" using True by simp
  ultimately show ?thesis by (meson less_le_trans)
next
  case False
  have "max 1 (limit div 4) \<le> limit" using assms(1) by simp
  then show ?thesis using False assms by (auto simp: refresh_split_def split: if_splits)
qed

definition non_fea_queue :: "task_row list \<Rightarrow> refresh_cursor \<Rightarrow> task_row list" where
  "non_fea_queue tasks cur = rotate_tasks (sort_key t_id (filter (\<lambda>t. \<not> task_is_fea_bursty t) tasks))
     (non_fea_task_refresh_cursor_id cur)"

definition fea_queue :: "task_row list \<Rightarrow> refresh_cursor \<Rightarrow> task_row list" where
  "fea_queue tasks cur = rotate_tasks (sort_key t_id (filter task_is_fea_bursty tasks)) (fea_task_refresh_cursor_id cur)"

lemma strict_sort_key:
  assumes "distinct (map t_id xs)"
  shows "sorted_wrt (\<lambda>x y. t_id x < t_id y) (sort_key t_id xs)"
proof -
  have "distinct (map t_id (sort_key t_id xs))"
    using assms by (metis distinct_map mset_eq_setD mset_sort distinct_sort)
  then have "sorted_wrt (<) (map t_id (sort_key t_id xs))"
    using sorted_sort_key strict_sorted_iff by blast
  then show ?thesis by (simp add: sorted_wrt_map)
qed

lemma distinct_map_filter_ids: "distinct (map t_id xs) \<Longrightarrow> distinct (map t_id (filter P xs))"
  by (induction xs) auto

lemma tasks_to_refresh_step:
  assumes "2 \<le> limit" and "distinct (map t_id tasks)" and "tasks_to_refresh limit tasks cur = (sel, cur')"
  shows "\<exists>kn kf. sel = take kn (non_fea_queue tasks cur) @ take kf (fea_queue tasks cur)
    \<and> refresh_split (nat limit) (prefer_fea_for_single_task_refresh cur) (length (non_fea_queue tasks cur))
        (length (fea_queue tasks cur)) = (kn, kf)
    \<and> non_fea_queue tasks cur' = drop kn (non_fea_queue tasks cur) @ take kn (non_fea_queue tasks cur)
    \<and> fea_queue tasks cur' = drop kf (fea_queue tasks cur) @ take kf (fea_queue tasks cur)"
proof -
  let ?n = "sort_key t_id (filter (\<lambda>t. \<not> task_is_fea_bursty t) tasks)"
  let ?f = "sort_key t_id (filter task_is_fea_bursty tasks)"
  obtain kn kf where split: "refresh_split (nat limit) (prefer_fea_for_single_task_refresh cur)
      (length (non_fea_queue tasks cur)) (length (fea_queue tasks cur)) = (kn, kf)"
    by (cases "refresh_split (nat limit) (prefer_fea_for_single_task_refresh cur)
      (length (non_fea_queue tasks cur)) (length (fea_queue tasks cur))")
  have two: "2 \<le> nat limit" using assms(1) by simp
  have len: "length (non_fea_queue tasks cur) = length ?n" "length (fea_queue tasks cur) = length ?f"
    by (simp_all add: non_fea_queue_def fea_queue_def)
  note bounds = refresh_split_bounds [OF two split]
  have sorted: "sorted_wrt (\<lambda>x y. t_id x < t_id y) ?n" "sorted_wrt (\<lambda>x y. t_id x < t_id y) ?f"
    using assms(2) by (simp_all add: strict_sort_key distinct_map_filter_ids)
  have run: "sel = take kn (non_fea_queue tasks cur) @ take kf (fea_queue tasks cur)"
    "non_fea_task_refresh_cursor_id cur' = (if take kn (non_fea_queue tasks cur) = []
       then non_fea_task_refresh_cursor_id cur else t_id (last (take kn (non_fea_queue tasks cur))))"
    "fea_task_refresh_cursor_id cur' = (if take kf (fea_queue tasks cur) = []
       then fea_task_refresh_cursor_id cur else t_id (last (take kf (fea_queue tasks cur))))"
    using assms(1,3) split
    by (auto simp: tasks_to_refresh_def non_fea_queue_def fea_queue_def Let_def split: prod.splits)
  have turn: "rotate_tasks items c' = drop k (rotate_tasks items c) @ take k (rotate_tasks items c)"
    if "sorted_wrt (\<lambda>x y. t_id x < t_id y) items" "k \<le> length items"
      "c' = (if take k (rotate_tasks items c) = [] then c else t_id (last (take k (rotate_tasks items c))))"
    for items k c c'
    using that rotate_tasks_advance [of items k c] by (cases "k = 0 \<or> items = []") auto
  have "non_fea_queue tasks cur' = drop kn (non_fea_queue tasks cur) @ take kn (non_fea_queue tasks cur)"
    unfolding non_fea_queue_def using bounds len run(2) by (intro turn [OF sorted(1)]) (simp_all add: non_fea_queue_def)
  moreover have "fea_queue tasks cur' = drop kf (fea_queue tasks cur) @ take kf (fea_queue tasks cur)"
    unfolding fea_queue_def using bounds len run(3) by (intro turn [OF sorted(2)]) (simp_all add: fea_queue_def)
  ultimately show ?thesis using split run(1) by blast
qed

fun refresh_ticks :: "int \<Rightarrow> task_row list \<Rightarrow> nat \<Rightarrow> refresh_cursor \<Rightarrow> task_row list" where
  "refresh_ticks limit tasks 0 cur = []"
| "refresh_ticks limit tasks (Suc n) cur =
     (let (sel, cur') = tasks_to_refresh limit tasks cur in sel @ refresh_ticks limit tasks n cur')"

lemma refresh_ticks_mono: "m \<le> n \<Longrightarrow> set (refresh_ticks limit tasks m cur) \<subseteq> set (refresh_ticks limit tasks n cur)"
proof (induction m arbitrary: n cur)
  case (Suc m)
  then obtain n' where "n = Suc n'" "m \<le> n'" by (metis Suc_le_D Suc_le_mono)
  then show ?case using Suc.IH [of n'] by (auto simp: split_def Let_def)
qed simp

lemma queue_reached:
  assumes "2 \<le> limit" and "distinct (map t_id tasks)"
    and "queue = non_fea_queue tasks \<or> queue = fea_queue tasks"
    and "p < length (queue cur)"
  shows "queue cur ! p \<in> set (refresh_ticks limit tasks (Suc p) cur)"
  using assms(4)
proof (induction p arbitrary: cur rule: less_induct)
  case (less p)
  obtain sel cur' where sel: "tasks_to_refresh limit tasks cur = (sel, cur')" by (cases "tasks_to_refresh limit tasks cur")
  from tasks_to_refresh_step [OF assms(1,2) sel] obtain kn kf where
    step: "sel = take kn (non_fea_queue tasks cur) @ take kf (fea_queue tasks cur)"
      "refresh_split (nat limit) (prefer_fea_for_single_task_refresh cur) (length (non_fea_queue tasks cur))
        (length (fea_queue tasks cur)) = (kn, kf)"
      "non_fea_queue tasks cur' = drop kn (non_fea_queue tasks cur) @ take kn (non_fea_queue tasks cur)"
      "fea_queue tasks cur' = drop kf (fea_queue tasks cur) @ take kf (fea_queue tasks cur)" by blast
  have "2 \<le> nat limit" using assms(1) by simp
  from refresh_split_bounds [OF this step(2)]
  have pos: "0 < length (non_fea_queue tasks cur) \<longrightarrow> 0 < kn" "0 < length (fea_queue tasks cur) \<longrightarrow> 0 < kf" by auto
  obtain k where k: "0 < k" "set (take k (queue cur)) \<subseteq> set sel" "queue cur' = drop k (queue cur) @ take k (queue cur)"
  proof (cases "queue = non_fea_queue tasks")
    case True
    then have "0 < length (non_fea_queue tasks cur)" using less.prems by auto
    then show ?thesis using that [of kn] step pos True by simp
  next
    case False
    then have "queue = fea_queue tasks" using assms(3) by simp
    moreover from this have "0 < length (fea_queue tasks cur)" using less.prems by auto
    ultimately show ?thesis using that [of kf] step pos by simp
  qed
  show ?case
  proof (cases "p < k")
    case True
    then have "queue cur ! p \<in> set (take k (queue cur))"
      using less.prems by (auto simp: in_set_conv_nth intro!: exI [of _ p])
    then show ?thesis using k sel by (auto simp: split_def Let_def)
  next
    case False
    then have "p - k < p" "queue cur' ! (p - k) = queue cur ! p" "p - k < length (queue cur')"
      using k less.prems by (auto simp: nth_append)
    then have "queue cur ! p \<in> set (refresh_ticks limit tasks (Suc (p - k)) cur')"
      using less.IH by metis
    moreover have "Suc (p - k) \<le> p" using False k by simp
    ultimately show ?thesis using refresh_ticks_mono sel by (fastforce simp: split_def Let_def)
  qed
qed

text \<open>C30. No live task is starved of status probes: with a probe budget of at least two, and a fixed
  set of live tasks, every task is probed at least once within as many ticks as there are tasks,
  from whatever cursor positions the rotation starts.\<close>

theorem refresh_no_starvation:
  assumes "2 \<le> limit" and "distinct (map t_id tasks)"
  shows "set (refresh_ticks limit tasks (length tasks) cur) = set tasks"
proof
  have sub: "set (fst (tasks_to_refresh limit tasks c)) \<subseteq> set tasks" for c
  proof -
    obtain sel c' where sel: "tasks_to_refresh limit tasks c = (sel, c')" by (cases "tasks_to_refresh limit tasks c")
    have "set (non_fea_queue tasks c) \<subseteq> set tasks" "set (fea_queue tasks c) \<subseteq> set tasks"
      by (auto simp: non_fea_queue_def fea_queue_def)
    moreover obtain kn kf where "sel = take kn (non_fea_queue tasks c) @ take kf (fea_queue tasks c)"
      using tasks_to_refresh_step [OF assms sel] by blast
    ultimately show ?thesis
      using sel set_take_subset [of kn "non_fea_queue tasks c"] set_take_subset [of kf "fea_queue tasks c"] by auto
  qed
  show "set (refresh_ticks limit tasks (length tasks) cur) \<subseteq> set tasks"
  proof -
    have "set (refresh_ticks limit tasks n c) \<subseteq> set tasks" for n c
      using sub by (induction n arbitrary: c) (auto simp: split_def Let_def)
    then show ?thesis .
  qed
  show "set tasks \<subseteq> set (refresh_ticks limit tasks (length tasks) cur)"
  proof
    fix t assume t: "t \<in> set tasks"
    define queue where "queue = (if task_is_fea_bursty t then fea_queue tasks else non_fea_queue tasks)"
    have "t \<in> set (queue cur)" "length (queue cur) \<le> length tasks"
      using t by (auto simp: queue_def fea_queue_def non_fea_queue_def)
    then obtain p where p: "p < length (queue cur)" "queue cur ! p = t" "Suc p \<le> length tasks"
      by (metis Suc_leI in_set_conv_nth less_le_trans)
    have "queue cur ! p \<in> set (refresh_ticks limit tasks (Suc p) cur)"
      using assms p(1) by (intro queue_reached) (auto simp: queue_def)
    then show "t \<in> set (refresh_ticks limit tasks (length tasks) cur)"
      using subsetD [OF refresh_ticks_mono [OF p(3)]] p(2) by blast
  qed
qed

text \<open>C31. The refresh budget is kept and not wasted: with a budget of at least two, one tick probes
  exactly as many distinct live tasks as the budget and the backlog allow, and at least the FEA
  quarter of the budget (at least one probe) goes to FEA tasks while any are live.\<close>

theorem refresh_budget:
  assumes "2 \<le> limit" and "distinct (map t_id tasks)"
  shows "length (fst (tasks_to_refresh limit tasks cur)) = min (nat limit) (length tasks)
    \<and> distinct (fst (tasks_to_refresh limit tasks cur))
    \<and> min (max 1 (nat limit div 4)) (length (filter task_is_fea_bursty tasks))
      \<le> length (filter task_is_fea_bursty (fst (tasks_to_refresh limit tasks cur)))"
proof -
  obtain sel cur' where sel: "tasks_to_refresh limit tasks cur = (sel, cur')" by (cases "tasks_to_refresh limit tasks cur")
  from tasks_to_refresh_step [OF assms sel] obtain kn kf where
    step: "sel = take kn (non_fea_queue tasks cur) @ take kf (fea_queue tasks cur)"
      "refresh_split (nat limit) (prefer_fea_for_single_task_refresh cur) (length (non_fea_queue tasks cur))
        (length (fea_queue tasks cur)) = (kn, kf)" by blast
  have "2 \<le> nat limit" using assms(1) by simp
  note bounds = refresh_split_bounds [OF this step(2)]
  have len: "length (fea_queue tasks cur) = length (filter task_is_fea_bursty tasks)"
    "length (non_fea_queue tasks cur) + length (fea_queue tasks cur) = length tasks"
    by (simp_all add: fea_queue_def non_fea_queue_def sum_length_filter_compl add.commute)
  have dist: "distinct (non_fea_queue tasks cur)" "distinct (fea_queue tasks cur)"
    using assms(2) by (auto simp: fea_queue_def non_fea_queue_def distinct_map rotate_tasks_def)
  have sets: "\<forall>t \<in> set (fea_queue tasks cur). task_is_fea_bursty t" "\<forall>t \<in> set (non_fea_queue tasks cur). \<not> task_is_fea_bursty t"
    by (auto simp: fea_queue_def non_fea_queue_def)
  have "distinct sel" using dist sets step(1) by (fastforce dest: in_set_takeD)
  moreover have "filter task_is_fea_bursty (take kf (fea_queue tasks cur)) = take kf (fea_queue tasks cur)"
    using sets(1) by (auto simp: filter_id_conv dest: in_set_takeD)
  ultimately show ?thesis using step(1) bounds len sel by simp
qed

theorem refresh_no_starvation_witness:
  "set (refresh_ticks 2 [plain_task 1 ''a'', plain_task 2 ''b'', plain_task 3 ''c'']
      (length [plain_task 1 ''a'', plain_task 2 ''b'', plain_task 3 ''c'']) \<lparr>non_fea_task_refresh_cursor_id = 2,
      fea_task_refresh_cursor_id = 0, prefer_fea_for_single_task_refresh = False\<rparr>)
    = set [plain_task 1 ''a'', plain_task 2 ''b'', plain_task 3 ''c'']"
  by (rule refresh_no_starvation) (simp_all add: plain_task_def task_row_of_def)

theorem refresh_budget_witness:
  "length (fst (tasks_to_refresh 2 [plain_task 1 ''a'', plain_task 2 ''b'', plain_task 3 ''c'']
     \<lparr>non_fea_task_refresh_cursor_id = 2, fea_task_refresh_cursor_id = 0, prefer_fea_for_single_task_refresh = False\<rparr>)) = 2"
  using refresh_budget [of 2 "[plain_task 1 ''a'', plain_task 2 ''b'', plain_task 3 ''c'']"]
  by (simp add: plain_task_def task_row_of_def)

theorem fair_order_round_robin_witness:
  "length (filter (\<lambda>t. t_project t = ''p'') (take 2 (class_order
      [(plain_task 1 ''a'')\<lparr>t_project := ''p''\<rparr>, (plain_task 2 ''b'')\<lparr>t_project := ''p''\<rparr>,
       (plain_task 3 ''c'')\<lparr>t_project := ''q''\<rparr>, (plain_task 4 ''d'')\<lparr>t_project := ''q''\<rparr>] [] 0))) \<le> 2"
proof -
  let ?ts = "[(plain_task 1 ''a'')\<lparr>t_project := ''p''\<rparr>, (plain_task 2 ''b'')\<lparr>t_project := ''p''\<rparr>,
       (plain_task 3 ''c'')\<lparr>t_project := ''q''\<rparr>, (plain_task 4 ''d'')\<lparr>t_project := ''q''\<rparr>]"
  have "length (filter (\<lambda>t. t_project t = ''q'') (take 2 (class_order ?ts [] 0)))
      < length (filter (\<lambda>t. t_priority t = 0 \<and> t_project t = ''q'') ?ts)"
    by code_simp
  note conjunct1 [OF fair_order_round_robin [OF this, of "''p''"]]
  also have "length (filter (\<lambda>t. t_project t = ''q'') (take 2 (class_order ?ts [] 0))) + 1 = 2" by code_simp
  finally show ?thesis .
qed

end
