(* ===== verification/License.thy ===== *)
theory License
  imports Task_Kind
begin

text \<open>
  License admission (\<open>scheduler.py\<close>, \<open>_license_*\<close> and \<open>aedt_pool_warm_spare_admission\<close>): a task of
  a configured project is attached only while the last license-server snapshot, plus the claims
  that snapshot cannot have seen yet, leaves room for its persistent license cost.

  The state is the dictionary of admission claims (keyed by attach token, in insertion order), the
  last published snapshot and its completion time, and the last block reason. All operations run
  under the assignment lock, so each is one atomic function. Block reasons are values of a
  datatype, one constructor per message of the source; \<open>None\<close> is the empty text.
\<close>

section \<open>State\<close>

type_synonym costs = "(string \<times> int) list"

record license_config =
  license_admission_enabled :: bool
  license_monitor_enabled :: bool
  license_admission_snapshot_max_age_seconds :: int
  license_admission_settlement_seconds :: int
  license_monitor_interval_seconds :: int
  license_admission_reserve_by_feature :: costs
  license_admission_persistent_cost_by_project :: "(string \<times> costs) list"
  license_admission_reserve_exempt_projects :: "string list"
  license_admission_unknown_fea_project_policy :: string

datatype claim_state = ClaimAttaching | ClaimRunning | ClaimTerminal

record license_claim =
  lc_task_id :: int
  lc_project :: string
  lc_costs :: costs
  lc_state :: claim_state
  lc_claimed_at :: int
  lc_launch_started_at :: "int option"
  lc_running_at :: "int option"

record feature_item =
  fi_feature :: string
  fi_total :: "int option"
  fi_used :: "int option"

record license_snapshot =
  ls_error :: string
  ls_server_up :: bool
  ls_features :: "feature_item list option"

datatype block_reason =
    UnconfiguredProject string
  | MonitorDisabled
  | NoSnapshot
  | MonitorError string
  | ServerNotUp
  | StaleSnapshot rat rat
  | NoFeatureList
  | FeatureMissing string
  | InvalidCounts string
  | CapacityExhausted string int int int int int
  | AdmissionDisabled
  | HostProfileWithoutDesktop
  | PermitsFewer int int

record license_state =
  license_admission_claims :: "(string \<times> license_claim) list"
  license_usage :: "license_snapshot option"
  license_snapshot_completed_monotonic :: "rat option"
  license_last_blocked_reason :: "block_reason option"

text \<open>The constructor's clamping of the configured maps.\<close>

definition clean_reserve :: "costs \<Rightarrow> costs" where
  "clean_reserve src = fold (\<lambda>(f, r) out. AList.update f (max 0 r) out)
     (filter (\<lambda>(f, r). strip f \<noteq> []) src) []"

definition clean_costs :: "costs \<Rightarrow> costs" where
  "clean_costs src = fold (\<lambda>(f, c) out. AList.update f (max 0 c) out)
     (filter (\<lambda>(f, c). strip f \<noteq> [] \<and> 0 < c) src) []"

definition clean_cost_table :: "(string \<times> costs) list \<Rightarrow> (string \<times> costs) list" where
  "clean_cost_table src = fold (\<lambda>(p, cs) out. AList.update p (clean_costs cs) out)
     (filter (\<lambda>(p, cs). strip p \<noteq> []) src) []"

section \<open>Costs and claims\<close>

definition license_costs :: "license_config \<Rightarrow> string \<Rightarrow> bool \<Rightarrow> aedt_backend \<Rightarrow> costs \<times> block_reason option" where
  "license_costs cfg project0 is_fea backend =
     (if \<not> license_admission_enabled cfg then ([], None)
      else (let project = strip project0;
                configured = dict_get (license_admission_persistent_cost_by_project cfg) project [] in
        if configured \<noteq> []
        then (if backend = Pooled then filter (\<lambda>(f, c). lower f \<noteq> ''electronics_desktop'') configured
              else configured, None)
        else if is_fea \<and> license_admission_unknown_fea_project_policy cfg = ''block''
        then ([], Some (UnconfiguredProject project))
        else ([], None)))"

definition license_costs_for_task :: "license_config \<Rightarrow> task_row \<Rightarrow> costs \<times> block_reason option" where
  "license_costs_for_task cfg t =
     license_costs cfg (t_project t) (task_is_fea_bursty t) (task_aedt_backend t)"

fun stamp_text :: "stamp \<Rightarrow> string" where
  "stamp_text Blank = ''unknown''"
| "stamp_text Garbled = ''garbled''"
| "stamp_text (At n) = show_int n"

definition license_claim_key :: "task_row \<Rightarrow> string" where
  "license_claim_key t =
     (let token = strip (t_attach_token t) in
      if token \<noteq> [] then token
      else ''legacy:'' @ show_int (t_id t) @ '':''
        @ stamp_text (stamp_or (t_attached_at t) (stamp_or (t_started_at t) (t_created_at t))))"

definition license_claim_from_task :: "int \<Rightarrow> task_row \<Rightarrow> costs \<Rightarrow> license_claim" where
  "license_claim_from_task now t costs =
     \<lparr>lc_task_id = t_id t, lc_project = t_project t, lc_costs = costs,
      lc_state = (if t_status t = Running then ClaimRunning else ClaimAttaching),
      lc_claimed_at = (case timestamp (stamp_or (t_attached_at t) (t_created_at t)) of
                         None \<Rightarrow> now | Some s \<Rightarrow> s),
      lc_launch_started_at = timestamp (t_launch_started_at t),
      lc_running_at = timestamp (t_started_at t)\<rparr>"

definition reconstruct_license_admission_claims :: "int \<Rightarrow> license_config \<Rightarrow> db \<Rightarrow> license_state \<Rightarrow> license_state" where
  "reconstruct_license_admission_claims now cfg d st =
     (if \<not> license_admission_enabled cfg then st
      else st\<lparr>license_admission_claims :=
        fold (\<lambda>t claims.
            let (costs, profile_error) = license_costs_for_task cfg t; k = license_claim_key t in
            if profile_error \<noteq> None \<or> costs = [] then claims
            else if map_of claims k \<noteq> None then claims
            else AList.update k (license_claim_from_task now t costs) claims)
          (list_tasks_by_statuses d [Attaching, Running] 5000) (license_admission_claims st)\<rparr>)"

definition license_record_claim :: "int \<Rightarrow> license_config \<Rightarrow> task_row \<Rightarrow> string \<Rightarrow> license_state \<Rightarrow> license_state" where
  "license_record_claim now cfg t token st =
     (let (costs, profile_error) = license_costs_for_task cfg t in
      if profile_error \<noteq> None \<or> costs = [] then st
      else st\<lparr>license_admission_claims := AList.update token
             \<lparr>lc_task_id = t_id t, lc_project = t_project t, lc_costs = costs, lc_state = ClaimAttaching,
              lc_claimed_at = now, lc_launch_started_at = None, lc_running_at = None\<rparr>
             (license_admission_claims st)\<rparr>)"

text \<open>The keys of the claims of a task: its token when that names a claim, else every claim of its id.\<close>

definition license_claim_keys_for_task :: "license_state \<Rightarrow> task_row \<Rightarrow> string list" where
  "license_claim_keys_for_task st t =
     (let token = strip (t_attach_token t); claims = license_admission_claims st in
      if token \<noteq> [] \<and> map_of claims token \<noteq> None then [token]
      else map fst (filter (\<lambda>(k, c). lc_task_id c = t_id t) claims))"

definition map_claims :: "string list \<Rightarrow> (license_claim \<Rightarrow> license_claim) \<Rightarrow> (string \<times> license_claim) list
    \<Rightarrow> (string \<times> license_claim) list" where
  "map_claims ks f claims = map (\<lambda>(k, c). if k \<in> set ks then (k, f c) else (k, c)) claims"

definition unlaunched :: "license_claim \<Rightarrow> bool" where
  "unlaunched c = (lc_launch_started_at c = None \<and> lc_running_at c = None)"

definition license_mark_launch_started :: "int \<Rightarrow> license_config \<Rightarrow> task_row \<Rightarrow> license_state \<Rightarrow> license_state" where
  "license_mark_launch_started now cfg t st =
     (if \<not> license_admission_enabled cfg then st
      else st\<lparr>license_admission_claims := map_claims (license_claim_keys_for_task st t)
             (\<lambda>c. if lc_launch_started_at c = None then c\<lparr>lc_launch_started_at := Some now\<rparr> else c)
             (license_admission_claims st)\<rparr>)"

definition license_mark_running :: "int \<Rightarrow> license_config \<Rightarrow> task_row \<Rightarrow> license_state \<Rightarrow> license_state" where
  "license_mark_running now cfg t st =
     (if \<not> license_admission_enabled cfg then st
      else st\<lparr>license_admission_claims := map_claims (license_claim_keys_for_task st t)
             (\<lambda>c. c\<lparr>lc_state := ClaimRunning,
                    lc_running_at := (if lc_running_at c = None then Some now else lc_running_at c)\<rparr>)
             (license_admission_claims st)\<rparr>)"

definition drop_unlaunched :: "string list \<Rightarrow> (string \<times> license_claim) list \<Rightarrow> (string \<times> license_claim) list" where
  "drop_unlaunched ks claims = filter (\<lambda>(k, c). \<not> (k \<in> set ks \<and> unlaunched c)) claims"

definition license_mark_terminal :: "license_config \<Rightarrow> task_row \<Rightarrow> license_state \<Rightarrow> license_state" where
  "license_mark_terminal cfg t st =
     (if \<not> license_admission_enabled cfg then st
      else (let ks = license_claim_keys_for_task st t in
        st\<lparr>license_admission_claims :=
             map_claims ks (\<lambda>c. c\<lparr>lc_state := ClaimTerminal\<rparr>)
               (drop_unlaunched ks (license_admission_claims st))\<rparr>))"

definition license_release_prelaunch_claim :: "license_config \<Rightarrow> task_row \<Rightarrow> license_state \<Rightarrow> license_state" where
  "license_release_prelaunch_claim cfg t st =
     (if \<not> license_admission_enabled cfg then st
      else st\<lparr>license_admission_claims :=
             drop_unlaunched (license_claim_keys_for_task st t) (license_admission_claims st)\<rparr>)"

definition claim_anchor :: "license_claim \<Rightarrow> int option" where
  "claim_anchor c = (case lc_running_at c of Some s \<Rightarrow> Some s | None \<Rightarrow> lc_launch_started_at c)"

definition claim_settled :: "license_config \<Rightarrow> int \<Rightarrow> license_claim \<Rightarrow> bool" where
  "claim_settled cfg query_started_at c =
     (lc_state c \<noteq> ClaimAttaching \<and>
      (case claim_anchor c of None \<Rightarrow> False
       | Some anchor \<Rightarrow> anchor + seconds (license_admission_settlement_seconds cfg) \<le> query_started_at))"

definition license_reconcile_claims :: "license_config \<Rightarrow> int \<Rightarrow> license_state \<Rightarrow> license_state" where
  "license_reconcile_claims cfg query_started_at st =
     st\<lparr>license_admission_claims :=
          filter (\<lambda>(k, c). \<not> claim_settled cfg query_started_at c) (license_admission_claims st)\<rparr>"

definition publish_successful_license_snapshot ::
  "rat \<Rightarrow> license_config \<Rightarrow> license_snapshot \<Rightarrow> int \<Rightarrow> license_state \<Rightarrow> license_state" where
  "publish_successful_license_snapshot mono_now cfg payload query_started_at st =
     license_reconcile_claims cfg query_started_at
       (st\<lparr>license_usage := Some payload, license_snapshot_completed_monotonic := Some mono_now\<rparr>)"

section \<open>Diagnostics and admission\<close>

definition add_cost :: "string \<times> int \<Rightarrow> costs \<Rightarrow> costs" where
  "add_cost fc out = AList.update (fst fc) (dict_get out (fst fc) 0 + snd fc) out"

definition license_unsettled_costs :: "license_state \<Rightarrow> costs" where
  "license_unsettled_costs st =
     fold (\<lambda>(k, c) out. fold add_cost (lc_costs c) out) (license_admission_claims st) []"

definition license_configured_features :: "license_config \<Rightarrow> string list" where
  "license_configured_features cfg =
     map fst (license_admission_reserve_by_feature cfg)
     @ concat (map (\<lambda>(p, cs). map fst cs) (license_admission_persistent_cost_by_project cfg))"

record feature_status =
  fs_feature :: string
  fs_used :: int
  fs_total :: int
  fs_unsettled :: int
  fs_admit_capacity :: int
  fs_admit_headroom :: int

record diagnostics =
  dg_snapshot_valid :: bool
  dg_features :: "feature_status list"
  dg_blocked_reason :: "block_reason option"

fun license_scan ::
  "license_config \<Rightarrow> feature_item list \<Rightarrow> costs \<Rightarrow> costs \<Rightarrow> bool \<Rightarrow> string list
     \<Rightarrow> feature_status list \<Rightarrow> block_reason option \<Rightarrow> diagnostics" where
  "license_scan cfg items unsettled candidate exempt [] done_features capacity_reason =
     \<lparr>dg_snapshot_valid = True, dg_features = done_features, dg_blocked_reason = capacity_reason\<rparr>"
| "license_scan cfg items unsettled candidate exempt (f # fs) done_features capacity_reason =
     (let stop = (\<lambda>r. \<lparr>dg_snapshot_valid = False, dg_features = done_features, dg_blocked_reason = Some r\<rparr>) in
      case find (\<lambda>i. fi_feature i = f) (rev (filter (\<lambda>i. fi_feature i \<noteq> []) items)) of
        None \<Rightarrow> stop (FeatureMissing f)
      | Some item \<Rightarrow>
          (case (fi_total item, fi_used item) of
             (Some total_n, Some used) \<Rightarrow>
               if total_n \<le> 0 \<or> used < 0 \<or> total_n < used then stop (InvalidCounts f)
               else
                 (let reserve = dict_get (license_admission_reserve_by_feature cfg) f 0;
                      pending = dict_get unsettled f 0;
                      effective_used = used + pending;
                      capacity = (if exempt then total_n else max 0 (total_n - reserve));
                      cost = dict_get candidate f 0;
                      status = \<lparr>fs_feature = f, fs_used = used, fs_total = total_n, fs_unsettled = pending,
                                fs_admit_capacity = capacity, fs_admit_headroom = capacity - effective_used\<rparr>;
                      reason = (if capacity < effective_used + cost \<and> capacity_reason = None
                                then Some (CapacityExhausted f used pending cost reserve total_n)
                                else capacity_reason)
                  in license_scan cfg items unsettled candidate exempt fs (done_features @ [status]) reason)
           | _ \<Rightarrow> stop (InvalidCounts f)))"

definition license_admission_diagnostics ::
  "license_config \<Rightarrow> rat \<Rightarrow> rat option \<Rightarrow> license_state \<Rightarrow> costs \<Rightarrow> bool \<Rightarrow> diagnostics" where
  "license_admission_diagnostics cfg mono_now last_tick_duration st candidate exempt =
     (let blocked = (\<lambda>r. \<lparr>dg_snapshot_valid = False, dg_features = [], dg_blocked_reason = r\<rparr>) in
      if \<not> license_admission_enabled cfg then blocked None
      else if \<not> license_monitor_enabled cfg then blocked (Some MonitorDisabled)
      else (case license_usage st of
          None \<Rightarrow> blocked (Some NoSnapshot)
        | Some usage \<Rightarrow>
            if ls_error usage \<noteq> [] then blocked (Some (MonitorError (ls_error usage)))
            else if \<not> ls_server_up usage then blocked (Some ServerNotUp)
            else (case license_snapshot_completed_monotonic st of
                None \<Rightarrow> blocked (Some NoSnapshot)
              | Some completed \<Rightarrow>
                  (let age = max 0 (mono_now - completed);
                       base = of_int (license_admission_snapshot_max_age_seconds cfg);
                       max_age = (case last_tick_duration of None \<Rightarrow> base
                          | Some dur \<Rightarrow> max base (of_int (license_monitor_interval_seconds cfg) + 2 * dur)) in
                   if max_age < age then blocked (Some (StaleSnapshot age max_age))
                   else (case ls_features usage of
                       None \<Rightarrow> blocked (Some NoFeatureList)
                     | Some items \<Rightarrow>
                         license_scan cfg items (license_unsettled_costs st) candidate exempt
                           (sorted_set (license_configured_features cfg @ map fst candidate)) [] None)))))"

definition license_task_admitted ::
  "license_config \<Rightarrow> rat \<Rightarrow> rat option \<Rightarrow> task_row \<Rightarrow> license_state \<Rightarrow> (bool \<times> block_reason option) \<times> license_state" where
  "license_task_admitted cfg mono_now last_tick_duration t st =
     (if \<not> license_admission_enabled cfg then ((True, None), st)
      else (let (costs, profile_error) = license_costs_for_task cfg t in
        if profile_error \<noteq> None
        then ((False, profile_error), st\<lparr>license_last_blocked_reason := profile_error\<rparr>)
        else if costs = [] then ((True, None), st)
        else (let project = strip (t_project t);
                  dg = license_admission_diagnostics cfg mono_now last_tick_duration st costs
                         (project \<in> set (license_admission_reserve_exempt_projects cfg)) in
          (case dg_blocked_reason dg of
             Some r \<Rightarrow> ((False, Some r), st\<lparr>license_last_blocked_reason := Some r\<rparr>)
           | None \<Rightarrow> ((True, None), st\<lparr>license_last_blocked_reason := None\<rparr>)))))"

definition session_allowance :: "feature_status list \<Rightarrow> costs \<Rightarrow> int \<Rightarrow> int" where
  "session_allowance features costs requested =
     fold (\<lambda>(f, per_session) allowed.
        if per_session \<le> 0 then allowed
        else min allowed (max 0 (case find (\<lambda>s. fs_feature s = f) features of
                 None \<Rightarrow> 0 | Some s \<Rightarrow> fs_admit_headroom s) div per_session))
      costs requested"

definition aedt_pool_warm_spare_admission ::
  "license_config \<Rightarrow> rat \<Rightarrow> rat option \<Rightarrow> int \<Rightarrow> license_state \<Rightarrow> (int \<times> block_reason option) \<times> license_state" where
  "aedt_pool_warm_spare_admission cfg mono_now last_tick_duration requested_sessions st =
     (let requested = max 0 requested_sessions;
          block = (\<lambda>n r. ((n, Some r), st\<lparr>license_last_blocked_reason := Some r\<rparr>)) in
      if requested \<le> 0 then ((requested, None), st)
      else if \<not> license_admission_enabled cfg then block 0 AdmissionDisabled
      else (let exempt = ''_aedt_pool_hosts'' \<in> set (license_admission_reserve_exempt_projects cfg);
                (costs, profile_error) = license_costs cfg ''_aedt_pool_hosts'' True Standalone in
        (case profile_error of Some r \<Rightarrow> block 0 r
         | None \<Rightarrow>
           if sum_list (map snd (filter (\<lambda>(f, c). lower f = ''electronics_desktop'') costs)) \<le> 0
           then block 0 HostProfileWithoutDesktop
           else (let dg = license_admission_diagnostics cfg mono_now last_tick_duration st [] exempt in
             (case dg_blocked_reason dg of Some r \<Rightarrow> block 0 r
              | None \<Rightarrow>
                (let allowed = session_allowance (dg_features dg) costs requested in
                 if allowed < requested
                 then (let wide = license_admission_diagnostics cfg mono_now last_tick_duration st
                                    (map (\<lambda>(f, c). (f, c * requested)) costs) exempt in
                   block allowed (case dg_blocked_reason wide of Some r \<Rightarrow> r
                                  | None \<Rightarrow> PermitsFewer allowed requested))
                 else ((allowed, None), st\<lparr>license_last_blocked_reason := None\<rparr>)))))))"

definition fea_license_admit_headroom ::
  "license_config \<Rightarrow> rat \<Rightarrow> rat option \<Rightarrow> license_state \<Rightarrow> int option" where
  "fea_license_admit_headroom cfg mono_now last_tick_duration st =
     (if \<not> license_admission_enabled cfg then None
      else map_option fs_admit_headroom
        (find (\<lambda>s. fs_feature s = ''electronics_desktop'')
           (dg_features (license_admission_diagnostics cfg mono_now last_tick_duration st [] False))))"

section \<open>Costs as sums\<close>

definition cost_of :: "string \<Rightarrow> costs \<Rightarrow> int" where
  "cost_of f cs = sum_list (map snd (filter (\<lambda>x. fst x = f) cs))"

definition claims_cost :: "string \<Rightarrow> (string \<times> license_claim) list \<Rightarrow> int" where
  "claims_cost f claims = sum_list (map (\<lambda>(k, c). cost_of f (lc_costs c)) claims)"

definition claims_wf :: "license_state \<Rightarrow> bool" where
  "claims_wf st = (distinct (map fst (license_admission_claims st))
     \<and> (\<forall>(k, c) \<in> set (license_admission_claims st). distinct (map fst (lc_costs c)) \<and> (\<forall>x \<in> set (lc_costs c). 0 \<le> snd x)))"

lemma dict_get_fold_add_cost:
  "dict_get (fold add_cost cs out) f 0 = dict_get out f 0 + cost_of f cs"
proof (induction cs arbitrary: out)
  case (Cons x cs)
  have "dict_get (add_cost x out) f 0 = dict_get out f 0 + (if fst x = f then snd x else 0)"
    by (auto simp: add_cost_def update_conv' split: option.splits)
  with Cons show ?case by (simp add: cost_of_def)
qed (simp add: cost_of_def)

lemma dict_get_fold_claims:
  "dict_get (fold (\<lambda>(k, c) out. fold add_cost (lc_costs c) out) claims out) f 0
     = dict_get out f 0 + claims_cost f claims"
proof (induction claims arbitrary: out)
  case (Cons x claims)
  obtain k c where x: "x = (k, c)" by (cases x)
  show ?case using Cons [of "fold add_cost (lc_costs c) out"]
    by (simp add: x claims_cost_def dict_get_fold_add_cost)
qed (simp add: claims_cost_def)

lemma unsettled_eq: "dict_get (license_unsettled_costs st) f 0 = claims_cost f (license_admission_claims st)"
  by (simp add: license_unsettled_costs_def dict_get_fold_claims)

lemma cost_of_dict: "distinct (map fst cs) \<Longrightarrow> cost_of f cs = dict_get cs f 0"
proof (induction cs)
  case (Cons x cs)
  then show ?case
    by (cases x) (auto simp: cost_of_def image_iff filter_empty_conv split: option.splits
        dest: map_of_SomeD intro!: arg_cong [where f = sum_list])
qed (simp add: cost_of_def)

lemma claims_cost_fresh:
  "map_of claims k = None \<Longrightarrow> claims_cost f (AList.update k c claims) = claims_cost f claims + cost_of f (lc_costs c)"
proof (induction claims)
  case (Cons x claims)
  then show ?case by (cases x) (auto simp: claims_cost_def split: if_splits)
qed (simp add: claims_cost_def)

section \<open>The scan\<close>

definition snapshot_counts :: "feature_item list \<Rightarrow> string \<Rightarrow> (int \<times> int) option" where
  "snapshot_counts items f =
     (case find (\<lambda>i. fi_feature i = f) (rev (filter (\<lambda>i. fi_feature i \<noteq> []) items)) of
        None \<Rightarrow> None
      | Some item \<Rightarrow> (case (fi_used item, fi_total item) of
            (Some used, Some total_n) \<Rightarrow> Some (used, total_n) | _ \<Rightarrow> None))"

definition admit_capacity :: "license_config \<Rightarrow> bool \<Rightarrow> string \<Rightarrow> int \<Rightarrow> int" where
  "admit_capacity cfg exempt f total_n =
     (if exempt then total_n else max 0 (total_n - dict_get (license_admission_reserve_by_feature cfg) f 0))"

lemma license_scan_sticky [simp]:
  "(dg_blocked_reason (license_scan cfg items unsettled candidate exempt fs acc (Some r)) = None) = False"
  by (induction fs arbitrary: acc) (auto simp: Let_def split: option.splits)

lemma license_scan_clear:
  assumes "dg_blocked_reason (license_scan cfg items unsettled candidate exempt fs acc cap) = None"
    and "f \<in> set fs"
  shows "\<exists>used total_n. snapshot_counts items f = Some (used, total_n) \<and> 0 \<le> used \<and> used \<le> total_n
     \<and> used + dict_get unsettled f 0 + dict_get candidate f 0 \<le> admit_capacity cfg exempt f total_n"
  using assms
proof (induction fs arbitrary: acc cap)
  case (Cons g fs)
  show ?case
  proof (cases "find (\<lambda>i. fi_feature i = g) (rev (filter (\<lambda>i. fi_feature i \<noteq> []) items))")
    case None
    with Cons.prems show ?thesis by (simp add: Let_def)
  next
    case (Some item)
    with Cons.prems obtain total_n used where
      counts: "fi_total item = Some total_n" "fi_used item = Some used" "0 \<le> used" "used \<le> total_n" "0 < total_n"
      by (auto simp: Let_def split: option.splits if_splits)
    have fit: "used + dict_get unsettled g 0 + dict_get candidate g 0 \<le> admit_capacity cfg exempt g total_n"
      using Cons.prems(1) Some counts
      by (cases cap) (auto simp: Let_def admit_capacity_def split: if_splits)
    have rest: "\<exists>acc' cap'. dg_blocked_reason (license_scan cfg items unsettled candidate exempt fs acc' cap') = None"
      using Cons.prems(1) Some counts by (auto simp: Let_def split: if_splits)
    show ?thesis
    proof (cases "f = g")
      case True
      then show ?thesis using Some counts fit by (auto simp: snapshot_counts_def)
    next
      case False
      then have "f \<in> set fs" using Cons.prems(2) by simp
      then show ?thesis using Cons.IH rest by blast
    qed
  qed
qed simp

lemma diagnostics_clear:
  assumes "dg_blocked_reason (license_admission_diagnostics cfg mono_now dur st candidate exempt) = None"
    and "license_admission_enabled cfg"
  shows "\<exists>u items. license_usage st = Some u \<and> ls_error u = [] \<and> ls_server_up u \<and> ls_features u = Some items
    \<and> license_admission_diagnostics cfg mono_now dur st candidate exempt
       = license_scan cfg items (license_unsettled_costs st) candidate exempt
           (sorted_set (license_configured_features cfg @ map fst candidate)) [] None"
  using assms by (auto simp: license_admission_diagnostics_def Let_def split: option.splits if_splits)

lemma diagnostics_fit:
  assumes clear: "dg_blocked_reason (license_admission_diagnostics cfg mono_now dur st candidate exempt) = None"
    and on: "license_admission_enabled cfg"
    and usage: "license_usage st = Some u" "ls_features u = Some items"
    and f: "f \<in> fst ` set candidate \<or> f \<in> set (license_configured_features cfg)"
  shows "\<exists>used total_n. snapshot_counts items f = Some (used, total_n) \<and> 0 \<le> used \<and> used \<le> total_n
     \<and> used + claims_cost f (license_admission_claims st) + dict_get candidate f 0
         \<le> admit_capacity cfg exempt f total_n"
proof -
  have "dg_blocked_reason (license_scan cfg items (license_unsettled_costs st) candidate exempt
      (sorted_set (license_configured_features cfg @ map fst candidate)) [] None) = None"
    using diagnostics_clear [OF clear on] clear usage by auto
  from license_scan_clear [OF this, of f] f show ?thesis by (auto simp: unsettled_eq)
qed

section \<open>Admission and claiming\<close>

text \<open>The configuration as the constructor leaves it.\<close>

definition license_config_wf :: "license_config \<Rightarrow> bool" where
  "license_config_wf cfg = ((\<forall>(f, r) \<in> set (license_admission_reserve_by_feature cfg). 0 \<le> r)
     \<and> (\<forall>(p, cs) \<in> set (license_admission_persistent_cost_by_project cfg).
          distinct (map fst cs) \<and> (\<forall>(f, c) \<in> set cs. 0 < c)))"

lemma dict_get_nonneg: "\<forall>(f, r) \<in> set d. 0 \<le> r \<Longrightarrow> 0 \<le> dict_get d f (0 :: int)"
  by (auto split: option.splits dest: map_of_SomeD)

lemma admit_capacity_le: "license_config_wf cfg \<Longrightarrow> 0 \<le> total_n \<Longrightarrow> admit_capacity cfg exempt f total_n \<le> total_n"
  using dict_get_nonneg [of "license_admission_reserve_by_feature cfg" f]
  by (auto simp: admit_capacity_def license_config_wf_def)

lemma distinct_filter_fst: "distinct (map fst cs) \<Longrightarrow> distinct (map fst (filter P cs))"
  by (induction cs) auto

lemma license_costs_distinct:
  assumes "license_config_wf cfg"
  shows "distinct (map fst (fst (license_costs cfg project is_fea backend)))"
proof -
  have "distinct (map fst (dict_get (license_admission_persistent_cost_by_project cfg) p []))" for p
    using assms by (auto simp: license_config_wf_def split: option.splits dest!: map_of_SomeD)
  then show ?thesis
    by (auto simp: license_costs_def Let_def distinct_filter_fst)
qed

text \<open>One admission decision followed by the claim it authorises, as the attach path makes them.\<close>

definition license_admit_and_claim ::
  "license_config \<Rightarrow> int \<Rightarrow> rat \<Rightarrow> rat option \<Rightarrow> task_row \<times> string \<Rightarrow> license_state \<Rightarrow> license_state" where
  "license_admit_and_claim cfg now mono_now dur req st =
     (let ((admitted, reason), st') = license_task_admitted cfg mono_now dur (fst req) st in
      if admitted then license_record_claim now cfg (fst req) (snd req) st' else st')"

lemma admitted_fit:
  assumes adm: "license_task_admitted cfg mono_now dur t st = ((True, reason), st')"
    and on: "license_admission_enabled cfg"
    and usage: "license_usage st = Some u" "ls_features u = Some items"
    and f: "f \<in> fst ` set (fst (license_costs_for_task cfg t))"
  shows "\<exists>used total_n. snapshot_counts items f = Some (used, total_n) \<and> used \<le> total_n \<and> 0 \<le> used
    \<and> used + claims_cost f (license_admission_claims st) + dict_get (fst (license_costs_for_task cfg t)) f 0
      \<le> admit_capacity cfg (strip (t_project t) \<in> set (license_admission_reserve_exempt_projects cfg)) f total_n"
proof -
  let ?c = "fst (license_costs_for_task cfg t)"
  have ne: "?c \<noteq> []" using f by auto
  have clear: "dg_blocked_reason (license_admission_diagnostics cfg mono_now dur st ?c
      (strip (t_project t) \<in> set (license_admission_reserve_exempt_projects cfg))) = None"
    using adm on ne
    by (auto simp: license_task_admitted_def Let_def split: prod.splits if_splits option.splits)
  show ?thesis using diagnostics_fit [OF clear on usage, of f] f by blast
qed

lemma admitted_state:
  "license_task_admitted cfg mono_now dur t st = (r, st') \<Longrightarrow>
     license_admission_claims st' = license_admission_claims st \<and> license_usage st' = license_usage st"
  by (auto simp: license_task_admitted_def Let_def split: prod.splits if_splits option.splits)

lemma record_claim_cost:
  assumes "license_config_wf cfg" and "map_of (license_admission_claims st) token = None"
    and "snd (license_costs_for_task cfg t) = None"
  shows "claims_cost f (license_admission_claims (license_record_claim now cfg t token st))
    = claims_cost f (license_admission_claims st) + dict_get (fst (license_costs_for_task cfg t)) f 0"
proof -
  obtain cs e where ce: "license_costs_for_task cfg t = (cs, e)" by (cases "license_costs_for_task cfg t")
  have "distinct (map fst cs)"
    using license_costs_distinct [OF assms(1)] ce by (metis fst_conv license_costs_for_task_def)
  then have "cost_of f cs = dict_get cs f 0" by (rule cost_of_dict)
  then show ?thesis
    using assms ce by (auto simp: license_record_claim_def claims_cost_fresh)
qed

lemma admit_and_claim_within:
  assumes wf: "license_config_wf cfg"
    and usage: "license_usage st = Some u" "ls_features u = Some items"
    and fresh: "map_of (license_admission_claims st) (snd req) = None"
    and counts: "snapshot_counts items f = Some (used, total_n)"
    and before: "used + claims_cost f (license_admission_claims st) \<le> total_n"
  shows "used + claims_cost f (license_admission_claims (license_admit_and_claim cfg now mono_now dur req st)) \<le> total_n"
proof -
  obtain t token where req: "req = (t, token)" by (cases req)
  obtain a r st' where adm: "license_task_admitted cfg mono_now dur t st = ((a, r), st')"
    by (metis prod.exhaust)
  have same: "license_admission_claims st' = license_admission_claims st"
    using admitted_state [OF adm] by simp
  let ?c = "fst (license_costs_for_task cfg t)"
  show ?thesis
  proof (cases "a \<and> license_admission_enabled cfg \<and> f \<in> fst ` set ?c")
    case True
    then have on: "license_admission_enabled cfg" and fin: "f \<in> fst ` set ?c" by auto
    have adm': "license_task_admitted cfg mono_now dur t st = ((True, r), st')" using adm True by simp
    from admitted_fit [OF adm' on usage fin] counts
    have "0 \<le> total_n" and "used + claims_cost f (license_admission_claims st) + dict_get ?c f 0
        \<le> admit_capacity cfg (strip (t_project t) \<in> set (license_admission_reserve_exempt_projects cfg)) f total_n"
      by auto
    then have fit: "used + claims_cost f (license_admission_claims st) + dict_get ?c f 0 \<le> total_n"
      using admit_capacity_le [OF wf] order_trans by blast
    have "snd (license_costs_for_task cfg t) = None"
      using adm True by (auto simp: license_task_admitted_def split: prod.splits if_splits)
    then have "claims_cost f (license_admission_claims (license_record_claim now cfg t token st'))
        = claims_cost f (license_admission_claims st) + dict_get ?c f 0"
      using record_claim_cost [OF wf, of st' token t f now] fresh same req by simp
    then show ?thesis using fit True adm by (simp add: license_admit_and_claim_def req)
  next
    case False
    have "license_costs_for_task cfg t = ([], None)" if "\<not> license_admission_enabled cfg"
      using that by (simp add: license_costs_for_task_def license_costs_def)
    moreover have "dict_get ?c f 0 = 0" if "f \<notin> fst ` set ?c"
      using that by (metis (no_types, lifting) map_of_eq_None_iff option.simps(4))
    moreover have "claims_cost f (license_admission_claims (license_record_claim now cfg t token st'))
        = claims_cost f (license_admission_claims st)" if "a" "dict_get ?c f 0 = 0"
      using that record_claim_cost [OF wf, of st' token t f now] fresh same req
      by (cases "snd (license_costs_for_task cfg t)") (auto simp: license_record_claim_def split: prod.splits)
    ultimately have "claims_cost f (license_admission_claims (license_admit_and_claim cfg now mono_now dur req st))
        = claims_cost f (license_admission_claims st)"
      using False adm same by (cases a) (auto simp: license_admit_and_claim_def req license_record_claim_def)
    then show ?thesis using before by simp
  qed
qed

lemma admit_and_claim_frame:
  "license_usage (license_admit_and_claim cfg now mono_now dur req st) = license_usage st"
  "k \<noteq> snd req \<Longrightarrow> map_of (license_admission_claims (license_admit_and_claim cfg now mono_now dur req st)) k
     = map_of (license_admission_claims st) k"
  using admitted_state
  by (fastforce simp: license_admit_and_claim_def license_record_claim_def Let_def update_conv'
      split: prod.splits if_splits)+

fun license_admit_all ::
  "license_config \<Rightarrow> (int \<times> rat) list \<Rightarrow> rat option \<Rightarrow> (task_row \<times> string) list \<Rightarrow> license_state \<Rightarrow> license_state" where
  "license_admit_all cfg ((now, mono_now) # clocks) dur (req # reqs) st =
     license_admit_all cfg clocks dur reqs (license_admit_and_claim cfg now mono_now dur req st)"
| "license_admit_all cfg clocks dur reqs st = st"

text \<open>C7. License admission never oversubscribes a feature: starting from a snapshot in which the
  feature's used count plus the unsettled claims is within the server's total, any sequence of
  admission decisions and the claims they authorise (with fresh attach tokens) keeps used plus
  unsettled within the total, for every feature, whatever the tasks, projects and clocks are.\<close>

theorem license_admission_no_oversubscription:
  assumes "license_config_wf cfg"
    and "license_usage st = Some u" and "ls_features u = Some items"
    and "distinct (map snd reqs)" and "\<forall>req \<in> set reqs. map_of (license_admission_claims st) (snd req) = None"
    and "snapshot_counts items f = Some (used, total_n)"
    and "used + claims_cost f (license_admission_claims st) \<le> total_n"
  shows "used + claims_cost f (license_admission_claims (license_admit_all cfg clocks dur reqs st)) \<le> total_n"
  using assms
proof (induction cfg clocks dur reqs st rule: license_admit_all.induct)
  case (1 cfg now mono_now clocks dur req reqs st)
  let ?st = "license_admit_and_claim cfg now mono_now dur req st"
  have "license_usage ?st = Some u" using "1.prems"(2) by (simp add: admit_and_claim_frame)
  moreover have "\<forall>r \<in> set reqs. map_of (license_admission_claims ?st) (snd r) = None"
  proof
    fix r assume r: "r \<in> set reqs"
    then have "snd r \<noteq> snd req" using "1.prems"(4) by (metis distinct.simps(2) image_eqI list.set_map list.simps(9))
    then show "map_of (license_admission_claims ?st) (snd r) = None"
      using "1.prems"(5) r by (simp add: admit_and_claim_frame(2))
  qed
  moreover have "used + claims_cost f (license_admission_claims ?st) \<le> total_n"
    using "1.prems" by (intro admit_and_claim_within) auto
  ultimately show ?case using "1.IH" "1.prems" by simp
qed simp_all

text \<open>Settlement: publishing a snapshot forgets a claim only if the task had been launched
  and the query began at least the settlement window after its launch or start; a claim that is
  still attaching is never forgotten, and every remaining claim is kept unchanged.\<close>

theorem license_snapshot_settlement:
  "(k, c) \<in> set (license_admission_claims (publish_successful_license_snapshot mono_now cfg u query st)) \<longleftrightarrow>
     (k, c) \<in> set (license_admission_claims st)
     \<and> (lc_state c = ClaimAttaching
        \<or> (lc_launch_started_at c = None \<and> lc_running_at c = None)
        \<or> (\<exists>anchor. claim_anchor c = Some anchor
             \<and> query < anchor + seconds (license_admission_settlement_seconds cfg)))"
  by (auto simp: publish_successful_license_snapshot_def license_reconcile_claims_def
      claim_settled_def claim_anchor_def split: option.splits)

text \<open>The operations on claims as events, in the order the assignment lock serialises them.\<close>

datatype license_event =
    RecordClaim int task_row string
  | LaunchStarted int task_row
  | MarkRunning int task_row
  | MarkTerminal task_row
  | ReleasePrelaunch task_row
  | PublishSnapshot rat license_snapshot int

fun license_step :: "license_config \<Rightarrow> license_event \<Rightarrow> license_state \<Rightarrow> license_state" where
  "license_step cfg (RecordClaim now t token) st = license_record_claim now cfg t token st"
| "license_step cfg (LaunchStarted now t) st = license_mark_launch_started now cfg t st"
| "license_step cfg (MarkRunning now t) st = license_mark_running now cfg t st"
| "license_step cfg (MarkTerminal t) st = license_mark_terminal cfg t st"
| "license_step cfg (ReleasePrelaunch t) st = license_release_prelaunch_claim cfg t st"
| "license_step cfg (PublishSnapshot mono_now u query) st =
     publish_successful_license_snapshot mono_now cfg u query st"

text \<open>Events that may not settle a claim under key \<open>k\<close> launched at \<open>since\<close>: tokens are fresh, the
  clock does not run backwards, and no snapshot query begins after the settlement window.\<close>

fun within_window :: "license_config \<Rightarrow> string \<Rightarrow> int \<Rightarrow> license_event \<Rightarrow> bool" where
  "within_window cfg k since (RecordClaim now t token) = (token \<noteq> k)"
| "within_window cfg k since (MarkRunning now t) = (since \<le> now)"
| "within_window cfg k since (PublishSnapshot mono_now u query) =
     (query < since + seconds (license_admission_settlement_seconds cfg))"
| "within_window cfg k since _ = True"

definition holds_since :: "string \<Rightarrow> costs \<Rightarrow> int \<Rightarrow> license_state \<Rightarrow> bool" where
  "holds_since k cs since st = (case map_of (license_admission_claims st) k of None \<Rightarrow> False
     | Some c \<Rightarrow> lc_costs c = cs \<and> (case claim_anchor c of None \<Rightarrow> False | Some a \<Rightarrow> since \<le> a))"

lemma map_of_map_claims:
  "map_of (map_claims ks f claims) k = map_option (\<lambda>c. if k \<in> set ks then f c else c) (map_of claims k)"
  by (induction claims) (auto simp: map_claims_def)

lemma map_of_filter_keep:
  "map_of claims k = Some c \<Longrightarrow> P (k, c) \<Longrightarrow> map_of (filter P claims) k = Some c"
  by (induction claims) (auto split: if_splits)

lemma holds_sinceE:
  assumes "holds_since k cs since st"
  obtains c a where "map_of (license_admission_claims st) k = Some c" "lc_costs c = cs"
    "claim_anchor c = Some a" "since \<le> a"
  using assms by (auto simp: holds_since_def split: option.splits)

lemma license_step_holds:
  assumes h: "holds_since k cs since st" and w: "within_window cfg k since ev"
  shows "holds_since k cs since (license_step cfg ev st)"
proof -
  from h obtain c a where c: "map_of (license_admission_claims st) k = Some c" "lc_costs c = cs"
    "claim_anchor c = Some a" "since \<le> a" by (rule holds_sinceE)
  have launched: "\<not> unlaunched c" using c(3) by (auto simp: unlaunched_def claim_anchor_def split: option.splits)
  have keep: "map_of (drop_unlaunched ks (license_admission_claims st)) k = Some c" for ks
    using c launched by (simp add: drop_unlaunched_def map_of_filter_keep)
  show ?thesis
  proof (cases ev)
    case (RecordClaim now t token)
    with c w show ?thesis
      by (auto simp: holds_since_def license_record_claim_def update_conv' split: prod.splits)
  next
    case (LaunchStarted now t)
    with c show ?thesis
      by (auto simp: holds_since_def license_mark_launch_started_def map_of_map_claims claim_anchor_def
          split: option.splits)
  next
    case (MarkRunning now t)
    with c w show ?thesis
      by (auto simp: holds_since_def license_mark_running_def map_of_map_claims claim_anchor_def
          split: option.splits)
  next
    case (MarkTerminal t)
    with c keep show ?thesis
      by (auto simp: holds_since_def license_mark_terminal_def Let_def map_of_map_claims claim_anchor_def
          split: option.splits)
  next
    case (ReleasePrelaunch t)
    with c keep show ?thesis
      by (auto simp: holds_since_def license_release_prelaunch_claim_def)
  next
    case (PublishSnapshot mono_now u query)
    with c w have "map_of (filter (\<lambda>(k, c). \<not> claim_settled cfg query c) (license_admission_claims st)) k = Some c"
      by (intro map_of_filter_keep) (auto simp: claim_settled_def)
    with PublishSnapshot c show ?thesis
      by (auto simp: holds_since_def publish_successful_license_snapshot_def license_reconcile_claims_def)
  qed
qed

text \<open>C27. A launched license claim is never forgotten early: once a claim's remote launch has
  begun, any sequence of claim operations (other tasks' claims, launch and running marks, the
  task's own cancellation, failure or requeue, published snapshots) keeps it with its cost until a
  snapshot whose query began at least the settlement window after the launch.\<close>

theorem license_launched_claim_survives:
  assumes "map_of (license_admission_claims st) k = Some c" and "claim_anchor c = Some since"
    and "\<forall>ev \<in> set evs. within_window cfg k since ev"
  shows "\<exists>c'. map_of (license_admission_claims (fold (license_step cfg) evs st)) k = Some c'
    \<and> lc_costs c' = lc_costs c"
proof -
  have "holds_since k (lc_costs c) since (fold (license_step cfg) evs st)"
    if "holds_since k (lc_costs c) since st" for st
    using that assms(3) by (induction evs arbitrary: st) (auto simp: license_step_holds)
  moreover have "holds_since k (lc_costs c) since st" using assms by (simp add: holds_since_def)
  ultimately show ?thesis by (meson holds_sinceE)
qed

lemma session_allowance_bounds:
  "session_allowance features costs requested \<le> requested"
  "0 \<le> requested \<Longrightarrow> 0 \<le> session_allowance features costs requested"
proof -
  have "fold (\<lambda>(f, n) allowed. if n \<le> 0 then allowed else min allowed (h f div n)) costs r \<le> r"
    for h :: "string \<Rightarrow> int" and r
  proof (induction costs arbitrary: r)
    case (Cons x costs)
    show ?case
      using Cons [of r] Cons [of "min r (h (fst x) div snd x)"] by (auto split: prod.splits)
  qed simp
  then show "session_allowance features costs requested \<le> requested"
    by (simp add: session_allowance_def)
  show "0 \<le> requested \<Longrightarrow> 0 \<le> session_allowance features costs requested"
    by (induction costs arbitrary: requested)
      (auto simp: session_allowance_def pos_imp_zdiv_nonneg_iff split: prod.splits)
qed

lemma session_allowance_headroom:
  assumes "(f, c) \<in> set costs" and "0 < c"
  shows "session_allowance features costs requested * c \<le>
    max 0 (case find (\<lambda>s. fs_feature s = f) features of None \<Rightarrow> 0 | Some s \<Rightarrow> fs_admit_headroom s)"
  using assms
proof (induction costs arbitrary: requested)
  case (Cons x costs)
  let ?h = "max 0 (case find (\<lambda>s. fs_feature s = f) features of None \<Rightarrow> 0 | Some s \<Rightarrow> fs_admit_headroom s)"
  show ?case
  proof (cases "x = (f, c)")
    case True
    have "session_allowance features (x # costs) requested = session_allowance features costs (min requested (?h div c))"
      using True Cons.prems by (simp add: session_allowance_def)
    then have "session_allowance features (x # costs) requested \<le> ?h div c"
      using session_allowance_bounds(1) [of features costs "min requested (?h div c)"] by linarith
    then have "session_allowance features (x # costs) requested * c \<le> ?h div c * c"
      using Cons.prems by (simp add: mult_right_mono)
    also have "\<dots> \<le> ?h" using Cons.prems by (simp add: minus_mod_eq_div_mult [symmetric])
    finally show ?thesis .
  next
    case False
    then have "(f, c) \<in> set costs" using Cons.prems by simp
    moreover have "\<exists>r. session_allowance features (x # costs) requested = session_allowance features costs r"
      by (auto simp: session_allowance_def)
    ultimately show ?thesis using Cons.IH Cons.prems(2) by metis
  qed
qed simp


lemma license_scan_status:
  "s \<in> set (dg_features (license_scan cfg items unsettled candidate exempt fs acc cap)) \<Longrightarrow> s \<notin> set acc \<Longrightarrow>
     \<exists>used total_n. snapshot_counts items (fs_feature s) = Some (used, total_n)
       \<and> fs_admit_headroom s = admit_capacity cfg exempt (fs_feature s) total_n
            - (used + dict_get unsettled (fs_feature s) 0)"
proof (induction fs arbitrary: acc cap)
  case (Cons g fs)
  from Cons.prems obtain item total_n used where item:
      "find (\<lambda>i. fi_feature i = g) (rev (filter (\<lambda>i. fi_feature i \<noteq> []) items)) = Some item"
      "fi_total item = Some total_n" "fi_used item = Some used" "\<not> (total_n \<le> 0 \<or> used < 0 \<or> total_n < used)"
    by (auto simp: Let_def split: option.splits if_splits)
  define status where "status = \<lparr>fs_feature = g, fs_used = used, fs_total = total_n,
      fs_unsettled = dict_get unsettled g 0, fs_admit_capacity = admit_capacity cfg exempt g total_n,
      fs_admit_headroom = admit_capacity cfg exempt g total_n - (used + dict_get unsettled g 0)\<rparr>"
  have "\<exists>cap'. license_scan cfg items unsettled candidate exempt (g # fs) acc cap
      = license_scan cfg items unsettled candidate exempt fs (acc @ [status]) cap'"
    using item by (auto simp: Let_def status_def admit_capacity_def)
  with Cons have "s = status \<or> ?case" by fastforce
  moreover have "snapshot_counts items g = Some (used, total_n)" using item by (simp add: snapshot_counts_def)
  ultimately show ?case by (auto simp: status_def)
qed simp

lemma diagnostics_status:
  assumes clear: "dg_blocked_reason (license_admission_diagnostics cfg mono_now dur st candidate exempt) = None"
    and on: "license_admission_enabled cfg"
    and s: "s \<in> set (dg_features (license_admission_diagnostics cfg mono_now dur st candidate exempt))"
    and usage: "license_usage st = Some u" "ls_features u = Some items"
  shows "\<exists>used total_n. snapshot_counts items (fs_feature s) = Some (used, total_n)
       \<and> fs_admit_headroom s = admit_capacity cfg exempt (fs_feature s) total_n
            - (used + claims_cost (fs_feature s) (license_admission_claims st))"
  using diagnostics_clear [OF clear on] s usage license_scan_status [of s cfg items "license_unsettled_costs st"
      candidate exempt _ "[]" None] by (auto simp: unsettled_eq)

lemma warm_spare_cases:
  assumes "aedt_pool_warm_spare_admission cfg mono_now dur requested st = ((n, r), st')" and "0 < n"
  shows "license_admission_enabled cfg \<and> (\<exists>dg. dg = license_admission_diagnostics cfg mono_now dur st []
       (''_aedt_pool_hosts'' \<in> set (license_admission_reserve_exempt_projects cfg))
     \<and> dg_blocked_reason dg = None
     \<and> n = session_allowance (dg_features dg) (fst (license_costs cfg ''_aedt_pool_hosts'' True Standalone)) (max 0 requested))"
  using assms
  by (auto simp: aedt_pool_warm_spare_admission_def Let_def split: prod.splits option.splits if_splits)

lemma warm_spare_range:
  assumes "aedt_pool_warm_spare_admission cfg mono_now dur requested st = ((n, r), st')"
  shows "n = 0 \<or> (\<exists>features costs. n = session_allowance features costs (max 0 requested))"
  using assms
  by (auto simp: aedt_pool_warm_spare_admission_def Let_def split: prod.splits option.splits if_splits)

text \<open>C33. Warm spare AEDT desktops stay within the license headroom: the number of sessions the
  warm-pool admission grants is between 0 and the requested number, and the licenses these
  sessions will check out, together with the used and the unsettled ones, are within the admission
  capacity of every feature of the pool-host profile.\<close>

theorem warm_spare_within_headroom:
  assumes "aedt_pool_warm_spare_admission cfg mono_now dur requested st = ((n, r), st')"
    and "license_usage st = Some u" and "ls_features u = Some items" and "license_config_wf cfg"
  shows "0 \<le> n \<and> n \<le> max 0 requested \<and>
    (\<forall>(f, c) \<in> set (fst (license_costs cfg ''_aedt_pool_hosts'' True Standalone)). 0 < n \<and> 0 < c \<longrightarrow>
       (\<exists>used total_n. snapshot_counts items f = Some (used, total_n)
          \<and> used + claims_cost f (license_admission_claims st) + n * c
            \<le> admit_capacity cfg (''_aedt_pool_hosts'' \<in> set (license_admission_reserve_exempt_projects cfg)) f total_n))"
proof -
  have range: "0 \<le> n \<and> n \<le> max 0 requested"
    using warm_spare_range [OF assms(1)] session_allowance_bounds by auto
  have "\<exists>used total_n. snapshot_counts items f = Some (used, total_n)
          \<and> used + claims_cost f (license_admission_claims st) + n * c
            \<le> admit_capacity cfg (''_aedt_pool_hosts'' \<in> set (license_admission_reserve_exempt_projects cfg)) f total_n"
    if fc: "(f, c) \<in> set (fst (license_costs cfg ''_aedt_pool_hosts'' True Standalone))" "0 < c" "0 < n" for f c
  proof -
    let ?dg = "license_admission_diagnostics cfg mono_now dur st []
       (''_aedt_pool_hosts'' \<in> set (license_admission_reserve_exempt_projects cfg))"
    have on: "license_admission_enabled cfg" and clear: "dg_blocked_reason ?dg = None"
      and n: "n = session_allowance (dg_features ?dg) (fst (license_costs cfg ''_aedt_pool_hosts'' True Standalone)) (max 0 requested)"
      using warm_spare_cases [OF assms(1) fc(3)] by auto
    have bound: "n * c \<le> max 0 (case find (\<lambda>s. fs_feature s = f) (dg_features ?dg) of None \<Rightarrow> 0 | Some s \<Rightarrow> fs_admit_headroom s)"
      using session_allowance_headroom [OF fc(1,2)] n by simp
    have pos: "0 < n * c" using fc by simp
    then obtain s where s: "find (\<lambda>s. fs_feature s = f) (dg_features ?dg) = Some s"
      using bound by (cases "find (\<lambda>s. fs_feature s = f) (dg_features ?dg)") auto
    then have "s \<in> set (dg_features ?dg)" "fs_feature s = f" by (auto simp: find_Some_iff)
    then show ?thesis using diagnostics_status [OF clear on _ assms(2,3), of s] s bound pos by auto
  qed
  then show ?thesis using range by fast
qed

definition demo_license_config :: license_config where
  "demo_license_config = \<lparr>license_admission_enabled = True, license_monitor_enabled = True,
     license_admission_snapshot_max_age_seconds = 60, license_admission_settlement_seconds = 30,
     license_monitor_interval_seconds = 15,
     license_admission_reserve_by_feature = [(''hfss'', 1)],
     license_admission_persistent_cost_by_project = [(''p'', [(''hfss'', 2)]),
        (''_aedt_pool_hosts'', [(''electronics_desktop'', 1)])],
     license_admission_reserve_exempt_projects = [],
     license_admission_unknown_fea_project_policy = ''block''\<rparr>"

definition demo_features :: "feature_item list" where
  "demo_features = [\<lparr>fi_feature = ''hfss'', fi_total = Some 5, fi_used = Some 1\<rparr>,
     \<lparr>fi_feature = ''electronics_desktop'', fi_total = Some 4, fi_used = Some 1\<rparr>]"

definition demo_snapshot :: license_snapshot where
  "demo_snapshot = \<lparr>ls_error = [], ls_server_up = True, ls_features = Some demo_features\<rparr>"

definition demo_license_state :: license_state where
  "demo_license_state = \<lparr>license_admission_claims = [], license_usage = Some demo_snapshot,
     license_snapshot_completed_monotonic = Some 10, license_last_blocked_reason = None\<rparr>"

definition demo_license_task :: "int \<Rightarrow> task_row" where
  "demo_license_task i = (plain_task i ''t'')\<lparr>t_project := ''p''\<rparr>"

theorem license_admission_no_oversubscription_witness:
  "1 + claims_cost ''hfss'' (license_admission_claims (license_admit_all demo_license_config
      [(100, 12), (101, 13), (102, 14)] None
      [(demo_license_task 1, ''k1''), (demo_license_task 2, ''k2''), (demo_license_task 3, ''k3'')] demo_license_state)) \<le> 5
   \<and> claims_cost ''hfss'' (license_admission_claims (license_admit_all demo_license_config
      [(100, 12)] None [(demo_license_task 1, ''k1'')] demo_license_state)) = 2"
proof -
  have "license_config_wf demo_license_config" by code_simp
  moreover have "license_usage demo_license_state = Some demo_snapshot" "ls_features demo_snapshot = Some demo_features"
    by (simp_all add: demo_license_state_def demo_snapshot_def)
  moreover have "snapshot_counts demo_features ''hfss'' = Some (1, 5)" by code_simp
  moreover have "1 + claims_cost ''hfss'' (license_admission_claims demo_license_state) \<le> 5" by code_simp
  ultimately have "1 + claims_cost ''hfss'' (license_admission_claims (license_admit_all demo_license_config
      [(100, 12), (101, 13), (102, 14)] None
      [(demo_license_task 1, ''k1''), (demo_license_task 2, ''k2''), (demo_license_task 3, ''k3'')] demo_license_state)) \<le> 5"
    by (intro license_admission_no_oversubscription [where items = demo_features])
      (simp_all add: demo_license_state_def)
  moreover have "claims_cost ''hfss'' (license_admission_claims (license_admit_all demo_license_config
      [(100, 12)] None [(demo_license_task 1, ''k1'')] demo_license_state)) = 2" by code_simp
  ultimately show ?thesis by blast
qed

definition demo_launched_state :: license_state where
  "demo_launched_state = license_mark_launch_started 1000000 demo_license_config (demo_license_task 1)
     (license_record_claim 900000 demo_license_config (demo_license_task 1) ''k1'' demo_license_state)"

theorem license_launched_claim_survives_witness:
  "\<exists>c'. map_of (license_admission_claims (fold (license_step demo_license_config)
        [MarkRunning 2000000 (demo_license_task 1), MarkTerminal (demo_license_task 1),
         PublishSnapshot 20 demo_snapshot 30000000] demo_launched_state)) ''k1'' = Some c'
     \<and> lc_costs c' = [(''hfss'', 2)]"
proof -
  let ?c = "\<lparr>lc_task_id = 1, lc_project = ''p'', lc_costs = [(''hfss'', 2)], lc_state = ClaimAttaching,
     lc_claimed_at = 900000, lc_launch_started_at = Some 1000000, lc_running_at = None\<rparr>"
  have "map_of (license_admission_claims demo_launched_state) ''k1'' = Some ?c" by code_simp
  moreover have "claim_anchor ?c = Some 1000000" by code_simp
  moreover have "\<forall>ev \<in> set [MarkRunning 2000000 (demo_license_task 1), MarkTerminal (demo_license_task 1),
         PublishSnapshot 20 demo_snapshot 30000000]. within_window demo_license_config ''k1'' 1000000 ev"
    by (simp add: demo_license_config_def seconds_def)
  ultimately have "\<exists>c'. map_of (license_admission_claims (fold (license_step demo_license_config)
        [MarkRunning 2000000 (demo_license_task 1), MarkTerminal (demo_license_task 1),
         PublishSnapshot 20 demo_snapshot 30000000] demo_launched_state)) ''k1'' = Some c' \<and> lc_costs c' = lc_costs ?c"
    by (rule license_launched_claim_survives)
  then show ?thesis by simp
qed

theorem warm_spare_within_headroom_witness:
  "\<exists>r st'. aedt_pool_warm_spare_admission demo_license_config 12 None 9 demo_license_state = ((3, r), st')
     \<and> (3 :: int) \<le> max 0 9"
proof -
  have "fst (fst (aedt_pool_warm_spare_admission demo_license_config 12 None 9 demo_license_state)) = 3"
    by code_simp
  then have run: "\<exists>r st'. aedt_pool_warm_spare_admission demo_license_config 12 None 9 demo_license_state = ((3, r), st')"
    by (metis prod.collapse)
  have wf: "license_config_wf demo_license_config" by code_simp
  have "license_usage demo_license_state = Some demo_snapshot" "ls_features demo_snapshot = Some demo_features"
    by (simp_all add: demo_license_state_def demo_snapshot_def)
  then show ?thesis using run warm_spare_within_headroom [OF _ _ _ wf] by blast
qed

end
