(* ===== verification/Capacity.thy ===== *)
theory Capacity
  imports Task_Kind
begin

text \<open>
  \<open>Scheduler.recalculate_allocation_capacity\<close>: the free CPUs, memory and GPUs of the live allocations
  and their warm/active state, recomputed from the attaching and running tasks. The computation of
  the rows (\<open>capacity_rows\<close>, from one reading of the tables) and the batch write are separate, as
  other threads may write between the two.
\<close>

section \<open>Definitions\<close>

record alloc_stats =
  active_tasks :: int
  reserved_cpus :: int
  reserved_mem :: int
  reserved_gpus :: int

definition no_stats :: alloc_stats where
  "no_stats = \<lparr>active_tasks = 0, reserved_cpus = 0, reserved_mem = 0, reserved_gpus = 0\<rparr>"

definition add_task_stats :: "task_row \<Rightarrow> alloc_stats \<Rightarrow> alloc_stats" where
  "add_task_stats t s =
     (let s' = s\<lparr>active_tasks := active_tasks s + 1\<rparr> in
      if task_scheduling_profile t = FeaBursty then s'\<lparr>reserved_gpus := reserved_gpus s' + t_gpus t\<rparr>
      else s'\<lparr>reserved_cpus := reserved_cpus s' + t_cpus t, reserved_mem := reserved_mem s' + t_memory_mb t,
              reserved_gpus := reserved_gpus s' + t_gpus t\<rparr>)"

definition add_running :: "task_row \<Rightarrow> (int \<times> alloc_stats) list \<Rightarrow> (int \<times> alloc_stats) list" where
  "add_running t by_id =
     (if t_status t \<notin> {Attaching, Running} then by_id
      else (case t_allocation_id t of None \<Rightarrow> by_id
        | Some aid \<Rightarrow> if aid = 0 then by_id
                      else AList.update aid (add_task_stats t (dict_get by_id aid no_stats)) by_id))"

definition running_by_allocation :: "task_row list \<Rightarrow> (int \<times> alloc_stats) list" where
  "running_by_allocation tasks = fold add_running tasks []"

definition allocation_capacity :: "alloc_stats \<Rightarrow> alloc_row \<Rightarrow> capacity_row" where
  "allocation_capacity s a =
     \<lparr>c_id = a_id a,
      c_state = (if a_state a = Draining then Draining else if active_tasks s \<noteq> 0 then Active else Warm),
      c_free_cpus = max 0 (a_total_cpus a - reserved_cpus s),
      c_free_memory_mb = max 0 (a_total_memory_mb a - reserved_mem s),
      c_free_gpus = max 0 (a_total_gpus a - reserved_gpus s),
      c_active_tasks = active_tasks s\<rparr>"

definition capacity_tasks :: "db \<Rightarrow> int list option \<Rightarrow> task_row list" where
  "capacity_tasks d allocation_ids =
     (case allocation_ids of
        None \<Rightarrow> list_tasks_by_statuses d [Attaching, Running] 5000
      | Some ids \<Rightarrow> concat (map (list_live_task_claims_for_allocation d)
                          (sorted_set (filter (\<lambda>i. 0 < i) ids))))"

definition capacity_allocations :: "db \<Rightarrow> int list option \<Rightarrow> alloc_row list" where
  "capacity_allocations d allocation_ids =
     (case allocation_ids of
        None \<Rightarrow> list_allocations_with_live d 500 5000
      | Some ids \<Rightarrow> List.map_filter (get_allocation d) (sorted_set (filter (\<lambda>i. 0 < i) ids)))"

definition capacity_rows :: "db \<Rightarrow> int list option \<Rightarrow> capacity_row list" where
  "capacity_rows d allocation_ids =
     (let by_id = running_by_allocation (capacity_tasks d allocation_ids) in
      map (\<lambda>a. allocation_capacity (dict_get by_id (a_id a) no_stats) a)
        (filter (\<lambda>a. a_state a \<in> {Warm, Active, Draining}) (capacity_allocations d allocation_ids)))"

definition recalculate_allocation_capacity :: "int \<Rightarrow> int list option \<Rightarrow> db \<Rightarrow> db" where
  "recalculate_allocation_capacity now allocation_ids d =
     update_allocation_capacities now d (capacity_rows d allocation_ids)"

section \<open>Lemmas\<close>

text \<open>The tasks that hold capacity of an allocation, and the resources they reserve.\<close>

definition live_on :: "db \<Rightarrow> int \<Rightarrow> task_row list" where
  "live_on d aid = filter (\<lambda>t. t_allocation_id t = Some aid \<and> t_status t \<in> live_statuses) (db_tasks d)"

definition charge :: "(task_row \<Rightarrow> int) \<Rightarrow> task_row list \<Rightarrow> int" where
  "charge f ts = sum_list (map f (filter (\<lambda>t. \<not> task_is_fea_bursty t) ts))"

definition stats_of :: "task_row list \<Rightarrow> alloc_stats" where
  "stats_of ts = \<lparr>active_tasks = int (length ts), reserved_cpus = charge t_cpus ts,
     reserved_mem = charge t_memory_mb ts, reserved_gpus = sum_list (map t_gpus ts)\<rparr>"

lemma stats_of_snoc: "add_task_stats t (stats_of ts) = stats_of (ts @ [t])"
  by (auto simp: add_task_stats_def stats_of_def charge_def Let_def task_is_fea_bursty_def)

lemma running_by_allocation_stats:
  assumes "aid \<noteq> 0"
  shows "dict_get (running_by_allocation ts) aid no_stats
    = stats_of (filter (\<lambda>t. t_allocation_id t = Some aid \<and> t_status t \<in> live_statuses) ts)"
proof (induction ts rule: rev_induct)
  case Nil
  show ?case by (simp add: running_by_allocation_def stats_of_def charge_def no_stats_def)
next
  case (snoc t ts)
  have "dict_get (add_running t (running_by_allocation ts)) aid no_stats =
     (if t_allocation_id t = Some aid \<and> t_status t \<in> live_statuses
      then add_task_stats t (dict_get (running_by_allocation ts) aid no_stats)
      else dict_get (running_by_allocation ts) aid no_stats)"
    using assms by (auto simp: add_running_def live_statuses_def update_conv' split: option.splits)
  then show ?case using snoc by (simp add: running_by_allocation_def stats_of_snoc)
qed

lemma list_live_claims_filter:
  "filter (\<lambda>t. t_allocation_id t = Some aid \<and> t_status t \<in> live_statuses) (list_live_task_claims_for_allocation d j)
   = (if j = aid then list_live_task_claims_for_allocation d aid else [])"
  by (auto simp: list_live_task_claims_for_allocation_def filter_id_conv filter_empty_conv)

lemma filter_concat_one:
  assumes "distinct ids"
  shows "filter (\<lambda>t. t_allocation_id t = Some aid \<and> t_status t \<in> live_statuses)
      (concat (map (list_live_task_claims_for_allocation d) ids))
    = (if aid \<in> set ids then list_live_task_claims_for_allocation d aid else [])"
  using assms by (induction ids) (auto simp: list_live_claims_filter)

lemma stats_of_mset:
  assumes "mset xs = mset ys"
  shows "stats_of xs = stats_of ys"
proof -
  have "sum_list (map f (filter P xs)) = sum_list (map f (filter P ys))" for f :: "task_row \<Rightarrow> int" and P
    using assms by (metis mset_filter mset_map sum_mset_sum_list)
  moreover have "sum_list (map t_gpus xs) = sum_list (map t_gpus ys)"
    using assms by (metis mset_map sum_mset_sum_list)
  ultimately show ?thesis using mset_eq_length [OF assms] by (simp add: stats_of_def charge_def)
qed

lemma stats_scoped:
  assumes "0 < aid" and "aid \<in> set ids"
  shows "dict_get (running_by_allocation (capacity_tasks d (Some ids))) aid no_stats = stats_of (live_on d aid)"
proof -
  have "dict_get (running_by_allocation (capacity_tasks d (Some ids))) aid no_stats
      = stats_of (list_live_task_claims_for_allocation d aid)"
    using assms by (simp add: running_by_allocation_stats capacity_tasks_def filter_concat_one)
  also have "\<dots> = stats_of (live_on d aid)"
    by (rule stats_of_mset) (simp add: list_live_task_claims_for_allocation_def live_on_def)
  finally show ?thesis .
qed

lemma stats_global:
  assumes "0 < aid" and "length (filter (\<lambda>t. t_status t \<in> live_statuses) (db_tasks d)) \<le> 5000"
  shows "dict_get (running_by_allocation (capacity_tasks d None)) aid no_stats = stats_of (live_on d aid)"
proof -
  let ?l = "filter (\<lambda>t. t_status t \<in> set [Attaching, Running]) (sort_desc t_id (db_tasks d))"
  have "length ?l = length (filter (\<lambda>t. t_status t \<in> live_statuses) (db_tasks d))"
    by (metis (no_types, lifting) filter_cong live_statuses_def list.simps(15) empty_set mset_eq_length mset_filter mset_sort_desc)
  then have "capacity_tasks d None = ?l"
    using assms(2) by (simp add: capacity_tasks_def list_tasks_by_statuses_def)
  then have "dict_get (running_by_allocation (capacity_tasks d None)) aid no_stats
      = stats_of (filter (\<lambda>t. t_allocation_id t = Some aid \<and> t_status t \<in> live_statuses) ?l)"
    using assms(1) by (simp only: running_by_allocation_stats)
  also have "\<dots> = stats_of (live_on d aid)"
    by (rule stats_of_mset) (auto simp: live_on_def live_statuses_def intro!: filter_mset_cong)
  finally show ?thesis .
qed

text \<open>The batch write: each row of the snapshot is written to the allocation with its id.\<close>

lemma capacity_write:
  assumes "distinct (map c_id rows)"
  shows "get_allocation (update_allocation_capacities now d rows) j =
    (case find (\<lambda>c. c_id c = j) rows of
       None \<Rightarrow> get_allocation d j
     | Some c \<Rightarrow> map_option (write_capacity now c) (get_allocation d j))"
proof -
  have keep: "a_id (write_capacity now c r) = a_id r" for c r by (simp add: write_capacity_def)
  have "tbl_get a_id (fold (\<lambda>c as. tbl_update a_id as (c_id c) (write_capacity now c)) rows as) j =
     (case find (\<lambda>c. c_id c = j) rows of None \<Rightarrow> tbl_get a_id as j
      | Some c \<Rightarrow> map_option (write_capacity now c) (tbl_get a_id as j))" for as
    using assms
  proof (induction rows arbitrary: as)
    case (Cons c rows)
    have "find (\<lambda>x. c_id x = c_id c) rows = None" using Cons.prems by (auto simp: find_None_iff rev_image_eqI)
    with Cons show ?case
      by (auto simp: table.lookup_modify keep split: option.splits)
  qed simp
  then show ?thesis
    by (cases "rows = []") (simp_all add: get_allocation_def update_allocation_capacities_def split: option.splits)
qed

lemma capacity_rows_ids:
  "map c_id (capacity_rows d ids) = map a_id (filter (\<lambda>a. a_state a \<in> {Warm, Active, Draining}) (capacity_allocations d ids))"
  by (simp add: capacity_rows_def Let_def allocation_capacity_def comp_def)

lemma get_allocation_id: "get_allocation d i = Some a \<Longrightarrow> a_id a = i"
  by (auto simp: get_allocation_def dest: tbl_get_key)

lemma map_filter_ids: "map a_id (List.map_filter (get_allocation d) ids) = filter (\<lambda>i. get_allocation d i \<noteq> None) ids"
  by (induction ids) (auto simp: map_filter_simps get_allocation_id split: option.splits)

lemma capacity_allocations_scoped:
  "distinct (map a_id (capacity_allocations d (Some ids)))"
  "a \<in> set (capacity_allocations d (Some ids)) \<longleftrightarrow> get_allocation d (a_id a) = Some a \<and> a_id a \<in> set ids \<and> 0 < a_id a"
proof -
  show "distinct (map a_id (capacity_allocations d (Some ids)))"
    by (simp add: capacity_allocations_def map_filter_ids)
  show "a \<in> set (capacity_allocations d (Some ids)) \<longleftrightarrow> get_allocation d (a_id a) = Some a \<and> a_id a \<in> set ids \<and> 0 < a_id a"
  proof -
    have "set (List.map_filter f xs) = {y. \<exists>x \<in> set xs. f x = Some y}" for f :: "int \<Rightarrow> alloc_row option" and xs
      by (induction xs) (auto simp: map_filter_simps split: option.splits)
    then show ?thesis by (auto simp: capacity_allocations_def dest: get_allocation_id)
  qed
qed

lemma capacity_row_found:
  assumes "distinct (map a_id (capacity_allocations d ids))"
    and "a \<in> set (capacity_allocations d ids)" and "a_state a \<in> {Warm, Active, Draining}"
  shows "find (\<lambda>c. c_id c = a_id a) (capacity_rows d ids)
    = Some (allocation_capacity (dict_get (running_by_allocation (capacity_tasks d ids)) (a_id a) no_stats) a)"
proof -
  have gen: "find (\<lambda>c. c_id c = a_id a) (map (\<lambda>a. allocation_capacity (f a) a) (filter P as)) = Some (allocation_capacity (f a) a)"
    if "distinct (map a_id as)" "a \<in> set as" "P a" for as f and P :: "alloc_row \<Rightarrow> bool"
    using that by (induction as) (auto simp: allocation_capacity_def)
  show ?thesis
    unfolding capacity_rows_def Let_def using assms by (rule gen)
qed

text \<open>C25. Capacity accounting: after the capacity of a set of allocations is recomputed, each of them
  that is warm, active or draining has exactly its total resources minus what its live tasks
  reserve (FEA tasks reserve GPUs only), never below zero; it is active iff it holds a live task,
  a draining one stays draining; and a closed, closing, failed or pending one is unchanged.\<close>

theorem capacity_accounting:
  assumes "get_allocation d aid = Some a" and "0 < aid" and "aid \<in> set ids"
  shows "\<exists>a'. get_allocation (recalculate_allocation_capacity now (Some ids) d) aid = Some a'
    \<and> (if a_state a \<in> {Warm, Active, Draining}
       then a_free_cpus a' = max 0 (a_total_cpus a - charge t_cpus (live_on d aid))
          \<and> a_free_memory_mb a' = max 0 (a_total_memory_mb a - charge t_memory_mb (live_on d aid))
          \<and> a_free_gpus a' = max 0 (a_total_gpus a - sum_list (map t_gpus (live_on d aid)))
          \<and> a_state a' = (if a_state a = Draining then Draining else if live_on d aid \<noteq> [] then Active else Warm)
          \<and> a_total_cpus a' = a_total_cpus a \<and> a_slurm_job_id a' = a_slurm_job_id a
       else a' = a)"
proof -
  have id: "a_id a = aid" using assms(1) by (rule get_allocation_id)
  have dist: "distinct (map c_id (capacity_rows d (Some ids)))"
    using capacity_allocations_scoped(1) [of d ids] by (simp add: capacity_rows_ids distinct_map_filter)
  note saved = capacity_write [OF dist, of now d aid]
  show ?thesis
  proof (cases "a_state a \<in> {Warm, Active, Draining}")
    case True
    have "find (\<lambda>c. c_id c = aid) (capacity_rows d (Some ids)) = Some (allocation_capacity (stats_of (live_on d aid)) a)"
      using capacity_row_found [OF capacity_allocations_scoped(1), of a d ids] True assms id
      by (simp add: capacity_allocations_scoped(2) stats_scoped)
    then show ?thesis
      using saved assms(1) True
      by (auto simp: recalculate_allocation_capacity_def write_capacity_def allocation_capacity_def stats_of_def)
  next
    case False
    have "find (\<lambda>c. c_id c = aid) (capacity_rows d (Some ids)) = None"
    proof (rule ccontr)
      assume "find (\<lambda>c. c_id c = aid) (capacity_rows d (Some ids)) \<noteq> None"
      then have "aid \<in> set (map c_id (capacity_rows d (Some ids)))"
        by (auto simp: find_Some_iff)
      then have "aid \<in> a_id ` {b \<in> set (capacity_allocations d (Some ids)). a_state b \<in> {Warm, Active, Draining}}"
        unfolding capacity_rows_ids by simp
      then show False using False assms(1) by (auto simp: capacity_allocations_scoped(2))
    qed
    then show ?thesis using saved assms(1) False by (simp add: recalculate_allocation_capacity_def)
  qed
qed

lemma get_allocation_update:
  assumes "\<And>a. a_id (assign cols a) = a_id a" and "cols \<noteq> []"
  shows "get_allocation (update_allocation now d i cols) j =
    (if j = i then map_option (\<lambda>a. (assign cols a)\<lparr>a_updated_at := current_timestamp now\<rparr>) (get_allocation d i)
     else get_allocation d j)"
  using assms by (simp add: get_allocation_def update_allocation_def table.lookup_modify)

text \<open>The batch write is not conditional on the state it was computed from: when an allocation
  is closed (as the web or the lifecycle does) between the reading and the write of a concurrent
  recomputation, the write makes the closed row warm or active again.\<close>

theorem stale_capacity_write_revives_closed:
  assumes "get_allocation d aid = Some a" and "0 < aid" and "a_state a \<in> {Warm, Active}"
  shows "\<exists>a'. get_allocation (update_allocation_capacities now
        (update_allocation now d aid [a_state_update (\<lambda>_. Closed), a_closed_at_update (\<lambda>_. current_timestamp now)])
        (capacity_rows d (Some [aid]))) aid = Some a'
    \<and> a_state a' \<in> {Warm, Active} \<and> a_closed_at a' = current_timestamp now"
proof -
  have id: "a_id a = aid" using assms(1) by (rule get_allocation_id)
  have dist: "distinct (map c_id (capacity_rows d (Some [aid])))"
    using capacity_allocations_scoped(1) [of d "[aid]"] by (simp add: capacity_rows_ids distinct_map_filter)
  have "find (\<lambda>c. c_id c = aid) (capacity_rows d (Some [aid])) = Some (allocation_capacity (stats_of (live_on d aid)) a)"
    using capacity_row_found [OF capacity_allocations_scoped(1), of a d "[aid]"] assms id
    by (auto simp add: capacity_allocations_scoped(2) stats_scoped)
  then show ?thesis
    using capacity_write [OF dist] assms
    by (auto simp: get_allocation_update write_capacity_def allocation_capacity_def)
qed

definition capacity_db :: db where
  "capacity_db = empty_db
     \<lparr>db_tasks := [(plain_task 1 ''a'')\<lparr>t_status := Running, t_allocation_id := Some 7, t_cpus := 3\<rparr>,
                   (plain_task 2 ''b'')\<lparr>t_status := Running, t_allocation_id := Some 7, t_cpus := 2,
                      t_scheduling_profile := ''fea_bursty''\<rparr>],
      db_allocations := [(alloc_row_of 0 7 ''acct'' ''cpu'' ''n1'' 16 65536 0 [] ''cpu'' False [] [])\<lparr>a_state := Warm\<rparr>]\<rparr>"

theorem capacity_accounting_witness:
  "\<exists>a'. get_allocation (recalculate_allocation_capacity 9 (Some [7]) capacity_db) 7 = Some a'
     \<and> a_free_cpus a' = 13 \<and> a_state a' = Active"
proof -
  let ?a = "(alloc_row_of 0 7 ''acct'' ''cpu'' ''n1'' 16 65536 0 [] ''cpu'' False [] [])\<lparr>a_state := Warm\<rparr>"
  have "get_allocation capacity_db 7 = Some ?a" by code_simp
  from capacity_accounting [OF this, of "[7]" 9]
  obtain a' where "get_allocation (recalculate_allocation_capacity 9 (Some [7]) capacity_db) 7 = Some a'"
    "a_free_cpus a' = max 0 (a_total_cpus ?a - charge t_cpus (live_on capacity_db 7))"
    "a_state a' = (if live_on capacity_db 7 \<noteq> [] then Active else Warm)" by auto
  moreover have "max 0 (a_total_cpus ?a - charge t_cpus (live_on capacity_db 7)) = 13" by code_simp
  moreover have "live_on capacity_db 7 \<noteq> []" by code_simp
  ultimately show ?thesis by auto
qed

theorem stale_capacity_write_revives_closed_witness:
  "\<exists>a'. get_allocation (update_allocation_capacities 9
        (update_allocation 9 capacity_db 7 [a_state_update (\<lambda>_. Closed), a_closed_at_update (\<lambda>_. current_timestamp 9)])
        (capacity_rows capacity_db (Some [7]))) 7 = Some a'
    \<and> a_state a' \<in> {Warm, Active} \<and> a_closed_at a' = current_timestamp 9"
proof -
  let ?a = "(alloc_row_of 0 7 ''acct'' ''cpu'' ''n1'' 16 65536 0 [] ''cpu'' False [] [])\<lparr>a_state := Warm\<rparr>"
  have "get_allocation capacity_db 7 = Some ?a" by code_simp
  then show ?thesis by (rule stale_capacity_write_revives_closed) simp_all
qed

end
