(* ===== verification/Inventory.thy ===== *)
theory Inventory
  imports Prelude
begin

text \<open>
  \<open>slurm_scheduler/inventory.py\<close>: GPU model names, the parsers of Slurm's \<open>GRES\<close>, \<open>sinfo\<close> and
  \<open>scontrol show node\<close> texts, and the ranking of partitions. The regular expressions are written
  out as matchers on character lists; the repetition of each is followed by a character outside
  its class, so the greedy match is the only one and no backtracking is needed. A text that
  \<open>int(...)\<close> rejects makes the whole parse raise.
\<close>

section \<open>GPU models\<close>

definition gpu_priority :: "string \<Rightarrow> int" where
  "gpu_priority m = dict_get [(''a6000ada'', 400), (''a6000'', 300), (''rtx3090'', 200), (''a10'', 100)] m 0"

definition lower_alnum :: "char \<Rightarrow> bool" where
  "lower_alnum c = (let n = code c in (97 \<le> n \<and> n \<le> 122) \<or> (48 \<le> n \<and> n \<le> 57))"

definition canonical_gpu_model :: "string \<Rightarrow> string" where
  "canonical_gpu_model raw =
     (if raw = [] then []
      else if contains ''6000'' raw \<and> contains ''ada'' raw then ''a6000ada''
      else if contains ''a6000'' raw \<or> raw \<in> {''rtxa6000'', ''nvidiaa6000''} then ''a6000''
      else if contains ''3090'' raw then ''rtx3090''
      else if raw \<in> {''a10'', ''rtxa10'', ''nvidiaa10''} then ''a10''
      else raw)"

definition normalize_gpu_model :: "string \<Rightarrow> string" where
  "normalize_gpu_model model = canonical_gpu_model (filter lower_alnum (lower (strip model)))"

definition model_separator :: "char \<Rightarrow> bool" where
  "model_separator c = (py_space c \<or> c \<in> set '',;/|'')"

definition add_candidate :: "string \<Rightarrow> string list \<Rightarrow> string list" where
  "add_candidate part out =
     (let m = normalize_gpu_model part in if m \<noteq> [] \<and> m \<notin> set out then out @ [m] else out)"

definition gpu_model_candidates :: "string \<Rightarrow> string list" where
  "gpu_model_candidates models =
     (let candidates = fold add_candidate (split_by model_separator models) [] in
      if candidates = [] then add_candidate models [] else candidates)"

section \<open>GRES texts\<close>

text \<open>\<open>gpu(?::([^:,(]+))?:(\d+)\<close> at the start of a text: the model group, the digits and the rest.\<close>

definition count_suffix :: "string \<Rightarrow> (string \<times> string) option" where
  "count_suffix s = (case s of [] \<Rightarrow> None
     | c # cs \<Rightarrow> if c = CHR '':'' \<and> takeWhile is_digit cs \<noteq> []
                then Some (takeWhile is_digit cs, dropWhile is_digit cs) else None)"

definition model_char :: "char \<Rightarrow> bool" where
  "model_char c = (c \<notin> {CHR '':'', CHR '','', CHR ''(''})"

definition gres_match :: "string \<Rightarrow> (string \<times> string \<times> string) option" where
  "gres_match s =
     (if \<not> startswith s ''gpu'' then None
      else (let rest = drop 3 s;
                grouped = (case rest of [] \<Rightarrow> None
                  | c # cs \<Rightarrow> if c = CHR '':'' \<and> takeWhile model_char cs \<noteq> []
                    then map_option (\<lambda>(ds, r). (takeWhile model_char cs, ds, r)) (count_suffix (dropWhile model_char cs))
                    else None)
            in case grouped of Some m \<Rightarrow> Some m
               | None \<Rightarrow> map_option (\<lambda>(ds, r). ([], ds, r)) (count_suffix rest)))"

definition digits_int :: "string \<Rightarrow> int" where
  "digits_int ds = (case parse_nat ds of None \<Rightarrow> 0 | Some n \<Rightarrow> n)"

lemma length_dropWhile_digit: "count_suffix s = Some (ds, r) \<Longrightarrow> length r < length s"
  by (auto simp: count_suffix_def less_Suc_eq_le length_dropWhile_le split: list.splits if_splits)

lemma gres_match_shorter: "gres_match s = Some (m, ds, r) \<Longrightarrow> length r < length s"
proof -
  assume m: "gres_match s = Some (m, ds, r)"
  then have pre: "3 \<le> length s"
    by (auto simp: gres_match_def startswith_iff split: if_splits)
  have "length r < length (drop 3 s)"
    using m
    by (auto simp: gres_match_def Let_def length_drop [symmetric] simp del: length_drop
        split: if_splits option.splits list.splits dest!: length_dropWhile_digit
        intro: less_le_trans [OF _ le_SucI [OF length_dropWhile_le]])
  then show ?thesis using pre by simp
qed

function gres_matches :: "string \<Rightarrow> (string \<times> int) list" where
  "gres_matches s = (case gres_match s of
       Some (m, ds, r) \<Rightarrow> (m, digits_int ds) # gres_matches r
     | None \<Rightarrow> (case s of [] \<Rightarrow> [] | c # cs \<Rightarrow> gres_matches cs))"
  by pat_completeness auto

termination
  by (relation "measure length") (auto dest!: gres_match_shorter)

declare gres_matches.simps [simp del]

definition gres_step :: "string \<times> int \<Rightarrow> string \<times> int \<Rightarrow> string \<times> int" where
  "gres_step mc acc =
     (let model = normalize_gpu_model (fst mc); best = fst acc in
      (if gpu_priority best < gpu_priority model then model else if best = [] then model else best,
       snd acc + snd mc))"

definition parse_gres :: "string \<Rightarrow> string \<times> int" where
  "parse_gres gres =
     (if gres = [] \<or> gres = ''(null)'' then ([], 0) else fold gres_step (gres_matches gres) ([], 0))"

definition parse_gres_used :: "string \<Rightarrow> string \<Rightarrow> int" where
  "parse_gres_used gres_used default_model =
     (if gres_used = [] \<or> gres_used = ''(null)'' then 0
      else (let dflt = normalize_gpu_model default_model in
        fold (\<lambda>(m, count) used.
          let model = normalize_gpu_model (if m = [] then dflt else m) in
          if dflt \<noteq> [] \<and> model \<noteq> [] \<and> model \<noteq> dflt then used else used + count) (gres_matches gres_used) 0))"

text \<open>\<open>int(float(text))\<close> truncates towards zero.\<close>

definition truncate_rat :: "rat \<Rightarrow> int" where
  "truncate_rat r = (if 0 \<le> r then \<lfloor>r\<rfloor> else - \<lfloor>- r\<rfloor>)"

definition parse_alloc_tres_gpus :: "string \<Rightarrow> string \<Rightarrow> int" where
  "parse_alloc_tres_gpus alloc_tres default_model =
     (if alloc_tres = [] then 0
      else (let dflt = normalize_gpu_model default_model;
                tally = fold (\<lambda>item (generic, specific).
                  case cut_at (CHR ''='') item of None \<Rightarrow> (generic, specific)
                  | Some (k, raw) \<Rightarrow>
                      (case py_float raw of None \<Rightarrow> (generic, specific)
                       | Some v \<Rightarrow>
                           if k = ''gres/gpu'' then (generic + truncate_rat v, specific)
                           else if startswith k ''gres/gpu:'' then
                             (let model = normalize_gpu_model (drop 9 k) in
                              if dflt = [] \<or> model = dflt then (generic, specific + truncate_rat v)
                              else (generic, specific))
                           else (generic, specific)))
                  (split_on (CHR '','') alloc_tres) (0, 0)
            in if snd tally \<noteq> 0 then snd tally else fst tally))"

section \<open>Nodes\<close>

record node_inventory =
  ni_node_name :: string
  ni_partition :: string
  ni_cpus :: int
  ni_memory_mb :: int
  ni_gpu_model :: string
  ni_gpu_count :: int
  ni_gpu_used_count :: int
  ni_state :: string
  ni_cpu_model :: string
  ni_sockets :: int
  ni_cores_per_socket :: int
  ni_threads_per_core :: int
  ni_cpu_score :: int

text \<open>The CPU profile of a partition: model, sockets, cores per socket, threads per core, score.\<close>

definition cpu_profiles_by_partition :: "(string \<times> string \<times> int \<times> int \<times> int \<times> int) list" where
  "cpu_profiles_by_partition =
     [(''cpu1'', ''Intel(R) Xeon(R) Gold 6240R CPU @ 2.40GHz'', 2, 24, 1, 100),
      (''cpu2'', ''AMD EPYC 9755 128-Core Processor'', 2, 128, 1, 400),
      (''gpu1'', ''Intel(R) Xeon(R) Gold 6240R CPU @ 2.40GHz'', 2, 24, 1, 100),
      (''gpu2'', ''Intel(R) Xeon(R) Gold 6348 CPU @ 2.60GHz'', 2, 28, 1, 200),
      (''gpu3'', ''Intel(R) Xeon(R) Gold 6348 CPU @ 2.60GHz'', 2, 28, 1, 200),
      (''gpu5'', ''Intel(R) Xeon(R) Platinum 8358 CPU @ 2.60GHz'', 2, 32, 1, 300),
      (''gpu6'', ''Intel(R) Xeon(R) Gold 6240R CPU @ 2.40GHz'', 2, 24, 1, 100)]"

definition node_of :: "string \<Rightarrow> string \<Rightarrow> int \<Rightarrow> int \<Rightarrow> string \<times> int \<Rightarrow> int \<Rightarrow> string \<Rightarrow> node_inventory" where
  "node_of name partition0 cpus memory_mb gpu used state =
     (let (model, sockets, cores, threads, sc) = dict_get cpu_profiles_by_partition partition0 ([], 0, 0, 0, 0) in
      \<lparr>ni_node_name = name, ni_partition = partition0, ni_cpus = cpus, ni_memory_mb = memory_mb,
       ni_gpu_model = fst gpu, ni_gpu_count = snd gpu, ni_gpu_used_count = used, ni_state = state,
       ni_cpu_model = model, ni_sockets = sockets, ni_cores_per_socket = cores,
       ni_threads_per_core = threads, ni_cpu_score = sc\<rparr>)"

definition parse_sinfo_line :: "string \<Rightarrow> node_inventory option result" where
  "parse_sinfo_line line =
     (let parts = split_on (CHR ''|'') (strip line) in
      if length parts \<notin> {6, 7} then Inr None
      else (case (py_int (parts ! 2), py_int (parts ! 3)) of
          (Some cpus, Some memory_mb) \<Rightarrow>
            (let gpu = parse_gres (parts ! 4);
                 gres_used = (if length parts = 7 then parts ! 6 else []) in
             Inr (Some (node_of (parts ! 0) (rstrip_char (CHR ''*'') (parts ! 1)) cpus memory_mb gpu
                (parse_gres_used gres_used (fst gpu)) (lower (rstrip_char (CHR ''*'') (parts ! 5))))))
        | _ \<Rightarrow> Inl (ValueError ''int'')))"

text \<open>The nodes of all lines; the first line that raises makes the whole call raise.\<close>

fun collect_nodes :: "(string \<Rightarrow> node_inventory option result) \<Rightarrow> string list \<Rightarrow> node_inventory list result" where
  "collect_nodes f [] = Inr []"
| "collect_nodes f (l # ls) =
     (case f l of Inl e \<Rightarrow> Inl e
      | Inr node \<Rightarrow> (case collect_nodes f ls of Inl e \<Rightarrow> Inl e
          | Inr ns \<Rightarrow> Inr (case node of None \<Rightarrow> ns | Some n \<Rightarrow> n # ns)))"

definition parse_sinfo_nodes :: "string \<Rightarrow> node_inventory list result" where
  "parse_sinfo_nodes output = collect_nodes parse_sinfo_line (splitlines output)"

definition ascii_letter :: "char \<Rightarrow> bool" where
  "ascii_letter c = (let n = code c in (65 \<le> n \<and> n \<le> 90) \<or> (97 \<le> n \<and> n \<le> 122))"

definition field_char :: "char \<Rightarrow> bool" where
  "field_char c = (ascii_letter c \<or> is_digit c \<or> c = CHR ''_'')"

text \<open>\<open>findall(r"([A-Za-z][A-Za-z0-9_]*)=([^ ]*)")\<close>.\<close>

function scontrol_fields :: "string \<Rightarrow> (string \<times> string) list" where
  "scontrol_fields s = (case s of [] \<Rightarrow> []
     | c # cs \<Rightarrow>
         if ascii_letter c \<and> dropWhile field_char cs \<noteq> [] \<and> hd (dropWhile field_char cs) = CHR ''=''
         then (let r = tl (dropWhile field_char cs) in
               (c # takeWhile field_char cs, takeWhile (\<lambda>x. x \<noteq> CHR '' '') r)
                 # scontrol_fields (dropWhile (\<lambda>x. x \<noteq> CHR '' '') r))
         else scontrol_fields cs)"
  by pat_completeness auto

termination
proof (relation "measure length", goal_cases)
  case (2 s c cs r)
  have "length (dropWhile (\<lambda>x. x \<noteq> CHR '' '') r) \<le> length r" by (rule length_dropWhile_le)
  also have "length r \<le> length cs" using 2 length_dropWhile_le [of field_char cs] by simp
  finally show ?case using 2 by simp
qed auto

declare scontrol_fields.simps [simp del]

text \<open>\<open>a or b or c\<close> on texts of an optional key, and \<open>int(... or 0)\<close>.\<close>

definition text_or :: "(string \<times> string) list \<Rightarrow> string list \<Rightarrow> string" where
  "text_or fs ks = (case filter (\<lambda>v. v \<noteq> []) (map (\<lambda>k. dict_get fs k []) ks) of [] \<Rightarrow> [] | v # _ \<Rightarrow> v)"

definition int_or_zero :: "string \<Rightarrow> int option" where
  "int_or_zero v = (if v = [] then Some 0 else py_int v)"

definition parse_scontrol_line :: "string \<Rightarrow> node_inventory option result" where
  "parse_scontrol_line raw =
     (let fs = fold (\<lambda>(k, v) out. AList.update k v out) (scontrol_fields (strip raw)) [];
          name = dict_get fs ''NodeName'' [] in
      if name = [] then Inr None
      else (let partitions = text_or fs [''Partitions'', ''PartitionName''];
                partition0 = rstrip_char (CHR ''*'') (hd (split_on (CHR '','') partitions));
                gpu = parse_gres (dict_get fs ''Gres'' []);
                used = parse_gres_used (dict_get fs ''GresUsed'' []) (fst gpu);
                used' = (if used \<noteq> 0 then used
                         else parse_alloc_tres_gpus (dict_get fs ''AllocTRES'' []) (fst gpu));
                state = lower (hd (split_on (CHR ''+'') (dict_get fs ''State'' []))) in
        (case (int_or_zero (text_or fs [''CPUTot'', ''CPUs'']), int_or_zero (text_or fs [''RealMemory'', ''Memory''])) of
           (Some cpus, Some memory_mb) \<Rightarrow> Inr (Some (node_of name partition0 cpus memory_mb gpu used' state))
         | _ \<Rightarrow> Inl (ValueError ''int''))))"

definition parse_scontrol_nodes :: "string \<Rightarrow> node_inventory list result" where
  "parse_scontrol_nodes output = collect_nodes parse_scontrol_line (splitlines output)"

section \<open>Partition ranking\<close>

record partition_summary =
  sm_partition :: string
  sm_nodes :: int
  sm_available_nodes :: int
  sm_max_cpus :: int
  sm_max_memory_mb :: int
  sm_gpu_model :: string
  sm_gpu_count_per_node :: int
  sm_total_gpus :: int
  sm_used_gpus :: int
  sm_free_gpus :: int
  sm_gpu_score :: int
  sm_cpu_model :: string
  sm_cpu_score :: int
  sm_sockets :: int
  sm_cores_per_socket :: int
  sm_threads_per_core :: int

definition blank_summary :: "string \<Rightarrow> partition_summary" where
  "blank_summary p = \<lparr>sm_partition = p, sm_nodes = 0, sm_available_nodes = 0, sm_max_cpus = 0,
     sm_max_memory_mb = 0, sm_gpu_model = [], sm_gpu_count_per_node = 0, sm_total_gpus = 0, sm_used_gpus = 0,
     sm_free_gpus = 0, sm_gpu_score = 0, sm_cpu_model = [], sm_cpu_score = 0, sm_sockets = 0,
     sm_cores_per_socket = 0, sm_threads_per_core = 0\<rparr>"

definition node_available :: "node_inventory \<Rightarrow> bool" where
  "node_available n = (ni_state n \<in> {''idle'', ''mix'', ''mixed''})"

definition summarize_node :: "node_inventory \<Rightarrow> partition_summary \<Rightarrow> partition_summary" where
  "summarize_node n s =
     (let used = min (ni_gpu_count n) (max 0 (ni_gpu_used_count n));
          s1 = s\<lparr>sm_nodes := sm_nodes s + 1,
                 sm_available_nodes := sm_available_nodes s + (if node_available n then 1 else 0),
                 sm_max_cpus := max (sm_max_cpus s) (ni_cpus n),
                 sm_max_memory_mb := max (sm_max_memory_mb s) (ni_memory_mb n),
                 sm_total_gpus := sm_total_gpus s + ni_gpu_count n,
                 sm_used_gpus := sm_used_gpus s + used,
                 sm_free_gpus := sm_free_gpus s + (if node_available n then max 0 (ni_gpu_count n - used) else 0)\<rparr>;
          s2 = (if sm_gpu_score s < gpu_priority (ni_gpu_model n)
                then s1\<lparr>sm_gpu_model := ni_gpu_model n, sm_gpu_count_per_node := ni_gpu_count n,
                        sm_gpu_score := gpu_priority (ni_gpu_model n)\<rparr> else s1)
      in if sm_cpu_score s < ni_cpu_score n
         then s2\<lparr>sm_cpu_score := ni_cpu_score n, sm_cpu_model := ni_cpu_model n, sm_sockets := ni_sockets n,
                 sm_cores_per_socket := ni_cores_per_socket n, sm_threads_per_core := ni_threads_per_core n\<rparr>
         else s2)"

definition partition_summaries :: "node_inventory list \<Rightarrow> (string \<times> partition_summary) list" where
  "partition_summaries rows =
     fold (\<lambda>n out. AList.update (ni_partition n)
        (summarize_node n (dict_get out (ni_partition n) (blank_summary (ni_partition n)))) out) rows []"

definition partition_rank :: "node_inventory list \<Rightarrow> bool \<Rightarrow> partition_summary list" where
  "partition_rank rows needs_gpu =
     (let candidates = map snd (partition_summaries rows) in
      if needs_gpu
      then sort_desc (\<lambda>s. (sm_gpu_score s, sm_gpu_count_per_node s, sm_cpu_score s, sm_max_cpus s,
               sm_free_gpus s, sm_available_nodes s, sm_max_memory_mb s))
             (filter (\<lambda>s. 0 < sm_gpu_count_per_node s) candidates)
      else sort_desc (\<lambda>s. (sm_cpu_score s, sm_max_cpus s, sm_max_memory_mb s, sm_available_nodes s))
             (filter (\<lambda>s. sm_gpu_count_per_node s = 0) candidates))"

section \<open>Properties\<close>

lemma alnum_stable:
  assumes "\<forall>c \<in> set s. lower_alnum c"
  shows "filter lower_alnum (lower (strip s)) = s"
proof -
  have "strip s = s" using assms by (intro strip_none) (auto simp: lower_alnum_def py_space_def Let_def)
  moreover have "lower s = s"
    unfolding lower_def using assms by (intro map_idI) (auto simp: lower_alnum_def lower_char_def Let_def)
  ultimately show ?thesis using assms by (simp add: filter_id_conv)
qed

lemma canonical_cases:
  "canonical_gpu_model raw \<in> {''a6000ada'', ''a6000'', ''rtx3090'', ''a10'', []} \<or> canonical_gpu_model raw = raw"
  unfolding canonical_gpu_model_def by (auto simp del: contains.simps)

lemma normalize_alnum: "\<forall>c \<in> set (normalize_gpu_model m). lower_alnum c"
proof -
  let ?raw = "filter lower_alnum (lower (strip m))"
  have fixed: "\<forall>s \<in> {''a6000ada'', ''a6000'', ''rtx3090'', ''a10'', []}. \<forall>c \<in> set s. lower_alnum c" by code_simp
  have raw: "\<forall>c \<in> set ?raw. lower_alnum c" by simp
  from canonical_cases [of ?raw] show ?thesis
    unfolding normalize_gpu_model_def
  proof
    assume "canonical_gpu_model ?raw = ?raw"
    then show "\<forall>c \<in> set (canonical_gpu_model ?raw). lower_alnum c" using raw by (simp only:)
  qed (use fixed in blast)
qed

lemma normalize_idem: "normalize_gpu_model (normalize_gpu_model m) = normalize_gpu_model m"
proof -
  have fixed: "\<forall>s \<in> {''a6000ada'', ''a6000'', ''rtx3090'', ''a10'', []}. normalize_gpu_model s = s" by code_simp
  let ?raw = "filter lower_alnum (lower (strip m))"
  have "normalize_gpu_model ?raw = canonical_gpu_model ?raw"
    using alnum_stable [of ?raw] by (simp add: normalize_gpu_model_def)
  then show ?thesis
    using canonical_cases [of ?raw] fixed unfolding normalize_gpu_model_def by metis
qed

text \<open>C40. GPU model names are canonical: normalising is idempotent, the result consists of lower-case
  letters and digits only, and candidates extracted from a request are distinct canonical names.\<close>

theorem gpu_model_canonical:
  "normalize_gpu_model (normalize_gpu_model m) = normalize_gpu_model m
   \<and> (\<forall>c \<in> set (normalize_gpu_model m). lower_alnum c)
   \<and> distinct (gpu_model_candidates ms)
   \<and> (\<forall>x \<in> set (gpu_model_candidates ms). x \<noteq> [] \<and> normalize_gpu_model x = x)"
proof -
  define ok where "ok out \<longleftrightarrow> distinct out \<and> (\<forall>x \<in> set out. x \<noteq> [] \<and> normalize_gpu_model x = x)" for out
  have step: "ok out \<Longrightarrow> ok (add_candidate part out)" for part out
    by (auto simp: ok_def add_candidate_def Let_def normalize_idem)
  have "ok out \<Longrightarrow> ok (fold add_candidate parts out)" for parts out
    by (induction parts arbitrary: out) (simp_all add: step)
  then have "ok (gpu_model_candidates ms)"
    using step [of "[]"] by (auto simp: gpu_model_candidates_def Let_def ok_def [of "[]"])
  then show ?thesis using normalize_idem normalize_alnum by (simp add: ok_def)
qed

text \<open>GRES texts: what \<open>gpu:<model>:<count>\<close> items print as, and how they are read back.\<close>

definition print_gres_item :: "string \<times> nat \<Rightarrow> string" where
  "print_gres_item mc = ''gpu:'' @ fst mc @ '':'' @ show_nat (snd mc)"

definition print_gres :: "(string \<times> nat) list \<Rightarrow> string" where
  "print_gres items = join '','' (map print_gres_item items)"

lemma takeWhile_show: "takeWhile is_digit (show_nat n @ CHR '','' # s) = show_nat n"
  "dropWhile is_digit (show_nat n @ CHR '','' # s) = CHR '','' # s"
  "takeWhile is_digit (show_nat n) = show_nat n" "dropWhile is_digit (show_nat n) = []"
proof -
  have "\<not> is_digit (CHR '','')" by code_simp
  then show "takeWhile is_digit (show_nat n @ CHR '','' # s) = show_nat n"
    "dropWhile is_digit (show_nat n @ CHR '','' # s) = CHR '','' # s"
    using show_nat_digits by (simp_all add: takeWhile_append2 dropWhile_append2)
  show "takeWhile is_digit (show_nat n) = show_nat n" "dropWhile is_digit (show_nat n) = []"
    using show_nat_digits by (auto simp: takeWhile_eq_all_conv dropWhile_eq_Nil_conv)
qed

lemma gres_match_item:
  assumes "m \<noteq> []" and "\<forall>c \<in> set m. model_char c" and "s = [] \<or> (\<exists>t. s = CHR '','' # t)"
  shows "gres_match (print_gres_item (m, n) @ s) = Some (m, show_nat n, s)"
proof -
  have tw: "takeWhile model_char (m @ CHR '':'' # r) = m" "dropWhile model_char (m @ CHR '':'' # r) = CHR '':'' # r" for r
    using assms(2) by (simp_all add: takeWhile_append2 dropWhile_append2 model_char_def)
  have cs: "count_suffix (CHR '':'' # show_nat n @ s) = Some (show_nat n, s)"
    using assms(3) by (auto simp: count_suffix_def takeWhile_show)
  show ?thesis
    using assms(1) tw [of "show_nat n @ s"] cs
    by (simp add: print_gres_item_def gres_match_def startswith_def Let_def)
qed

lemma digits_int_show [simp]: "digits_int (show_nat n) = int n"
  by (simp add: digits_int_def)

lemma gres_matches_comma: "gres_matches (CHR '','' # s) = gres_matches s"
  by (subst gres_matches.simps) (simp add: gres_match_def startswith_def)

lemma gres_matches_Nil [simp]: "gres_matches [] = []"
  by (subst gres_matches.simps) (simp add: gres_match_def startswith_def)

lemma print_gres_Cons: "print_gres (x # y # items) = print_gres_item x @ CHR '','' # print_gres (y # items)"
  by (simp add: print_gres_def join_def)

lemma gres_matches_print:
  assumes "\<forall>(m, n) \<in> set items. m \<noteq> [] \<and> (\<forall>c \<in> set m. model_char c)"
  shows "gres_matches (print_gres items) = map (\<lambda>(m, n). (m, int n)) items"
  using assms
proof (induction items rule: induct_list012)
  case 1
  show ?case by (simp add: print_gres_def join_def)
next
  case (2 x)
  obtain m n where x: "x = (m, n)" by (cases x)
  have "gres_match (print_gres_item (m, n) @ []) = Some (m, show_nat n, [])"
    using 2 x by (intro gres_match_item) auto
  then show ?case by (subst gres_matches.simps) (simp add: x print_gres_def join_def)
next
  case (3 x y zs)
  obtain m n where x: "x = (m, n)" by (cases x)
  have "gres_match (print_gres (x # y # zs)) = Some (m, show_nat n, CHR '','' # print_gres (y # zs))"
    unfolding print_gres_Cons x using 3 x by (intro gres_match_item) auto
  then show ?case using 3 by (subst gres_matches.simps) (simp add: x gres_matches_comma)
qed

lemma gres_fold_total: "snd (fold gres_step ms acc) = snd acc + sum_list (map snd ms)"
  by (induction ms arbitrary: acc) (simp_all add: gres_step_def Let_def)

lemma gres_step_best:
  "gpu_priority (fst acc) \<le> gpu_priority (fst (gres_step mc acc))"
  "gpu_priority (normalize_gpu_model (fst mc)) \<le> gpu_priority (fst (gres_step mc acc))"
  by (auto simp: gres_step_def Let_def gpu_priority_def)

lemma gres_fold_best:
  "gpu_priority (fst acc) \<le> gpu_priority (fst (fold gres_step ms acc))
   \<and> (\<forall>mc \<in> set ms. gpu_priority (normalize_gpu_model (fst mc)) \<le> gpu_priority (fst (fold gres_step ms acc)))"
proof (induction ms arbitrary: acc)
  case (Cons x ms)
  show ?case
    using Cons.IH [of "gres_step x acc"] gres_step_best [where acc = acc and mc = x] by (auto intro: order_trans)
qed simp



text \<open>The summaries: one per partition, with consistent GPU counts.\<close>

definition summary_wf :: "partition_summary \<Rightarrow> bool" where
  "summary_wf s = (0 \<le> sm_used_gpus s \<and> 0 \<le> sm_free_gpus s \<and> sm_used_gpus s + sm_free_gpus s \<le> sm_total_gpus s
     \<and> 0 \<le> sm_available_nodes s \<and> sm_available_nodes s \<le> sm_nodes s)"

lemma summarize_wf: "summary_wf s \<Longrightarrow> 0 \<le> ni_gpu_count n \<Longrightarrow> summary_wf (summarize_node n s)"
  by (auto simp: summary_wf_def summarize_node_def Let_def)

lemma summarize_partition [simp]: "sm_partition (summarize_node n s) = sm_partition s"
  by (simp add: summarize_node_def Let_def)

lemma partition_summaries_inv:
  assumes "\<forall>n \<in> set rows. 0 \<le> ni_gpu_count n"
  shows "distinct (map fst (partition_summaries rows))
    \<and> set (map fst (partition_summaries rows)) = ni_partition ` set rows
    \<and> (\<forall>(p, s) \<in> set (partition_summaries rows). sm_partition s = p \<and> summary_wf s)"
  using assms
proof (induction rows rule: rev_induct)
  case (snoc n rows)
  let ?d = "partition_summaries rows"
  let ?old = "dict_get ?d (ni_partition n) (blank_summary (ni_partition n))"
  have step: "partition_summaries (rows @ [n]) = AList.update (ni_partition n) (summarize_node n ?old) ?d"
    by (simp add: partition_summaries_def)
  have old: "sm_partition ?old = ni_partition n \<and> summary_wf ?old"
    using snoc by (auto simp: blank_summary_def summary_wf_def split: option.splits dest!: map_of_SomeD)
  have sub: "set (AList.update k v d) \<subseteq> insert (k, v) (set d)" for k and v :: partition_summary and d
    by (induction d) auto
  have "\<forall>(p, s) \<in> set (partition_summaries (rows @ [n])). sm_partition s = p \<and> summary_wf s"
    using snoc old summarize_wf [of ?old n] sub [of "ni_partition n" "summarize_node n ?old" ?d]
    unfolding step by fastforce
  then show ?case
    using snoc by (simp add: step distinct_update keys_update)
qed (simp add: partition_summaries_def)

lemma distinct_map_sort_desc: "distinct (map f (sort_desc k xs)) \<longleftrightarrow> distinct (map f xs)"
  by (rule mset_eq_imp_distinct_iff) simp

text \<open>Partition ranking: every ranked partition occurs in the inventory and is ranked once, its
  used plus free GPUs do not exceed its GPUs, and the list is in descending order of CPU score
  (GPU score when GPUs are required).\<close>

theorem partition_rank_correct:
  assumes "\<forall>n \<in> set rows. 0 \<le> ni_gpu_count n"
  shows "distinct (map sm_partition (partition_rank rows needs_gpu))
    \<and> set (map sm_partition (partition_rank rows needs_gpu)) \<subseteq> ni_partition ` set rows
    \<and> (\<forall>s \<in> set (partition_rank rows needs_gpu). summary_wf s \<and> (0 < sm_gpu_count_per_node s \<longrightarrow> needs_gpu))
    \<and> sorted_wrt (\<lambda>a b. if needs_gpu then sm_gpu_score b \<le> sm_gpu_score a else sm_cpu_score b \<le> sm_cpu_score a)
        (partition_rank rows needs_gpu)"
proof -
  let ?d = "partition_summaries rows"
  note inv = partition_summaries_inv [OF assms]
  have names: "map sm_partition (map snd ?d) = map fst ?d" using inv by auto
  have dist: "distinct (map sm_partition (filter P (map snd ?d)))" for P
    using inv names by (metis distinct_map_filter)
  have elems: "\<forall>s \<in> set (map snd ?d). sm_partition s \<in> ni_partition ` set rows \<and> summary_wf s"
  proof
    fix s assume "s \<in> set (map snd ?d)"
    then obtain q where q: "(q, s) \<in> set ?d" by auto
    then have "q \<in> set (map fst ?d)" by force
    then show "sm_partition s \<in> ni_partition ` set rows \<and> summary_wf s" using inv q by auto
  qed
  show ?thesis
  proof (cases needs_gpu)
    case True
    let ?key = "\<lambda>s. (sm_gpu_score s, sm_gpu_count_per_node s, sm_cpu_score s, sm_max_cpus s,
               sm_free_gpus s, sm_available_nodes s, sm_max_memory_mb s)"
    have eq: "partition_rank rows True = sort_desc ?key (filter (\<lambda>s. 0 < sm_gpu_count_per_node s) (map snd ?d))"
      by (simp add: partition_rank_def Let_def)
    have "sorted_wrt (\<lambda>a b. sm_gpu_score b \<le> sm_gpu_score a) (partition_rank rows True)"
      unfolding eq by (rule sorted_wrt_mono_rel [OF _ sorted_sort_desc]) auto
    moreover have "distinct (map sm_partition (partition_rank rows True))"
      unfolding eq distinct_map_sort_desc by (rule dist)
    moreover have "\<forall>s \<in> set (partition_rank rows True). s \<in> set (map snd ?d)" by (auto simp: eq)
    ultimately show ?thesis using True elems by auto
  next
    case False
    let ?key = "\<lambda>s. (sm_cpu_score s, sm_max_cpus s, sm_max_memory_mb s, sm_available_nodes s)"
    have eq: "partition_rank rows False = sort_desc ?key (filter (\<lambda>s. sm_gpu_count_per_node s = 0) (map snd ?d))"
      by (simp add: partition_rank_def Let_def)
    have "sorted_wrt (\<lambda>a b. sm_cpu_score b \<le> sm_cpu_score a) (partition_rank rows False)"
      unfolding eq by (rule sorted_wrt_mono_rel [OF _ sorted_sort_desc]) auto
    moreover have "distinct (map sm_partition (partition_rank rows False))"
      unfolding eq distinct_map_sort_desc by (rule dist)
    moreover have "\<forall>s \<in> set (partition_rank rows False). s \<in> set (map snd ?d) \<and> sm_gpu_count_per_node s = 0"
      by (auto simp: eq)
    ultimately show ?thesis using False elems by auto
  qed
qed

text \<open>A partition whose GPUs are all of a model without a priority is ranked as a CPU partition:
  it is never offered to a GPU request and is offered to a CPU request, although it has GPUs.\<close>

theorem unranked_gpu_partition_is_cpu:
  assumes "\<forall>n \<in> set rows. ni_partition n = p \<and> gpu_priority (ni_gpu_model n) = 0" and "rows \<noteq> []"
  shows "partition_rank rows True = [] \<and> map sm_partition (partition_rank rows False) = [p]
    \<and> map sm_total_gpus (partition_rank rows False) = [sum_list (map ni_gpu_count rows)]"
proof -
  have "\<forall>n \<in> set rows. ni_partition n = p \<and> gpu_priority (ni_gpu_model n) = 0 \<Longrightarrow>
    \<exists>s. partition_summaries rows = (if rows = [] then [] else [(p, s)]) \<and> sm_partition s = p
      \<and> sm_gpu_count_per_node s = 0 \<and> sm_gpu_score s = 0 \<and> sm_total_gpus s = sum_list (map ni_gpu_count rows)" for rows
  proof (induction rows rule: rev_induct)
    case Nil
    show ?case by (intro exI [of _ "blank_summary p"]) (simp add: partition_summaries_def blank_summary_def)
  next
    case (snoc n rows)
    then obtain s where s: "partition_summaries rows = (if rows = [] then [] else [(p, s)])" "sm_partition s = p"
      "sm_gpu_count_per_node s = 0" "sm_gpu_score s = 0" "sm_total_gpus s = sum_list (map ni_gpu_count rows)" by auto
    let ?s = "if rows = [] then blank_summary p else s"
    have "partition_summaries (rows @ [n]) = [(p, summarize_node n ?s)]"
      using s snoc.prems by (simp add: partition_summaries_def)
    then show ?case
      using s snoc.prems
      by (intro exI [of _ "summarize_node n ?s"]) (simp add: summarize_node_def Let_def blank_summary_def)
  qed
  from this [OF assms(1)] obtain s where "partition_summaries rows = [(p, s)]" "sm_partition s = p"
    "sm_gpu_count_per_node s = 0" "sm_total_gpus s = sum_list (map ni_gpu_count rows)" using assms(2) by auto
  then show ?thesis by (simp add: partition_rank_def Let_def sort_desc_def)
qed

definition demo_node :: "string \<Rightarrow> string \<Rightarrow> int \<Rightarrow> node_inventory" where
  "demo_node p gpu n = node_of ''n1'' p 64 512000 (gpu, n) 1 ''mix''"

theorem gpu_model_canonical_witness:
  "gpu_model_candidates ''RTX-3090, A6000 Ada'' = [''rtx3090'', ''a6000'', ''ada'']
   \<and> normalize_gpu_model (normalize_gpu_model ''NVIDIA A6000'') = normalize_gpu_model ''NVIDIA A6000''
   \<and> list_all lower_alnum (normalize_gpu_model ''NVIDIA A6000'')"
proof -
  have "gpu_model_candidates ''RTX-3090, A6000 Ada'' = [''rtx3090'', ''a6000'', ''ada'']" by code_simp
  then show ?thesis using gpu_model_canonical [of "''NVIDIA A6000''"] by (simp add: list_all_iff)
qed

theorem partition_rank_correct_witness:
  "distinct (map sm_partition (partition_rank [demo_node ''gpu1'' ''a6000'' 4, demo_node ''cpu2'' [] 0] False))"
proof -
  have "\<forall>n \<in> set [demo_node ''gpu1'' ''a6000'' 4, demo_node ''cpu2'' [] 0]. 0 \<le> ni_gpu_count n" by code_simp
  from partition_rank_correct [OF this, of False] show ?thesis by blast
qed

theorem unranked_gpu_partition_is_cpu_witness:
  "partition_rank [demo_node ''gpu9'' ''h100'' 8] True = []
   \<and> map sm_partition (partition_rank [demo_node ''gpu9'' ''h100'' 8] False) = [''gpu9'']"
proof -
  have "\<forall>n \<in> set [demo_node ''gpu9'' ''h100'' 8]. ni_partition n = ''gpu9'' \<and> gpu_priority (ni_gpu_model n) = 0"
    by code_simp
  from unranked_gpu_partition_is_cpu [OF this] show ?thesis by simp
qed

end
