(* ===== verification/Slurm_Output.thy ===== *)
theory Slurm_Output
  imports Models Inventory
begin

text \<open>
  The texts Slurm prints, as \<open>slurm_scheduler/slurm.py\<close> reads them: the tables of \<open>squeue\<close>,
  \<open>sacct\<close> and \<open>sstat\<close>, the batched task probes, the answer of \<open>sbatch\<close> and the quota records
  of \<open>mmlsquota -Y\<close>. A dict is an association list, a text that \<open>int\<close> or \<open>float\<close> rejects takes the branch
  of the exception, and the regular expressions are written out as searches.
\<close>

section \<open>Results of remote commands\<close>

record command_result =
  cr_stdout :: string
  cr_stderr :: string
  cr_exit_code :: int

definition text_or :: "string \<Rightarrow> string \<Rightarrow> string" where
  "text_or a b = (if a = [] then b else a)"

definition command_failure_message :: "command_result \<Rightarrow> string \<Rightarrow> string" where
  "command_failure_message r fallback = text_or (text_or (strip (cr_stderr r)) (strip (cr_stdout r))) fallback"

section \<open>States of jobs and tasks\<close>

record job_state_info =
  ji_status :: job_status
  ji_raw_state :: string
  ji_pending_reason :: string
  ji_node_name :: string
  ji_partition :: string
  ji_missing :: bool

definition job_state :: "job_status \<Rightarrow> string \<Rightarrow> job_state_info" where
  "job_state status raw = \<lparr>ji_status = status, ji_raw_state = raw, ji_pending_reason = [], ji_node_name = [],
     ji_partition = [], ji_missing = False\<rparr>"

record task_probe =
  tp_status :: job_status
  tp_exit_code :: "int option"

definition map_slurm_state :: "string \<Rightarrow> job_status" where
  "map_slurm_state state =
     (if state \<in> {''R'', ''RUNNING'', ''CF'', ''CONFIGURING'', ''CG'', ''COMPLETING''} then JRunning
      else if state \<in> {''PD'', ''PENDING''} then JSubmitted
      else if state \<in> {''CD'', ''COMPLETED''} then JCompleted
      else if state \<in> {''CA'', ''CANCELLED''} then JCancelled
      else if state \<in> {''F'', ''FAILED'', ''TO'', ''TIMEOUT'', ''NF'', ''NODE_FAIL'', ''OOM'', ''OUT_OF_MEMORY''} then JFailed
      else JSubmitted)"

section \<open>The queue\<close>

definition no_node :: "string set" where
  "no_node = {''(None)'', ''N/A'', ''None''}"

definition part_at :: "string list \<Rightarrow> nat \<Rightarrow> string" where
  "part_at parts i = (if i < length parts then strip (parts ! i) else [])"

definition squeue_line :: "string \<Rightarrow> (string \<times> string \<times> string \<times> string \<times> string) option" where
  "squeue_line line =
     (let parts = split_on (CHR ''|'') (strip line) in
      if length parts < 2 \<or> part_at parts 0 = [] then None
      else Some (part_at parts 0, part_at parts 1, part_at parts 2,
                 if part_at parts 3 \<in> no_node then [] else part_at parts 3, part_at parts 4))"

definition parse_squeue_table :: "string \<Rightarrow> (string \<times> string \<times> string \<times> string \<times> string) list" where
  "parse_squeue_table output =
     fold (\<lambda>line table. case squeue_line line of None \<Rightarrow> table | Some (job, row) \<Rightarrow> AList.update job row table)
       (splitlines output) []"

definition parse_squeue_counts :: "string \<Rightarrow> int \<times> int" where
  "parse_squeue_counts output =
     fold (\<lambda>line (running, pending).
         if strip line \<in> {''R'', ''RUNNING''} then (running + 1, pending)
         else if strip line \<in> {''PD'', ''PENDING''} then (running, pending + 1) else (running, pending))
       (splitlines output) (0, 0)"

definition parse_sacct_states :: "string \<Rightarrow> (string \<times> string) list" where
  "parse_sacct_states output =
     fold (\<lambda>line states. case split_ws line of
           job # state # _ \<Rightarrow> if CHR ''.'' \<in> set job then states else AList.update job state states
         | _ \<Rightarrow> states)
       (splitlines output) []"

section \<open>Processor time\<close>

fun floats :: "string list \<Rightarrow> rat list option" where
  "floats [] = Some []"
| "floats (w # ws) = (case (py_float w, floats ws) of (Some x, Some xs) \<Rightarrow> Some (x # xs) | _ \<Rightarrow> None)"

definition parse_cpu_time_seconds :: "string \<Rightarrow> rat" where
  "parse_cpu_time_seconds value =
     (let text = strip value;
          clock = (\<lambda>days rest. case floats (split_on (CHR '':'') rest) of None \<Rightarrow> 0
                     | Some ns \<Rightarrow> days * 86400 + fold (\<lambda>n s. s * 60 + n) ns 0) in
      if text = [] then 0
      else case cut_at (CHR ''-'') text of
        None \<Rightarrow> clock 0 text
      | Some (day_part, rest) \<Rightarrow> (case py_float day_part of None \<Rightarrow> 0 | Some days \<Rightarrow> clock days rest))"

definition parse_sstat_cpu_seconds :: "string \<Rightarrow> (string \<times> rat) list" where
  "parse_sstat_cpu_seconds output =
     fold (\<lambda>line steps.
         let parts = split_on (CHR ''|'') (strip line);
             ntasks = (if part_at parts 2 = [] then 1
                       else case py_int (parts ! 2) of None \<Rightarrow> 1 | Some n \<Rightarrow> max 1 n) in
         if length parts < 2 \<or> part_at parts 0 = [] then steps
         else AList.update (part_at parts 0) (parse_cpu_time_seconds (parts ! 1) * of_int ntasks) steps)
       (splitlines output) []"

section \<open>Task probes\<close>

definition task_probe_from_value :: "string \<Rightarrow> task_probe" where
  "task_probe_from_value value =
     (if value = ''RUNNING'' then \<lparr>tp_status = JRunning, tp_exit_code = None\<rparr>
      else case py_int value of
        None \<Rightarrow> \<lparr>tp_status = JRunning, tp_exit_code = None\<rparr>
      | Some n \<Rightarrow> if n = 0 then \<lparr>tp_status = JCompleted, tp_exit_code = Some 0\<rparr>
                  else \<lparr>tp_status = JFailed, tp_exit_code = Some n\<rparr>)"

definition parse_task_probe_output :: "string \<Rightarrow> (int \<times> string) list" where
  "parse_task_probe_output output =
     fold (\<lambda>line probes. case cut_at (CHR ''|'') line of None \<Rightarrow> probes
         | Some (head, value) \<Rightarrow> (case py_int (strip head) of None \<Rightarrow> probes
             | Some i \<Rightarrow> AList.update i (strip value) probes))
       (splitlines output) []"

section \<open>Submission\<close>

text \<open>\<open>Submitted batch job\s+(\d+)\<close> at the start of a text, and its leftmost occurrence.\<close>

definition job_id_after :: "string \<Rightarrow> string option" where
  "job_id_after s =
     (let rest = dropWhile py_space s; digits = takeWhile is_digit rest in
      if length rest < length s \<and> digits \<noteq> [] then Some digits else None)"

fun find_job_id :: "string \<Rightarrow> string option" where
  "find_job_id [] = None"
| "find_job_id (c # cs) =
     (if startswith (c # cs) ''Submitted batch job''
      then (case job_id_after (drop 19 (c # cs)) of Some d \<Rightarrow> Some d | None \<Rightarrow> find_job_id cs)
      else find_job_id cs)"

definition parse_sbatch_job_id :: "string \<Rightarrow> string result" where
  "parse_sbatch_job_id output =
     (case find_job_id output of Some d \<Rightarrow> Inr d
      | None \<Rightarrow> Inl (ValueError (''could not parse sbatch output: '' @ output)))"

definition parse_du_gb :: "string \<Rightarrow> rat result" where
  "parse_du_gb output =
     (case splitlines output of [] \<Rightarrow> Inl IndexError
      | line # _ \<Rightarrow> (case split_ws line of [] \<Rightarrow> Inl IndexError
          | w # _ \<Rightarrow> (case py_int w of None \<Rightarrow> Inl (ValueError w) | Some n \<Rightarrow> Inr (of_int n / 1024 / 1024))))"

definition gpu_gres_value :: "string \<Rightarrow> int \<Rightarrow> string" where
  "gpu_gres_value model gpus =
     (if gpus \<le> 0 then []
      else if normalize_gpu_model model \<noteq> [] then ''gpu:'' @ normalize_gpu_model model @ '':'' @ show_int gpus
      else ''gpu:'' @ show_int gpus)"

section \<open>Quotas\<close>

record gpfs_block_quota =
  q_filesystem_name :: string
  q_block_used_gb :: rat
  q_block_in_doubt_gb :: rat
  q_block_limit_gb :: rat
  q_quota_type :: string
  q_fileset_name :: string

definition effective_used_gb :: "gpfs_block_quota \<Rightarrow> rat" where
  "effective_used_gb q = q_block_used_gb q + max 0 (q_block_in_doubt_gb q)"

definition quota_free_gb :: "gpfs_block_quota \<Rightarrow> rat option" where
  "quota_free_gb q = (if q_block_limit_gb q \<le> 0 then None else Some (q_block_limit_gb q - effective_used_gb q))"

record storage_quota_probe =
  sp_filesystem_type :: string
  sp_quota :: "gpfs_block_quota option"
  sp_error :: string
  sp_fileset_name :: string
  sp_user_quota_scope :: string

text \<open>\<open>upper\<close> on the letters that can form the names of the quota types.\<close>

definition upper_ascii :: "string \<Rightarrow> string" where
  "upper_ascii s = map (\<lambda>c. let n = code c in if 97 \<le> n \<and> n \<le> 122 then char_of (n - 32) else c) s"

definition quota_cells :: "string \<Rightarrow> string list option" where
  "quota_cells line =
     (let cells = split_on (CHR '':'') (rstrip_by py_space line) in
      if length cells < 4 \<or> cells ! 0 \<noteq> ''mmlsquota'' then None else Some cells)"

definition header_indices :: "string list \<Rightarrow> (string \<times> nat) list" where
  "header_indices cells =
     fold (\<lambda>(i, name) acc. if name = [] then acc else AList.update name i acc) (enumerate 0 cells) []"

definition quota_headers :: "string list list \<Rightarrow> (string \<times> (string \<times> nat) list) list" where
  "quota_headers records =
     fold (\<lambda>cells acc. if cells ! 2 = ''HEADER'' then AList.update (cells ! 1) (header_indices cells) acc else acc)
       records []"

definition quota_required :: "string list" where
  "quota_required = [''filesystemName'', ''quotaType'', ''blockUsage'', ''blockQuota'', ''blockLimit'', ''blockInDoubt'']"

text \<open>The named column of a record, when the header names it and the record is long enough.\<close>

definition column :: "(string \<times> nat) list \<Rightarrow> string list \<Rightarrow> string \<Rightarrow> string option" where
  "column indices cells name =
     (case map_of indices name of None \<Rightarrow> None | Some i \<Rightarrow> if i < length cells then Some (cells ! i) else None)"

definition quota_of :: "(string \<times> nat) list \<Rightarrow> string list \<Rightarrow> gpfs_block_quota option" where
  "quota_of indices cells =
     (if list_ex (\<lambda>name. column indices cells name = None) quota_required then None
      else let get = (\<lambda>name. case column indices cells name of None \<Rightarrow> [] | Some v \<Rightarrow> v);
               kind = upper_ascii (strip (get ''quotaType'')) in
        if kind \<notin> {''USR'', ''FILESET''} then None
        else case (py_float (get ''blockUsage''), py_float (get ''blockQuota''), py_float (get ''blockLimit''), py_float (get ''blockInDoubt'')) of
          (Some used, Some soft, Some hard, Some in_doubt) \<Rightarrow>
            Some \<lparr>q_filesystem_name = strip (get ''filesystemName''), q_block_used_gb = used / 1024 / 1024,
              q_block_in_doubt_gb = in_doubt / 1024 / 1024,
              q_block_limit_gb = (if 0 < hard then hard else soft) / 1024 / 1024,
              q_quota_type = kind, q_fileset_name = strip (get ''filesetname'')\<rparr>
        | _ \<Rightarrow> None)"

definition parse_mmlsquota_y :: "string \<Rightarrow> gpfs_block_quota list" where
  "parse_mmlsquota_y output =
     (let records = List.map_filter quota_cells (splitlines output); headers = quota_headers records in
      List.map_filter (\<lambda>cells. case map_of headers (cells ! 1) of None \<Rightarrow> None | Some indices \<Rightarrow> quota_of indices cells)
        (filter (\<lambda>cells. cells ! 2 \<noteq> ''HEADER'') records))"

definition fs_marker :: string where
  "fs_marker = ''__SLURM_SCHEDULER_FS_TYPE__:''"

definition fileset_marker :: string where
  "fileset_marker = ''__SLURM_SCHEDULER_FILESET__:''"

definition user_scope_marker :: string where
  "user_scope_marker = ''__SLURM_SCHEDULER_USER_QUOTA_SCOPE__:''"

record quota_markers =
  qm_seen :: bool
  qm_type :: string
  qm_fileset :: string
  qm_scope :: string

definition read_marker :: "string \<Rightarrow> quota_markers \<Rightarrow> quota_markers" where
  "read_marker line m =
     (if startswith line fs_marker then m\<lparr>qm_seen := True, qm_type := strip (drop (length fs_marker) line)\<rparr>
      else if startswith line fileset_marker then m\<lparr>qm_fileset := strip (drop (length fileset_marker) line)\<rparr>
      else if startswith line user_scope_marker then m\<lparr>qm_scope := strip (drop (length user_scope_marker) line)\<rparr>
      else m)"

definition probe_failed :: "string \<Rightarrow> string \<Rightarrow> string \<Rightarrow> string \<Rightarrow> storage_quota_probe" where
  "probe_failed fs error fileset scope = \<lparr>sp_filesystem_type = fs, sp_quota = None, sp_error = error,
     sp_fileset_name = fileset, sp_user_quota_scope = scope\<rparr>"

text \<open>The record with the least free space, the first one when none is limited.\<close>

definition tightest :: "gpfs_block_quota list \<Rightarrow> gpfs_block_quota option" where
  "tightest quotas =
     (case py_min (\<lambda>q. case quota_free_gb q of None \<Rightarrow> 0 | Some g \<Rightarrow> g) (filter (\<lambda>q. quota_free_gb q \<noteq> None) quotas) of
        Some q \<Rightarrow> Some q
      | None \<Rightarrow> (case quotas of [] \<Rightarrow> None | q # _ \<Rightarrow> Some q))"

definition workspace_quotas :: "quota_markers \<Rightarrow> string \<Rightarrow> gpfs_block_quota list" where
  "workspace_quotas m output =
     (let quotas = parse_mmlsquota_y output in
      if qm_scope m = ''filesystem''
      then filter (\<lambda>q. q_quota_type q \<noteq> ''USR'' \<or> q_fileset_name q = [] \<or> q_fileset_name q = qm_fileset m) quotas
      else quotas)"

definition storage_quota_probe_of :: "command_result \<Rightarrow> storage_quota_probe" where
  "storage_quota_probe_of r =
     (let m = fold read_marker (splitlines (cr_stdout r)) \<lparr>qm_seen = False, qm_type = [], qm_fileset = [], qm_scope = []\<rparr>;
          fs = qm_type m; fileset = qm_fileset m; scope = qm_scope m in
      if \<not> qm_seen m \<or> fs = [] then probe_failed fs (command_failure_message r ''storage filesystem type unavailable'') [] []
      else if \<not> startswith (lower fs) ''gpfs''
      then (if cr_exit_code r \<noteq> 0 then probe_failed fs (command_failure_message r ''storage filesystem probe failed'') [] []
            else probe_failed fs [] [] [])
      else if cr_exit_code r \<noteq> 0 then probe_failed fs (command_failure_message r ''mmlsquota failed'') fileset scope
      else if fileset = [] then probe_failed fs ''workspace GPFS fileset unavailable'' [] []
      else if scope \<notin> {''fileset'', ''filesystem''} then probe_failed fs ''workspace GPFS user quota scope unavailable'' fileset []
      else
        (let quotas = workspace_quotas m (cr_stdout r);
             missing = filter (\<lambda>k. k \<notin> set (map q_quota_type quotas)) [''FILESET'', ''USR''] in
         if quotas = [] then probe_failed fs ''mmlsquota returned no parseable block quota record'' fileset scope
         else if missing \<noteq> []
         then probe_failed fs (''mmlsquota returned no parseable '' @ join '','' missing @ '' quota record'') fileset scope
         else (probe_failed fs [] fileset scope)\<lparr>sp_quota := tightest quotas\<rparr>))"

end
