(* ===== verification/Lifecycle.thy ===== *)
theory Lifecycle
  imports License Capacity Slurm_Output
begin

text \<open>
  The life of an allocation in \<open>scheduler.py\<close>: \<open>refresh_allocations\<close> applies what Slurm reports,
  \<open>apply_allocation_lifecycle\<close> drains, expires and force-closes, \<open>close_allocation\<close> is the guarded
  shutdown every path goes through, and the back-off tables throttle new requests after a
  rejected one.

  The state is the database with the license claims, the three back-off tables (monotonic
  deadlines) and the log of the Slurm jobs for which \<open>scancel\<close> was issued. What the remote side
  answers (the live steps of a job, whether \<open>scancel\<close> fails) is the argument \<open>slurm_env\<close>.
\<close>

section \<open>State\<close>

record sched_state =
  ss_db :: db
  ss_license :: license_state
  ss_backoff_pool :: "(string \<times> rat) list"
  ss_backoff_node :: "((string \<times> string) \<times> rat) list"
  ss_backoff_shape :: "((string \<times> string) \<times> rat) list"
  ss_scancelled :: "string list"

record slurm_env =
  live_allocation_task_steps :: "string \<Rightarrow> string + string list"
  scancel :: "string \<Rightarrow> string option"

abbreviation on_db :: "(db \<Rightarrow> db) \<Rightarrow> sched_state \<Rightarrow> sched_state" where
  "on_db f s \<equiv> s\<lparr>ss_db := f (ss_db s)\<rparr>"

definition age_seconds :: "int \<Rightarrow> alloc_row \<Rightarrow> rat" where
  "age_seconds now a =
     (case timestamp (stamp_or (a_started_at a) (stamp_or (a_submitted_at a) (a_created_at a))) of
        None \<Rightarrow> 0 | Some t \<Rightarrow> max 0 (of_int (now - t) / 1000000))"

section \<open>Tasks that lose their allocation\<close>

text \<open>\<open>on_task_terminal\<close>: the license bookkeeping; the workspace clean-up it starts is remote I/O.\<close>

definition on_task_terminal :: "license_config \<Rightarrow> task_row \<Rightarrow> sched_state \<Rightarrow> sched_state" where
  "on_task_terminal lcfg t s = s\<lparr>ss_license := license_mark_terminal lcfg t (ss_license s)\<rparr>"

definition running_task_count :: "db \<Rightarrow> int \<Rightarrow> nat" where
  "running_task_count d aid =
     length (filter (\<lambda>t. t_allocation_id t = Some aid) (list_tasks_by_statuses d [Attaching, Running] 5000))"

definition failed_fields :: "int \<Rightarrow> string \<Rightarrow> task_field list" where
  "failed_fields now message = [t_status_update (\<lambda>_. Failed), t_failure_message_update (\<lambda>_. message),
     t_finished_at_update (\<lambda>_. current_timestamp now)]"

definition fail_running_tasks :: "license_config \<Rightarrow> int \<Rightarrow> int \<Rightarrow> string \<Rightarrow> sched_state \<Rightarrow> sched_state" where
  "fail_running_tasks lcfg now aid message s =
     fold (\<lambda>t s. on_task_terminal lcfg t (on_db (\<lambda>d. update_task now d (t_id t) (failed_fields now message)) s))
       (filter (\<lambda>t. t_allocation_id t = Some aid) (list_tasks_by_statuses (ss_db s) [Attaching, Running] 5000)) s"

section \<open>Closing\<close>

definition mark_active :: "int \<Rightarrow> alloc_row \<Rightarrow> db \<Rightarrow> db" where
  "mark_active now a d =
     (if a_state a = Warm
      then update_allocation now d (a_id a)
             [a_state_update (\<lambda>_. Active), a_last_active_at_update (\<lambda>_. current_timestamp now)]
      else d)"

definition close_allocation ::
  "sched_config \<Rightarrow> slurm_env \<Rightarrow> int \<Rightarrow> int \<Rightarrow> string \<Rightarrow> bool \<Rightarrow> bool \<Rightarrow> sched_state \<Rightarrow> sched_state \<times> bool" where
  "close_allocation cfg env now aid reason force allow_aedt_pool_owner s =
     (case get_allocation (ss_db s) aid of
        None \<Rightarrow> (s, False)
      | Some current \<Rightarrow>
          if a_state current \<in> {Closed, AFailed, Closing} then (s, False)
          else if \<not> force \<and> \<not> allow_aedt_pool_owner \<and> startswith (a_drain_reason current) ''AEDT pool'' then (s, False)
          else if \<not> force \<and> allocation_has_aedt_pool_claim (ss_db s) aid then (s, False)
          else if list_live_task_claims_for_allocation (ss_db s) aid \<noteq> [] \<and> \<not> force
          then (on_db (mark_active now current) s, False)
          else
            (let client = (if a_account_name current \<in> set (config_accounts cfg)
                           then (case a_slurm_job_id current of Some j \<Rightarrow> if j = [] then None else Some j | None \<Rightarrow> None)
                           else None);
                 finish = (\<lambda>s'. (on_db (\<lambda>d. record_event (update_allocation now d aid
                     [a_state_update (\<lambda>_. Closed), a_failure_message_update (\<lambda>_. []),
                      a_closed_at_update (\<lambda>_. current_timestamp now)]) ''allocation_closed'' ''allocation'' aid) s', True));
                 closing = on_db (\<lambda>d. update_allocation now d aid
                     [a_state_update (\<lambda>_. Closing), a_drain_reason_update (\<lambda>_. reason)]) s
             in case client of
                  None \<Rightarrow> finish closing
                | Some job \<Rightarrow>
                    (let issue = (case scancel env job of
                         Some exc \<Rightarrow> (on_db (\<lambda>d. update_allocation now d aid
                             [a_state_update (\<lambda>_. a_state current), a_failure_message_update (\<lambda>_. exc)]) closing, False)
                       | None \<Rightarrow> finish (closing\<lparr>ss_scancelled := ss_scancelled closing @ [job]\<rparr>))
                     in if force then issue
                        else (case live_allocation_task_steps env job of
                            Inl exc \<Rightarrow> (on_db (\<lambda>d. update_allocation now d aid
                              [a_failure_message_update (\<lambda>_. ''allocation close safety probe failed: '' @ exc)]) s, False)
                          | Inr steps \<Rightarrow>
                              if steps \<noteq> [] then (on_db (mark_active now current) s, False) else issue))))"

definition close_empty_aedt_pool_allocation ::
  "sched_config \<Rightarrow> slurm_env \<Rightarrow> int \<Rightarrow> int \<Rightarrow> allocation_status option \<Rightarrow> sched_state \<Rightarrow> sched_state \<times> bool" where
  "close_empty_aedt_pool_allocation cfg env now aid expected_state s =
     (case get_allocation (ss_db s) aid of
        None \<Rightarrow> (s, False)
      | Some a \<Rightarrow>
          if (case expected_state of None \<Rightarrow> False | Some st \<Rightarrow> a_state a \<noteq> st) then (s, False)
          else if \<not> startswith (a_drain_reason a) ''AEDT pool'' then (s, False)
          else if allocation_has_aedt_pool_claim (ss_db s) aid then (s, False)
          else if list_live_task_claims_for_allocation (ss_db s) aid \<noteq> [] then (s, False)
          else close_allocation cfg env now aid ''AEDT pool empty'' False True s)"

definition close_allocation_after_exclusive_task ::
  "sched_config \<Rightarrow> slurm_env \<Rightarrow> int \<Rightarrow> task_row \<Rightarrow> sched_state \<Rightarrow> sched_state" where
  "close_allocation_after_exclusive_task cfg env now t s =
     (if \<not> t_exclusive_node t then s
      else (case t_allocation_id t of
          None \<Rightarrow> s
        | Some aid \<Rightarrow>
            if aid = 0 \<or> get_allocation (ss_db s) aid = None then s
            else fst (close_allocation cfg env now aid (''exclusive task '' @ show_int (t_id t) @ '' finished'') False False s)))"

record close_response =
  cr_ok :: bool
  cr_previous_state :: allocation_status
  cr_state :: allocation_status
  cr_closed_task_ids :: "int list"

definition request_close_allocation ::
  "sched_config \<Rightarrow> license_config \<Rightarrow> slurm_env \<Rightarrow> int \<Rightarrow> int \<Rightarrow> bool \<Rightarrow> bool \<Rightarrow> sched_state
     \<Rightarrow> (sched_state \<times> close_response) result" where
  "request_close_allocation cfg lcfg env now aid force allow_protected s =
     (case get_allocation (ss_db s) aid of
        None \<Rightarrow> Inl (ValueError ''allocation not found'')
      | Some a \<Rightarrow>
          if a_state a \<in> {Closed, AFailed}
          then Inr (s, \<lparr>cr_ok = True, cr_previous_state = a_state a, cr_state = a_state a, cr_closed_task_ids = []\<rparr>)
          else if protected_gpu_warm_pool a \<and> \<not> allow_protected then Inl (RuntimeError ''protected GPU warm pool'')
          else
            (let active = map t_id (list_live_task_claims_for_allocation (ss_db s) aid) in
             if active \<noteq> [] \<and> \<not> force then Inl (RuntimeError ''active tasks'')
             else (let s1 = (if active \<noteq> [] then fail_running_tasks lcfg now aid ''allocation manually closed'' s else s);
                       s2 = fst (close_allocation cfg env now aid ''manual close'' force False s1);
                       st = (case get_allocation (ss_db s2) aid of None \<Rightarrow> a_state a | Some b \<Rightarrow> a_state b)
                   in Inr (s2, \<lparr>cr_ok = (st = Closed), cr_previous_state = a_state a, cr_state = st,
                                cr_closed_task_ids = active\<rparr>))))"

section \<open>Back-off\<close>

text \<open>A lookup removes an entry whose deadline has passed.\<close>

definition in_backoff :: "rat \<Rightarrow> 'k \<Rightarrow> ('k \<times> rat) list \<Rightarrow> bool \<times> ('k \<times> rat) list" where
  "in_backoff mono_now k table =
     (case map_of table k of None \<Rightarrow> (False, table)
      | Some until \<Rightarrow> if until = 0 then (False, table)
                     else if until \<le> mono_now then (False, AList.delete k table)
                     else (True, table))"

definition allocation_pool_in_backoff :: "rat \<Rightarrow> string \<Rightarrow> sched_state \<Rightarrow> bool \<times> sched_state" where
  "allocation_pool_in_backoff mono_now pool s =
     (let (b, t) = in_backoff mono_now pool (ss_backoff_pool s) in (b, s\<lparr>ss_backoff_pool := t\<rparr>))"

definition pool_key :: "string \<Rightarrow> string" where
  "pool_key pool = (if pool = [] then ''cpu'' else pool)"

definition allocation_node_in_backoff :: "rat \<Rightarrow> string \<Rightarrow> string \<Rightarrow> sched_state \<Rightarrow> bool \<times> sched_state" where
  "allocation_node_in_backoff mono_now pool node s =
     (let (b, t) = in_backoff mono_now (pool_key pool, node) (ss_backoff_node s) in (b, s\<lparr>ss_backoff_node := t\<rparr>))"

definition allocation_shape_backoff_key :: "string \<Rightarrow> string \<Rightarrow> string \<times> string" where
  "allocation_shape_backoff_key pool partition0 =
     (pool_key pool, join '','' (sorted_set (partition_spec_names partition0)))"

definition backoff_rejected_allocation_shape :: "sched_config \<Rightarrow> rat \<Rightarrow> alloc_row \<Rightarrow> sched_state \<Rightarrow> sched_state" where
  "backoff_rejected_allocation_shape cfg mono_now a s =
     (let k = allocation_shape_backoff_key (a_resource_pool a) (a_partition a) in
      if snd k = [] then s
      else s\<lparr>ss_backoff_shape := AList.update k
             (mono_now + of_int (max (poll_interval_seconds cfg * 2)
                (min (max 0 (allocation_pending_backoff_seconds cfg)) 1800))) (ss_backoff_shape s)\<rparr>)"

definition allocation_shape_in_backoff :: "rat \<Rightarrow> string \<Rightarrow> string \<Rightarrow> sched_state \<Rightarrow> bool \<times> sched_state" where
  "allocation_shape_in_backoff mono_now pool partition0 s =
     (let (b, t) = in_backoff mono_now (allocation_shape_backoff_key pool partition0) (ss_backoff_shape s)
      in (b, s\<lparr>ss_backoff_shape := t\<rparr>))"

section \<open>Pending allocations\<close>

definition stale_priority_fea_cpu_demand_allocation :: "sched_config \<Rightarrow> int \<Rightarrow> alloc_row \<Rightarrow> bool" where
  "stale_priority_fea_cpu_demand_allocation cfg now a =
     (a_state a = Pending \<and> resource_pool_or_cpu a = ''cpu'' \<and> allocation_demand_profile a = ''fea''
      \<and> pending_reason_is_priority (a_pending_reason a)
      \<and> (case timestamp (stamp_or (a_submitted_at a) (a_created_at a)) of None \<Rightarrow> False
         | Some t \<Rightarrow> seconds (allocation_pending_timeout_seconds cfg) \<le> now - t))"

definition pending_allocation_timeout_exempt :: "sched_config \<Rightarrow> int list \<Rightarrow> alloc_row \<Rightarrow> string \<Rightarrow> bool" where
  "pending_allocation_timeout_exempt cfg protected_ids a reason =
     ((pending_reason_is_priority reason \<and> resource_pool_or_cpu a = ''cpu'' \<and> allocation_demand_profile a = ''fea''
       \<and> a_id a \<in> set protected_ids)
      \<or> (contains ''priority'' (lower (strip reason))
         \<and> normalize_gpu_model (a_gpu_model a) = ''a6000''
         \<and> a_resource_pool a = ''gpu:a6000''
         \<and> (if gpu_prewarm_gpus_per_allocation cfg = 0 then 1 else gpu_prewarm_gpus_per_allocation cfg) \<le> a_total_gpus a
         \<and> contains ''warm pool'' (lower (a_drain_reason a))))"

definition retry_pinned_gpu_warm_allocation ::
  "sched_config \<Rightarrow> slurm_env \<Rightarrow> int \<Rightarrow> rat \<Rightarrow> alloc_row \<Rightarrow> rat \<Rightarrow> string \<Rightarrow> sched_state \<Rightarrow> sched_state \<times> bool" where
  "retry_pinned_gpu_warm_allocation cfg env now mono_now a age reason s =
     (let timeout = gpu_prewarm_pinned_pending_timeout_seconds cfg; node = strip (a_node_name a) in
      if timeout \<le> 0 \<or> age < of_int timeout \<or> \<not> protected_gpu_warm_pool a \<or> node = [] then (s, False)
      else (let s1 = s\<lparr>ss_backoff_node := AList.update (resource_pool_or_cpu a, node)
                 (mono_now + of_int (max timeout (min (max 0 (allocation_pending_backoff_seconds cfg)) 1800)))
                 (ss_backoff_node s)\<rparr>
            in (fst (close_allocation cfg env now (a_id a)
                  (''pinned warm pool retry after '' @ show_int (truncate_rat age) @ ''s: '' @ reason) False False s1), True)))"

definition expire_pending_allocation_if_stale ::
  "sched_config \<Rightarrow> slurm_env \<Rightarrow> int \<Rightarrow> rat \<Rightarrow> int list \<Rightarrow> alloc_row \<Rightarrow> sched_state \<Rightarrow> sched_state" where
  "expire_pending_allocation_if_stale cfg env now mono_now protected_ids a s =
     (if allocation_pending_timeout_seconds cfg \<le> 0 \<or> allocation_is_dedicated_aedt_pool a then s
      else (case timestamp (stamp_or (a_submitted_at a) (a_created_at a)) of
          None \<Rightarrow> s
        | Some submitted \<Rightarrow>
            (let age = of_int (now - submitted) / 1000000;
                 reason = (if a_pending_reason a = [] then ''unknown Slurm pending reason'' else a_pending_reason a);
                 (s1, retried) = retry_pinned_gpu_warm_allocation cfg env now mono_now a age reason s;
                 pool = resource_pool_or_cpu a in
             if retried then s1
             else if age < of_int (allocation_pending_timeout_seconds cfg) then s1
             else if pending_allocation_timeout_exempt cfg protected_ids a reason then s1
             else (let s2 = (if pool \<noteq> ''cpu'' \<or> \<not> contains ''priority'' (lower (strip reason))
                         then s1\<lparr>ss_backoff_pool := AList.update pool
                                (mono_now + of_int (max 0 (allocation_pending_backoff_seconds cfg))) (ss_backoff_pool s1)\<rparr>
                         else s1)
                   in fst (close_allocation cfg env now (a_id a)
                        (''pending timeout after '' @ show_int (truncate_rat age) @ ''s: '' @ reason) False False s2)))))"

section \<open>The lifecycle pass\<close>

definition apply_lifecycle_to ::
  "sched_config \<Rightarrow> license_config \<Rightarrow> slurm_env \<Rightarrow> int \<Rightarrow> rat \<Rightarrow> int list \<Rightarrow> alloc_row \<Rightarrow> sched_state \<Rightarrow> sched_state" where
  "apply_lifecycle_to cfg lcfg env now mono_now protected_ids a s =
     (if a_state a = Pending then expire_pending_allocation_if_stale cfg env now mono_now protected_ids a s
      else if a_state a \<notin> {Warm, Active, Draining} then s
      else (let age = age_seconds now a in
        if of_int (allocation_drain_after_seconds cfg) \<le> age \<and> a_state a \<noteq> Draining
        then (let s1 = on_db (\<lambda>d. update_allocation now d (a_id a)
                   [a_state_update (\<lambda>_. Draining), a_drain_at_update (\<lambda>_. current_timestamp now),
                    a_drain_reason_update (\<lambda>_. ''age limit'')]) s
              in if running_task_count (ss_db s1) (a_id a) = 0
                 then fst (close_allocation cfg env now (a_id a) ''drained'' False False s1) else s1)
        else if a_state a = Draining \<and> running_task_count (ss_db s) (a_id a) = 0
        then fst (close_allocation cfg env now (a_id a) ''drained'' False False s)
        else if of_int (allocation_force_cancel_after_seconds cfg) \<le> age
        then fst (close_allocation cfg env now (a_id a) ''force timeout'' True False
                (fail_running_tasks lcfg now (a_id a) ''allocation force-cancelled near walltime'' s))
        else s))"

definition apply_allocation_lifecycle ::
  "sched_config \<Rightarrow> license_config \<Rightarrow> slurm_env \<Rightarrow> int \<Rightarrow> rat \<Rightarrow> int list \<Rightarrow> sched_state \<Rightarrow> sched_state" where
  "apply_allocation_lifecycle cfg lcfg env now mono_now protected_ids s =
     fold (apply_lifecycle_to cfg lcfg env now mono_now protected_ids)
       (list_allocations_with_live (ss_db s) 500 5000) s"

section \<open>What Slurm reports\<close>

definition closed_fields :: "int \<Rightarrow> alloc_field list" where
  "closed_fields now = [a_state_update (\<lambda>_. Closed), a_closed_at_update (\<lambda>_. current_timestamp now)]"

definition apply_allocation_state :: "int \<Rightarrow> alloc_row \<Rightarrow> job_state_info \<Rightarrow> db \<Rightarrow> db" where
  "apply_allocation_state now a info d =
     (if ji_status info = JRunning \<and> a_state a = Pending
      then record_event (update_allocation now d (a_id a)
             ([a_state_update (\<lambda>_. Warm), a_started_at_update (\<lambda>_. current_timestamp now),
               a_pending_reason_update (\<lambda>_. []),
               a_node_name_update (\<lambda>_. if a_node_name a \<noteq> [] then a_node_name a else ji_node_name info)]
              @ (if CHR '','' \<in> set (a_partition a) \<and> ji_partition info \<noteq> [] \<and> CHR '','' \<notin> set (ji_partition info)
                 then [a_partition_update (\<lambda>_. ji_partition info)] else [])))
             ''allocation_warm'' ''allocation'' (a_id a)
      else if ji_status info = JRunning \<and> a_node_name a = []
      then (if ji_node_name info \<noteq> []
            then update_allocation now d (a_id a) [a_node_name_update (\<lambda>_. ji_node_name info)] else d)
      else if ji_status info = JSubmitted \<and> a_state a = Pending
      then (if ji_pending_reason info \<noteq> [] \<and> ji_pending_reason info \<noteq> a_pending_reason a
            then update_allocation now d (a_id a) [a_pending_reason_update (\<lambda>_. ji_pending_reason info)] else d)
      else if ji_status info = JSubmitted \<and> a_state a = Closing
      then record_event (update_allocation now d (a_id a) (closed_fields now)) ''allocation_closed'' ''allocation'' (a_id a)
      else if ji_status info \<in> {JCompleted, JCancelled}
      then record_event (update_allocation now d (a_id a) (closed_fields now)) ''allocation_closed'' ''allocation'' (a_id a)
      else if ji_status info = JFailed
      then record_event (update_allocation now d (a_id a)
             [a_state_update (\<lambda>_. AFailed), a_closed_at_update (\<lambda>_. current_timestamp now)])
             ''allocation_failed'' ''allocation'' (a_id a)
      else d)"

text \<open>The outcome of the batched probe of one account: \<open>None\<close> is an exception of the probe, else the
  information per Slurm job.\<close>

definition refresh_allocation_row ::
  "int \<Rightarrow> (string \<Rightarrow> job_state_info option) \<Rightarrow> alloc_row \<Rightarrow> db \<Rightarrow> db" where
  "refresh_allocation_row now infos a d =
     (case infos (case a_slurm_job_id a of None \<Rightarrow> [] | Some j \<Rightarrow> j) of
        Some info \<Rightarrow>
          if ji_missing info
          then record_event (update_allocation now d (a_id a) (closed_fields now)) ''allocation_closed'' ''allocation'' (a_id a)
          else apply_allocation_state now a info d
      | None \<Rightarrow>
          if a_state a = Closing
          then record_event (update_allocation now d (a_id a) (closed_fields now)) ''allocation_closed'' ''allocation'' (a_id a)
          else d)"

definition refresh_allocations ::
  "sched_config \<Rightarrow> int \<Rightarrow> (string \<Rightarrow> (string \<Rightarrow> job_state_info option) option) \<Rightarrow> db \<Rightarrow> db" where
  "refresh_allocations cfg now outcomes d =
     (let rows = filter (\<lambda>a. a_state a \<in> live_allocation_states
             \<and> (case a_slurm_job_id a of None \<Rightarrow> False | Some j \<Rightarrow> j \<noteq> [])
             \<and> a_account_name a \<in> set (config_accounts cfg)) (list_allocations_with_live d 500 10000);
          accounts = remdups (map a_account_name rows)
      in recalculate_allocation_capacity now None
           (fold (\<lambda>account d'. case outcomes account of
                None \<Rightarrow> d'
              | Some infos \<Rightarrow> fold (refresh_allocation_row now infos) (filter (\<lambda>a. a_account_name a = account) rows) d')
             accounts d))"

section \<open>Closing is safe\<close>

lemma get_allocation_event [simp]: "get_allocation (record_event d k e i) j = get_allocation d j"
  by (simp add: get_allocation_def record_event_def)

lemma db_tasks_event [simp]: "db_tasks (record_event d k e i) = db_tasks d"
  by (simp add: record_event_def)

lemma db_tasks_update_allocation [simp]: "db_tasks (update_allocation now d i cols) = db_tasks d"
  by (simp add: update_allocation_def)

lemma db_aedt_update_allocation [simp]: "db_aedt (update_allocation now d i cols) = db_aedt d"
  by (simp add: update_allocation_def)

lemma get_allocation_mark [simp]:
  "get_allocation (mark_active now a d) j =
     (if j = a_id a \<and> a_state a = Warm
      then map_option (\<lambda>b. b\<lparr>a_state := Active, a_last_active_at := current_timestamp now,
             a_updated_at := current_timestamp now\<rparr>) (get_allocation d j)
      else get_allocation d j)"
  by (auto simp: mark_active_def get_allocation_update)

lemma db_tasks_mark [simp]: "db_tasks (mark_active now a d) = db_tasks d"
  by (simp add: mark_active_def)

text \<open>The close guards.\<close>

definition close_guards :: "slurm_env \<Rightarrow> bool \<Rightarrow> alloc_row \<Rightarrow> sched_state \<Rightarrow> bool" where
  "close_guards env owner a s =
     (list_live_task_claims_for_allocation (ss_db s) (a_id a) = []
      \<and> \<not> allocation_has_aedt_pool_claim (ss_db s) (a_id a)
      \<and> (owner \<or> \<not> allocation_is_dedicated_aedt_pool a))"


text \<open>The outcome of a close, errors included: on success the row is closed with its closing time;
  otherwise no job was cancelled and the row keeps its state (a warm row with live work becomes
  active), also when \<open>scancel\<close> fails after the row was marked closing. Tasks and other allocations
  are untouched in every case.\<close>

theorem close_allocation_outcome:
  assumes "close_allocation cfg env now aid reason force owner s = (s', ok)"
    and "get_allocation (ss_db s) aid = Some a"
  shows "db_tasks (ss_db s') = db_tasks (ss_db s) \<and> ss_license s' = ss_license s
    \<and> (\<forall>j. j \<noteq> aid \<longrightarrow> get_allocation (ss_db s') j = get_allocation (ss_db s) j)
    \<and> (\<exists>a'. get_allocation (ss_db s') aid = Some a'
        \<and> (if ok then a_state a' = Closed \<and> a_closed_at a' = current_timestamp now \<and> a_failure_message a' = []
           else ss_scancelled s' = ss_scancelled s
             \<and> (a_state a' = a_state a \<or> (a_state a = Warm \<and> a_state a' = Active))))"
proof -
  have id: "a_id a = aid" using assms(2) by (rule get_allocation_id)
  show ?thesis
    using assms id
    by (auto simp: close_allocation_def Let_def get_allocation_update split: if_splits option.splits sum.splits)
qed

section \<open>Slurm's reports\<close>


section \<open>Forced close\<close>

lemma fold_update_tasks:
  assumes "\<And>t. t_id (assign cols t) = t_id t" and "cols \<noteq> []" and "distinct is"
  shows "db_tasks (fold (\<lambda>i d. update_task now d i cols) is d) =
    map (\<lambda>t. if t_id t \<in> set is then touch_task now (assign cols t) else t) (db_tasks d)"
  using assms(3)
proof (induction "is" arbitrary: d)
  case (Cons i "is")
  then show ?case
    using assms(1,2) by (auto simp: update_task_def tbl_update_def)
qed simp

lemma fail_running_tasks_db:
  "ss_db (fail_running_tasks lcfg now aid message s) =
     fold (\<lambda>i d. update_task now d i (failed_fields now message))
       (map t_id (filter (\<lambda>t. t_allocation_id t = Some aid) (list_tasks_by_statuses (ss_db s) [Attaching, Running] 5000)))
       (ss_db s)"
proof -
  have "ss_db (fold (\<lambda>t s. on_task_terminal lcfg t (on_db (\<lambda>d. update_task now d (t_id t) (failed_fields now message)) s)) ts s)
      = fold (\<lambda>i d. update_task now d i (failed_fields now message)) (map t_id ts) (ss_db s)" for ts s
    by (induction ts arbitrary: s) (simp_all add: on_task_terminal_def)
  then show ?thesis by (simp add: fail_running_tasks_def)
qed

lemma list_tasks_by_statuses_all:
  assumes "length (filter (\<lambda>t. t_status t \<in> set ss) (db_tasks d)) \<le> limit"
  shows "list_tasks_by_statuses d ss limit = filter (\<lambda>t. t_status t \<in> set ss) (sort_desc t_id (db_tasks d))"
proof -
  have "mset (filter (\<lambda>t. t_status t \<in> set ss) (sort_desc t_id (db_tasks d))) = mset (filter (\<lambda>t. t_status t \<in> set ss) (db_tasks d))"
    by simp
  then have "length (filter (\<lambda>t. t_status t \<in> set ss) (sort_desc t_id (db_tasks d))) \<le> limit"
    using assms by (metis mset_eq_length)
  then show ?thesis by (simp add: list_tasks_by_statuses_def)
qed

lemma fail_running_tasks_clears:
  assumes wf: "tasks_wf (ss_db s)"
    and few: "length (filter (\<lambda>t. t_status t \<in> live_statuses) (db_tasks (ss_db s))) \<le> 5000"
  shows "live_on (ss_db (fail_running_tasks lcfg now aid message s)) aid = []"
proof -
  let ?d = "ss_db s"
  let ?is = "map t_id (filter (\<lambda>t. t_allocation_id t = Some aid) (list_tasks_by_statuses ?d [Attaching, Running] 5000))"
  have sel: "list_tasks_by_statuses ?d [Attaching, Running] 5000
      = filter (\<lambda>t. t_status t \<in> set [Attaching, Running]) (sort_desc t_id (db_tasks ?d))"
    using few by (intro list_tasks_by_statuses_all) (simp add: live_statuses_def)
  have dist: "distinct ?is"
  proof -
    have "distinct (map t_id (sort_desc t_id (db_tasks ?d)))"
      using wf mset_eq_imp_distinct_iff [of "map t_id (sort_desc t_id (db_tasks ?d))" "map t_id (db_tasks ?d)"]
      by (simp add: tasks_wf_def)
    then show ?thesis unfolding sel by (simp add: distinct_map_filter)
  qed
  have ids: "set ?is = t_id ` {t \<in> set (db_tasks ?d). t_allocation_id t = Some aid \<and> t_status t \<in> live_statuses}"
    unfolding sel by (auto simp: live_statuses_def)
  have keep: "t_id (assign (failed_fields now message) t) = t_id t" for t by (simp add: failed_fields_def)
  have "db_tasks (ss_db (fail_running_tasks lcfg now aid message s)) =
     map (\<lambda>t. if t_id t \<in> set ?is then touch_task now (assign (failed_fields now message) t) else t) (db_tasks ?d)"
    unfolding fail_running_tasks_db by (rule fold_update_tasks [OF keep _ dist]) (simp add: failed_fields_def)
  moreover have "t_status (touch_task now (assign (failed_fields now message) t)) = Failed" for t
    by (simp add: failed_fields_def)
  moreover have "t_id t \<in> set ?is" if "t \<in> set (db_tasks ?d)" "t_allocation_id t = Some aid" "t_status t \<in> live_statuses" for t
    using that ids by auto
  ultimately show ?thesis
    by (auto simp: live_on_def filter_empty_conv live_statuses_def split: if_splits)
qed

lemma live_claims_live_on: "list_live_task_claims_for_allocation d aid = [] \<longleftrightarrow> live_on d aid = []"
  by (metis (no_types, lifting) length_0_conv length_sort list_live_task_claims_for_allocation_def live_on_def)

lemma close_allocation_db_tasks: "db_tasks (ss_db (fst (close_allocation cfg env now aid reason force owner s))) = db_tasks (ss_db s)"
proof (cases "get_allocation (ss_db s) aid")
  case (Some a)
  obtain s' ok where run: "close_allocation cfg env now aid reason force owner s = (s', ok)"
    by (cases "close_allocation cfg env now aid reason force owner s")
  then show ?thesis using close_allocation_outcome [OF run Some] by simp
qed (simp add: close_allocation_def)

text \<open>A manual close never abandons tasks: without force it is refused while a task claims the
  allocation, a protected GPU warm pool is refused unless explicitly allowed, and after a forced
  close no task is attaching or running on the allocation, whether or not \<open>scancel\<close> succeeded.\<close>

theorem request_close_no_orphans:
  assumes "request_close_allocation cfg lcfg env now aid force allow_protected s = Inr (s', resp)"
    and "tasks_wf (ss_db s)" and "length (filter (\<lambda>t. t_status t \<in> live_statuses) (db_tasks (ss_db s))) \<le> 5000"
    and "\<not> (cr_previous_state resp \<in> {Closed, AFailed})"
  shows "live_on (ss_db s') aid = []
    \<and> (\<not> force \<longrightarrow> live_on (ss_db s) aid = [] \<and> cr_closed_task_ids resp = [] \<and> db_tasks (ss_db s') = db_tasks (ss_db s))
    \<and> (cr_ok resp \<longleftrightarrow> (\<exists>a. get_allocation (ss_db s') aid = Some a \<and> a_state a = Closed))"
proof -
  from assms(1) obtain a where a: "get_allocation (ss_db s) aid = Some a"
    by (auto simp: request_close_allocation_def split: option.splits)
  define s1 where "s1 = (if list_live_task_claims_for_allocation (ss_db s) aid \<noteq> []
      then fail_running_tasks lcfg now aid ''allocation manually closed'' s else s)"
  have run: "s' = fst (close_allocation cfg env now aid ''manual close'' force False s1)"
      "cr_ok resp \<longleftrightarrow> (case get_allocation (ss_db s') aid of None \<Rightarrow> a_state a | Some b \<Rightarrow> a_state b) = Closed"
      "cr_closed_task_ids resp = map t_id (list_live_task_claims_for_allocation (ss_db s) aid)"
      "a_state a \<noteq> Closed" "force \<or> list_live_task_claims_for_allocation (ss_db s) aid = []"
    using assms(1,4) a
    by (auto simp: request_close_allocation_def s1_def Let_def split: if_splits option.splits)
  have "live_on (ss_db s1) aid = []"
    using fail_running_tasks_clears [OF assms(2,3)] by (simp add: s1_def live_claims_live_on)
  then have "live_on (ss_db s') aid = []"
    using close_allocation_db_tasks by (simp add: run(1) live_on_def)
  moreover have "\<not> force \<longrightarrow> s1 = s" using run(5) by (auto simp: s1_def)
  moreover have "db_tasks (ss_db s') = db_tasks (ss_db s1)"
    unfolding run(1) by (rule close_allocation_db_tasks)
  ultimately show ?thesis
    using run(2-5) by (auto simp: live_claims_live_on split: option.splits)
qed

text \<open>A back-off lasts exactly until its deadline: after a rejected request the pool (node or
  shape) is in back-off at every instant before the deadline and at no instant from it on, other
  keys keep their entries, and expired entries are dropped.\<close>

theorem backoff_until_deadline:
  assumes "until \<noteq> 0"
  shows "fst (in_backoff mono_now k (AList.update k until table)) = (mono_now < until)
    \<and> (j \<noteq> k \<longrightarrow> map_of (snd (in_backoff mono_now k (AList.update k until table))) j = map_of table j)
    \<and> (until \<le> mono_now \<longrightarrow> map_of (snd (in_backoff mono_now k (AList.update k until table))) k = None)"
  using assms by (auto simp: in_backoff_def update_conv' delete_conv')

text \<open>Owner-managed AEDT allocations never expire: the pending time-out neither closes a dedicated
  AEDT pool allocation nor puts its pool in back-off, however long the request is pending; and an
  allocation younger than the time-out is left alone unless it is a pinned GPU warm request.\<close>

theorem pending_expiry_spares:
  "(allocation_is_dedicated_aedt_pool a \<longrightarrow> expire_pending_allocation_if_stale cfg env now mono_now ids a s = s)
   \<and> (\<not> protected_gpu_warm_pool a \<and> timestamp (stamp_or (a_submitted_at a) (a_created_at a)) = Some t
        \<and> now - t < seconds (allocation_pending_timeout_seconds cfg)
      \<longrightarrow> expire_pending_allocation_if_stale cfg env now mono_now ids a s = s)"
proof -
  have "of_int (now - t) / 1000000 < (of_int (allocation_pending_timeout_seconds cfg) :: rat)"
    if "now - t < seconds (allocation_pending_timeout_seconds cfg)"
  proof -
    have "(of_int (now - t) :: rat) < of_int (seconds (allocation_pending_timeout_seconds cfg))"
      using that by (simp only: of_int_less_iff)
    then show ?thesis by (simp add: seconds_def divide_less_eq)
  qed
  then show ?thesis
    by (auto simp: expire_pending_allocation_if_stale_def retry_pinned_gpu_warm_allocation_def Let_def)
qed

section \<open>Witnesses\<close>

definition demo_config :: sched_config where
  "demo_config = \<lparr>poll_interval_seconds = 30, allocation_drain_after_seconds = 3600,
     allocation_force_cancel_after_seconds = 7200, allocation_attach_stop_before_drain_seconds = 0,
     allocation_pending_timeout_seconds = 600, allocation_pending_backoff_seconds = 300,
     allocation_scale_in_idle_seconds = 60, min_warm_allocations = 0, gpu_prewarm_enabled = False,
     gpu_prewarm_min_warm_allocations = 0, gpu_prewarm_pinned_pending_timeout_seconds = 0,
     gpu_prewarm_gpus_per_allocation = 1, gpu_prewarm_cpu_reserve_per_free_gpu = 0,
     cpu_partition_allocation_limits = [], fea_node_name_policy = Preferred, fea_max_attach_per_loop = 1,
     standalone_aedt_max_running_by_project = [], standalone_aedt_running_lanes = [],
     config_accounts = [''acct'']\<rparr>"

definition demo_env :: slurm_env where
  "demo_env = \<lparr>live_allocation_task_steps = (\<lambda>job. Inr []), scancel = (\<lambda>job. None)\<rparr>"

definition demo_alloc :: alloc_row where
  "demo_alloc = (alloc_row_of 0 7 ''acct'' ''cpu'' ''n1'' 16 65536 0 [] ''cpu'' False [] [])
     \<lparr>a_state := Warm, a_slurm_job_id := Some ''4711''\<rparr>"

definition demo_state :: sched_state where
  "demo_state = \<lparr>ss_db = empty_db\<lparr>db_allocations := [demo_alloc]\<rparr>, ss_license = demo_license_state,
     ss_backoff_pool = [], ss_backoff_node = [], ss_backoff_shape = [], ss_scancelled = []\<rparr>"

definition busy_state :: sched_state where
  "busy_state = demo_state\<lparr>ss_db := (ss_db demo_state)\<lparr>db_tasks :=
     [(plain_task 1 ''a'')\<lparr>t_status := Running, t_allocation_id := Some 7\<rparr>]\<rparr>\<rparr>"


theorem close_allocation_outcome_witness:
  "\<exists>s'. close_allocation demo_config demo_env 5 7 ''drained'' False False demo_state = (s', True)
     \<and> (\<exists>a'. get_allocation (ss_db s') 7 = Some a' \<and> a_state a' = Closed)"
proof -
  have "snd (close_allocation demo_config demo_env 5 7 ''drained'' False False demo_state)" by code_simp
  then obtain s' where run: "close_allocation demo_config demo_env 5 7 ''drained'' False False demo_state = (s', True)"
    by (metis prod.collapse)
  have "get_allocation (ss_db demo_state) 7 = Some demo_alloc" by code_simp
  from close_allocation_outcome [OF run this] run show ?thesis by auto
qed


theorem request_close_no_orphans_witness:
  "\<exists>s' resp. request_close_allocation demo_config demo_license_config demo_env 5 7 True False busy_state = Inr (s', resp)
     \<and> live_on (ss_db s') 7 = [] \<and> live_on (ss_db busy_state) 7 \<noteq> []"
proof -
  have "cr_previous_state (snd (projr (request_close_allocation demo_config demo_license_config demo_env 5 7 True False busy_state))) = Warm"
    "isl (request_close_allocation demo_config demo_license_config demo_env 5 7 True False busy_state) = False"
    by code_simp+
  then obtain s' resp where run: "request_close_allocation demo_config demo_license_config demo_env 5 7 True False busy_state = Inr (s', resp)"
    and prev: "cr_previous_state resp = Warm"
    by (cases "request_close_allocation demo_config demo_license_config demo_env 5 7 True False busy_state") auto
  have "tasks_wf (ss_db busy_state)" "length (filter (\<lambda>t. t_status t \<in> live_statuses) (db_tasks (ss_db busy_state))) \<le> 5000"
    "live_on (ss_db busy_state) 7 \<noteq> []" by code_simp+
  with request_close_no_orphans [OF run this(1,2)] run prev show ?thesis by auto
qed

theorem backoff_until_deadline_witness:
  "fst (in_backoff 5 ''cpu'' (AList.update ''cpu'' 9 [])) \<and> \<not> fst (in_backoff 9 ''cpu'' (AList.update ''cpu'' 9 []))"
  using backoff_until_deadline [of 9 5 "''cpu''" "[]"] backoff_until_deadline [of 9 9 "''cpu''" "[]"] by simp

theorem pending_expiry_spares_witness:
  "expire_pending_allocation_if_stale demo_config demo_env 999999999999 3 []
     (demo_alloc\<lparr>a_state := Pending, a_drain_reason := ''AEDT pool project demand''\<rparr>) demo_state = demo_state"
proof -
  have "allocation_is_dedicated_aedt_pool (demo_alloc\<lparr>a_state := Pending, a_drain_reason := ''AEDT pool project demand''\<rparr>)"
    by code_simp
  then show ?thesis using pending_expiry_spares by blast
qed

end
