(* ===== verification/Attach.thy ===== *)
theory Attach
  imports Lifecycle
begin

text \<open>
  The attach protocol of \<open>scheduler.py\<close>: a queued task is claimed under a fresh attach token
  (\<open>reserve_task_on_allocation\<close>), a thread then crosses the durable launch boundary, starts the
  remote worker and reports the result (\<open>finish_reserved_task_attach\<close>), while other threads and
  processes cancel, time out, requeue, probe or, after a restart, recover the same row.

  An attach thread is modelled with a program counter whose steps are the points between which
  other threads can run: reading the rows and Slurm's node of the job, the conditional write of the
  launch boundary, the remote launch, reading again, and the conditional write of the result. The
  in-memory bookkeeping and the capacity recomputation that follow a write belong to its step.
  The answers of the remote side are the argument \<open>remote\<close> of a step. The guards that
  \<open>reserve_task_on_allocation\<close> checks before the claim only restrict when a claim is attempted;
  here a claim may be attempted at any time.
\<close>

section \<open>Column assignments\<close>

definition claim_fields :: "int \<Rightarrow> alloc_row \<Rightarrow> string \<Rightarrow> task_field list" where
  "claim_fields now a token =
     [t_status_update (\<lambda>_. Attaching), t_allocation_id_update (\<lambda>_. Some (a_id a)),
      t_account_name_update (\<lambda>_. a_account_name a), t_remote_dir_update (\<lambda>_. []),
      t_exit_code_path_update (\<lambda>_. []), t_wrapper_pid_update (\<lambda>_. []), t_attach_token_update (\<lambda>_. token),
      t_launch_started_at_update (\<lambda>_. Blank), t_failure_message_update (\<lambda>_. []),
      t_attached_at_update (\<lambda>_. current_timestamp now), t_started_at_update (\<lambda>_. Blank),
      t_finished_at_update (\<lambda>_. Blank), t_exit_code_update (\<lambda>_. None)]"

definition requeue_fields :: "task_row \<Rightarrow> task_field list" where
  "requeue_fields t =
     [t_status_update (\<lambda>_. Queued), t_allocation_id_update (\<lambda>_. None),
      t_account_name_update (\<lambda>_. task_requested_account_name t), t_remote_dir_update (\<lambda>_. []),
      t_exit_code_path_update (\<lambda>_. []), t_wrapper_pid_update (\<lambda>_. []), t_attach_token_update (\<lambda>_. []),
      t_launch_started_at_update (\<lambda>_. Blank), t_failure_message_update (\<lambda>_. []),
      t_attached_at_update (\<lambda>_. Blank), t_started_at_update (\<lambda>_. Blank)]"

definition cancelled_fields :: "int \<Rightarrow> task_field list" where
  "cancelled_fields now = [t_status_update (\<lambda>_. Cancelled), t_finished_at_update (\<lambda>_. current_timestamp now)]"

text \<open>The paths and the process id that \<open>attach_task\<close> returns (or a failure reports).\<close>

record attach_result =
  ar_remote_dir :: string
  ar_exit_code_path :: string
  ar_wrapper_pid :: string

definition result_fields :: "attach_result \<Rightarrow> task_field list" where
  "result_fields r = [t_remote_dir_update (\<lambda>_. ar_remote_dir r), t_exit_code_path_update (\<lambda>_. ar_exit_code_path r),
     t_wrapper_pid_update (\<lambda>_. ar_wrapper_pid r)]"

section \<open>Strict node placement\<close>

datatype strict_error =
    NoRequestedNode
  | AllocationMismatch int int int
  | DbNodeMismatch string string
  | NoSlurmJob
  | SlurmReadbackFailed string
  | SlurmNodeMismatch string string string

definition or_unknown :: "string \<Rightarrow> string" where
  "or_unknown s = (if s = [] then ''unknown'' else s)"

fun strict_error_text :: "strict_error \<Rightarrow> string" where
  "strict_error_text NoRequestedNode = ''strict node placement has no requested node''"
| "strict_error_text (AllocationMismatch e t r) = ''strict node placement allocation mismatch (expected ''
     @ show_int e @ '', task '' @ show_int t @ '', readback '' @ show_int r @ '')''"
| "strict_error_text (DbNodeMismatch e n) = ''strict node placement DB readback mismatch (requested ''
     @ e @ '', allocation on '' @ or_unknown n @ '')''"
| "strict_error_text NoSlurmJob = ''strict node placement allocation has no Slurm job id''"
| "strict_error_text (SlurmReadbackFailed exc) = ''strict node placement Slurm readback failed: '' @ exc"
| "strict_error_text (SlurmNodeMismatch e j n) = ''strict node placement Slurm readback mismatch (requested ''
     @ e @ '', job '' @ j @ '' on '' @ or_unknown n @ '')''"

definition opt_text :: "string option \<Rightarrow> string" where
  "opt_text v = (case v of None \<Rightarrow> [] | Some s \<Rightarrow> s)"

definition strict_node_attach_readback_error ::
  "task_row \<Rightarrow> alloc_row option \<Rightarrow> int \<Rightarrow> string + string \<Rightarrow> strict_error option" where
  "strict_node_attach_readback_error t a expected slurm_node =
     (if \<not> task_has_strict_node_contract t then None
      else (let node = strict_task_node_name t;
                assigned = (case t_allocation_id t of None \<Rightarrow> 0 | Some i \<Rightarrow> i);
                actual = (case a of None \<Rightarrow> 0 | Some r \<Rightarrow> a_id r);
                allocation_node = (case a of None \<Rightarrow> [] | Some r \<Rightarrow> strip (a_node_name r));
                job = (case a of None \<Rightarrow> [] | Some r \<Rightarrow> strip (opt_text (a_slurm_job_id r))) in
        if node = [] then Some NoRequestedNode
        else if assigned \<noteq> expected \<or> actual \<noteq> expected then Some (AllocationMismatch expected assigned actual)
        else if allocation_node \<noteq> node then Some (DbNodeMismatch node allocation_node)
        else if job = [] then Some NoSlurmJob
        else (case slurm_node of
            Inl exc \<Rightarrow> Some (SlurmReadbackFailed exc)
          | Inr n \<Rightarrow> if strip n \<noteq> node then Some (SlurmNodeMismatch node job (strip n)) else None)))"

definition cancellation_pending_prefix :: string where
  "cancellation_pending_prefix = ''strict node placement cancellation pending: ''"

definition strict_node_cancellation_is_pending :: "task_row \<Rightarrow> bool" where
  "strict_node_cancellation_is_pending t =
     (t_status t = Attaching \<and> task_has_strict_node_contract t
      \<and> startswith (t_failure_message t) cancellation_pending_prefix)"

section \<open>The world\<close>

datatype attach_pc =
    PcCheck
  | PcBoundary "strict_error option" task_row
  | PcLaunch
  | PcFailed "attach_result option" string
  | PcRecheck attach_result
  | PcSettle "strict_error option" task_row attach_result
  | PcDone bool

record attach_thread =
  at_task :: task_row
  at_alloc :: alloc_row
  at_pc :: attach_pc

text \<open>\<open>aw_launched\<close> logs the calls of the remote launch and \<open>aw_reaped\<close> those of the remote cancel, as
  task id and token; \<open>aw_tokens\<close> are the tokens handed out so far (\<open>uuid4().hex\<close> is never empty and
  never repeats one).\<close>

record attach_world =
  aw_state :: sched_state
  aw_launched :: "(int \<times> string) list"
  aw_reaped :: "(int \<times> string) list"
  aw_tokens :: "string list"
  aw_threads :: "attach_thread list"

datatype attach_outcome = AttachOk attach_result | AttachError "attach_result option" string

record remote =
  rm_now :: int
  rm_slurm_node :: "string + string"
  rm_outcome :: attach_outcome
  rm_cancel_error :: "string option"

abbreviation on_state :: "(sched_state \<Rightarrow> sched_state) \<Rightarrow> attach_world \<Rightarrow> attach_world" where
  "on_state f w \<equiv> w\<lparr>aw_state := f (aw_state w)\<rparr>"

abbreviation world_db :: "attach_world \<Rightarrow> db" where
  "world_db w \<equiv> ss_db (aw_state w)"

text \<open>A conditional write of the claim, followed by \<open>on_task_terminal\<close> when it won.\<close>

definition terminal_write ::
  "license_config \<Rightarrow> int \<Rightarrow> int \<Rightarrow> string \<Rightarrow> task_row \<Rightarrow> task_field list \<Rightarrow> sched_state \<Rightarrow> sched_state" where
  "terminal_write lcfg now tid token snapshot cols s =
     (let (d, won) = update_task_if_attach_claim now (ss_db s) tid token False cols;
          s1 = s\<lparr>ss_db := d\<rparr> in
      if won then on_task_terminal lcfg snapshot s1 else s1)"

definition recapacity :: "int \<Rightarrow> int \<Rightarrow> sched_state \<Rightarrow> sched_state" where
  "recapacity now aid s =
     on_db (recalculate_allocation_capacity now (if aid \<noteq> 0 then Some [aid] else None)) s"

definition recapacity_one :: "int \<Rightarrow> int \<Rightarrow> sched_state \<Rightarrow> sched_state" where
  "recapacity_one now aid s = on_db (recalculate_allocation_capacity now (Some [aid])) s"

section \<open>Steps of an attach thread\<close>

definition thread_check :: "remote \<Rightarrow> attach_thread \<Rightarrow> attach_world \<Rightarrow> attach_thread \<times> attach_world" where
  "thread_check r th w =
     (let t = at_task th; aid = a_id (at_alloc th);
          current = (case get_task (world_db w) (t_id t) of None \<Rightarrow> t | Some c \<Rightarrow> c);
          a = (if aid \<noteq> 0 then get_allocation (world_db w) aid else None) in
      (th\<lparr>at_pc := PcBoundary (strict_node_attach_readback_error current a aid (rm_slurm_node r)) current\<rparr>, w))"

definition thread_boundary ::
  "license_config \<Rightarrow> remote \<Rightarrow> strict_error option \<Rightarrow> task_row \<Rightarrow> attach_thread \<Rightarrow> attach_world \<Rightarrow> attach_thread \<times> attach_world" where
  "thread_boundary lcfg r err current th w =
     (let t = at_task th; token = t_attach_token t; aid = a_id (at_alloc th); now = rm_now r in
      case err of
        Some e \<Rightarrow> (th\<lparr>at_pc := PcDone False\<rparr>, on_state (\<lambda>s. recapacity now aid
            (terminal_write lcfg now (t_id t) token current (failed_fields now (strict_error_text e)) s)) w)
      | None \<Rightarrow>
          (let (d, won) = update_task_if_attach_claim now (world_db w) (t_id t) token True
                   [t_launch_started_at_update (\<lambda>_. current_timestamp now)];
               w1 = on_state (\<lambda>s. s\<lparr>ss_db := d\<rparr>) w in
           if won
           then (th\<lparr>at_pc := PcLaunch\<rparr>,
                 on_state (\<lambda>s. s\<lparr>ss_license := license_mark_launch_started now lcfg t (ss_license s)\<rparr>) w1)
           else (th\<lparr>at_pc := PcDone False\<rparr>,
                 on_state (\<lambda>s. recapacity_one now aid
                   (s\<lparr>ss_license := license_release_prelaunch_claim lcfg t (ss_license s)\<rparr>)) w1)))"

definition thread_launch :: "remote \<Rightarrow> attach_thread \<Rightarrow> attach_world \<Rightarrow> attach_thread \<times> attach_world" where
  "thread_launch r th w =
     (let t = at_task th in
      (th\<lparr>at_pc := (case rm_outcome r of AttachOk res \<Rightarrow> PcRecheck res | AttachError res msg \<Rightarrow> PcFailed res msg)\<rparr>,
       w\<lparr>aw_launched := aw_launched w @ [(t_id t, t_attach_token t)]\<rparr>))"

definition thread_failed ::
  "license_config \<Rightarrow> remote \<Rightarrow> attach_result option \<Rightarrow> string \<Rightarrow> attach_thread \<Rightarrow> attach_world \<Rightarrow> attach_thread \<times> attach_world" where
  "thread_failed lcfg r res msg th w =
     (let t = at_task th; now = rm_now r in
      (th\<lparr>at_pc := PcDone False\<rparr>,
       on_state (\<lambda>s. recapacity_one now (a_id (at_alloc th)) (terminal_write lcfg now (t_id t) (t_attach_token t) t
         (failed_fields now msg @ (case res of None \<Rightarrow> [] | Some x \<Rightarrow> result_fields x)) s)) w))"

definition thread_recheck :: "remote \<Rightarrow> attach_result \<Rightarrow> attach_thread \<Rightarrow> attach_world \<Rightarrow> attach_thread \<times> attach_world" where
  "thread_recheck r res th w =
     (let t = at_task th; aid = a_id (at_alloc th);
          current = (case get_task (world_db w) (t_id t) of None \<Rightarrow> t | Some c \<Rightarrow> c);
          a = (if aid \<noteq> 0 then get_allocation (world_db w) aid else None) in
      (th\<lparr>at_pc := PcSettle (strict_node_attach_readback_error current a aid (rm_slurm_node r)) current res\<rparr>, w))"

definition thread_settle ::
  "license_config \<Rightarrow> remote \<Rightarrow> strict_error option \<Rightarrow> task_row \<Rightarrow> attach_result \<Rightarrow> attach_thread \<Rightarrow> attach_world
     \<Rightarrow> attach_thread \<times> attach_world" where
  "thread_settle lcfg r err current res th w =
     (let t = at_task th; token = t_attach_token t; aid = a_id (at_alloc th); now = rm_now r;
          reaped = w\<lparr>aw_reaped := aw_reaped w @ [(t_id t, token)]\<rparr> in
      case err of
        Some e \<Rightarrow>
          (case rm_cancel_error r of
             Some exc \<Rightarrow> (th\<lparr>at_pc := PcDone False\<rparr>, on_state (\<lambda>s. recapacity now aid
                 (on_db (\<lambda>d. fst (update_task_if_attach_claim now d (t_id t) token False
                   (t_failure_message_update (\<lambda>_. cancellation_pending_prefix @ strict_error_text e
                      @ ''; last cancel error: '' @ exc) # result_fields res))) s)) reaped)
           | None \<Rightarrow> (th\<lparr>at_pc := PcDone False\<rparr>, on_state (\<lambda>s. recapacity now aid
                 (terminal_write lcfg now (t_id t) token current
                   (failed_fields now (strict_error_text e) @ result_fields res) s)) reaped))
      | None \<Rightarrow>
          (let (d, won) = update_task_if_attach_claim now (world_db w) (t_id t) token False
                   ([t_status_update (\<lambda>_. Running), t_started_at_update (\<lambda>_. current_timestamp now)] @ result_fields res) in
           if won
           then (th\<lparr>at_pc := PcDone True\<rparr>,
                 on_state (\<lambda>s. s\<lparr>ss_db := d, ss_license := license_mark_running now lcfg t (ss_license s)\<rparr>) w)
           else (th\<lparr>at_pc := PcDone False\<rparr>, on_state (recapacity_one now aid) reaped)))"

definition thread_step :: "license_config \<Rightarrow> remote \<Rightarrow> attach_thread \<Rightarrow> attach_world \<Rightarrow> attach_thread \<times> attach_world" where
  "thread_step lcfg r th w =
     (case at_pc th of
        PcCheck \<Rightarrow> thread_check r th w
      | PcBoundary err current \<Rightarrow> thread_boundary lcfg r err current th w
      | PcLaunch \<Rightarrow> thread_launch r th w
      | PcFailed res msg \<Rightarrow> thread_failed lcfg r res msg th w
      | PcRecheck res \<Rightarrow> thread_recheck r res th w
      | PcSettle err current res \<Rightarrow> thread_settle lcfg r err current res th w
      | PcDone b \<Rightarrow> (th, w))"

section \<open>Claims and the other writers\<close>

definition heartbeat_timeout :: "db \<Rightarrow> int" where
  "heartbeat_timeout d =
     (case get_setting d ''aedt_pool_session_heartbeat_timeout_seconds'' of
        None \<Rightarrow> 600
      | Some v \<Rightarrow> if v = [] then 600 else (case py_int v of None \<Rightarrow> 600 | Some n \<Rightarrow> max 30 n))"

text \<open>The claim at the end of \<open>reserve_task_on_allocation\<close>: the row becomes attaching under the new
  token, the license claim is recorded and a thread for the attach is started.\<close>

definition claim_task ::
  "license_config \<Rightarrow> int \<Rightarrow> task_row \<Rightarrow> alloc_row \<Rightarrow> string \<Rightarrow> attach_world \<Rightarrow> attach_world" where
  "claim_task lcfg now t a token w =
     (if token = [] \<or> token \<in> set (aw_tokens w) then w
      else (let d = world_db w;
                (d1, won) = (if task_aedt_backend t = Pooled
                  then update_pooled_task_if_reserved_capacity now d (t_id t) (a_id a)
                         ((now - seconds (heartbeat_timeout d)) div 1000000 * 1000000) (now div 1000000 * 1000000)
                         (aedt_pool_project_cpus d) (claim_fields now a token)
                  else update_task_if_status now d (t_id t) [Queued] (claim_fields now a token));
                w1 = w\<lparr>aw_tokens := token # aw_tokens w\<rparr> in
        if \<not> won then w1
        else w1\<lparr>aw_state := recapacity_one now (a_id a) ((aw_state w)\<lparr>ss_db := d1,
                  ss_license := license_record_claim now lcfg t token (ss_license (aw_state w))\<rparr>),
                aw_threads := aw_threads w @ [\<lparr>at_task = t\<lparr>t_status := Attaching,
                   t_allocation_id := Some (a_id a), t_account_name := a_account_name a,
                   t_attach_token := token, t_launch_started_at := Blank\<rparr>, at_alloc = a, at_pc = PcCheck\<rparr>]\<rparr>))"

text \<open>One round of \<open>request_cancel_task\<close> on the row it observed.\<close>

definition cancel_attempt :: "license_config \<Rightarrow> int \<Rightarrow> task_row \<Rightarrow> sched_state \<Rightarrow> sched_state \<times> bool" where
  "cancel_attempt lcfg now t s =
     (if t_status t \<notin> {Queued, Attaching, Running} then (s, False)
      else (let (d, won) = update_task_if_status now (ss_db s) (t_id t) [t_status t] (cancelled_fields now) in
        if \<not> won then (s\<lparr>ss_db := d\<rparr>, False)
        else (let s1 = on_task_terminal lcfg t (s\<lparr>ss_db := d\<rparr>) in
              (case t_allocation_id t of None \<Rightarrow> (s1, True)
               | Some i \<Rightarrow> if i = 0 then (s1, True) else (on_db (recalculate_allocation_capacity now None) s1, True)))))"

definition finalize_timed_out_task ::
  "sched_config \<Rightarrow> license_config \<Rightarrow> slurm_env \<Rightarrow> int \<Rightarrow> task_row \<Rightarrow> sched_state \<Rightarrow> sched_state \<times> bool" where
  "finalize_timed_out_task cfg lcfg env now t s =
     (let (d, won) = update_task_if_status now (ss_db s) (t_id t) [Attaching, Running]
            (failed_fields now (''task timed out after '' @ show_int (t_timeout_seconds t) @ ''s'')
             @ [t_exit_code_update (\<lambda>_. Some 124)]) in
      if \<not> won then (s\<lparr>ss_db := d\<rparr>, False)
      else (close_allocation_after_exclusive_task cfg env now t (on_task_terminal lcfg t (s\<lparr>ss_db := d\<rparr>)), True))"

definition task_timed_out :: "int \<Rightarrow> task_row \<Rightarrow> bool" where
  "task_timed_out now t =
     (0 < t_timeout_seconds t \<and>
      (case timestamp (stamp_or (t_started_at t) (stamp_or (t_attached_at t) (t_created_at t))) of
         None \<Rightarrow> False | Some s \<Rightarrow> seconds (t_timeout_seconds t) \<le> now - s))"

definition requeue_task_for_rebalance :: "license_config \<Rightarrow> int \<Rightarrow> task_row \<Rightarrow> sched_state \<Rightarrow> sched_state" where
  "requeue_task_for_rebalance lcfg now t s =
     (let s1 = on_db (\<lambda>d. record_event d ''task_requeued'' ''task'' (t_id t)) s;
          s2 = s1\<lparr>ss_license := license_mark_terminal lcfg t (ss_license s1)\<rparr>
      in on_db (\<lambda>d. update_task now d (t_id t) (requeue_fields t)) s2)"

definition recover_attaching_task :: "license_config \<Rightarrow> int \<Rightarrow> task_row \<Rightarrow> sched_state \<Rightarrow> sched_state" where
  "recover_attaching_task lcfg now t s =
     (if t_attach_token t \<noteq> [] \<and> t_launch_started_at t = Blank
      then (let (d, won) = update_task_if_attach_claim now (ss_db s) (t_id t) (t_attach_token t) True (requeue_fields t) in
        if \<not> won then s\<lparr>ss_db := d\<rparr>
        else s\<lparr>ss_db := record_event d ''recovered'' ''task'' (t_id t),
               ss_license := license_release_prelaunch_claim lcfg t (ss_license s)\<rparr>)
      else if t_exit_code_path t = [] then on_db (\<lambda>d. record_event d ''recovery_held'' ''task'' (t_id t)) s
      else s)"

text \<open>The failure text a failed task is given is read from its remote logs (\<open>message\<close>) unless the row
  has one.\<close>

definition apply_task_probe ::
  "sched_config \<Rightarrow> license_config \<Rightarrow> slurm_env \<Rightarrow> int \<Rightarrow> string \<Rightarrow> task_row \<Rightarrow> task_probe \<Rightarrow> sched_state \<Rightarrow> sched_state" where
  "apply_task_probe cfg lcfg env now message t p s =
     (let finished = (\<lambda>cols kind s. close_allocation_after_exclusive_task cfg env now t
            (on_task_terminal lcfg t
              (on_db (\<lambda>d. case kind of None \<Rightarrow> update_task now d (t_id t) cols
                 | Some k \<Rightarrow> record_event (update_task now d (t_id t) cols) k ''task'' (t_id t)) s))) in
      case tp_status p of
        JRunning \<Rightarrow>
          if t_status t \<noteq> Running
          then (let s1 = on_db (\<lambda>d. update_task now d (t_id t)
                     [t_status_update (\<lambda>_. Running), t_started_at_update (\<lambda>_. current_timestamp now)]) s
                in s1\<lparr>ss_license := license_mark_running now lcfg t (ss_license s1)\<rparr>)
          else s
      | JCompleted \<Rightarrow> finished [t_status_update (\<lambda>_. Completed), t_exit_code_update (\<lambda>_. tp_exit_code p),
            t_finished_at_update (\<lambda>_. current_timestamp now)] (Some ''task_completed'') s
      | JCancelled \<Rightarrow> finished (cancelled_fields now) None s
      | JFailed \<Rightarrow> finished (failed_fields now (if t_failure_message t \<noteq> [] then t_failure_message t else message)
            @ [t_exit_code_update (\<lambda>_. tp_exit_code p)]) (Some ''task_failed'') s
      | _ \<Rightarrow> s)"

section \<open>Interleavings\<close>

datatype attach_action =
    Claim int task_row alloc_row string
  | Respawn nat
  | Step nat remote
  | CancelAttempt int task_row
  | TimeOut slurm_env int task_row
  | Requeue int task_row
  | Probe slurm_env int string task_row task_probe
  | Restart int

definition restart_world :: "license_config \<Rightarrow> int \<Rightarrow> attach_world \<Rightarrow> attach_world" where
  "restart_world lcfg now w =
     (on_state (\<lambda>s. fold (recover_attaching_task lcfg now) (list_tasks_by_statuses (ss_db s) [Attaching] 5000) s) w)
       \<lparr>aw_threads := []\<rparr>"

fun attach_exec :: "sched_config \<Rightarrow> license_config \<Rightarrow> attach_action \<Rightarrow> attach_world \<Rightarrow> attach_world" where
  "attach_exec cfg lcfg (Claim now t a token) w = claim_task lcfg now t a token w"
| "attach_exec cfg lcfg (Respawn i) w =
     (if i < length (aw_threads w)
      then w\<lparr>aw_threads := aw_threads w @ [(aw_threads w ! i)\<lparr>at_pc := PcCheck\<rparr>]\<rparr> else w)"
| "attach_exec cfg lcfg (Step i r) w =
     (if i < length (aw_threads w)
      then (let (th, w1) = thread_step lcfg r (aw_threads w ! i) w in w1\<lparr>aw_threads := (aw_threads w1)[i := th]\<rparr>)
      else w)"
| "attach_exec cfg lcfg (CancelAttempt now t) w = on_state (\<lambda>s. fst (cancel_attempt lcfg now t s)) w"
| "attach_exec cfg lcfg (TimeOut env now t) w = on_state (\<lambda>s. fst (finalize_timed_out_task cfg lcfg env now t s)) w"
| "attach_exec cfg lcfg (Requeue now t) w = on_state (requeue_task_for_rebalance lcfg now t) w"
| "attach_exec cfg lcfg (Probe env now msg t p) w = on_state (apply_task_probe cfg lcfg env now msg t p) w"
| "attach_exec cfg lcfg (Restart now) w = restart_world lcfg now w"

definition attach_run :: "sched_config \<Rightarrow> license_config \<Rightarrow> attach_action list \<Rightarrow> attach_world \<Rightarrow> attach_world" where
  "attach_run cfg lcfg acts w = fold (attach_exec cfg lcfg) acts w"

section \<open>Row changes that keep the launch evidence\<close>

text \<open>A row either loses its token or keeps it together with a recorded launch.\<close>

definition safe_change :: "task_row \<Rightarrow> task_row \<Rightarrow> bool" where
  "safe_change t t' = ((t_attach_token t' = t_attach_token t
       \<and> (t_launch_started_at t \<noteq> Blank \<longrightarrow> t_launch_started_at t' \<noteq> Blank)) \<or> t_attach_token t' = [])"

lemma safe_change_refl [simp]: "safe_change t t"
  by (simp add: safe_change_def)

lemma safe_change_trans: "safe_change t u \<Longrightarrow> safe_change u v \<Longrightarrow> safe_change t v"
  by (auto simp: safe_change_def)

text \<open>Two databases whose rows are related one by one.\<close>

definition rel_db :: "(task_row \<Rightarrow> task_row \<Rightarrow> bool) \<Rightarrow> db \<Rightarrow> db \<Rightarrow> bool" where
  "rel_db R d d' = (tasks_wf d' \<and> (\<forall>i. rel_option R (get_task d i) (get_task d' i)))"

lemma rel_db_wf: "rel_db R d d' \<Longrightarrow> tasks_wf d'"
  by (simp add: rel_db_def)

lemma update_task_where: "update_task now d i cols = (if cols = [] then d else fst (update_tasks_where now d i (\<lambda>_. True) cols))"
proof (cases "list_ex (\<lambda>t. t_id t = i) (db_tasks d)")
  case False
  then have "map (\<lambda>t. if t_id t = i then f t else t) (db_tasks d) = db_tasks d" for f
    by (intro map_idI) (auto simp: list_ex_iff)
  then show ?thesis using False by (simp add: update_task_def update_tasks_where_def tbl_update_def)
qed (simp add: update_task_def update_tasks_where_def tbl_update_def)

lemmas field_defs = failed_fields_def cancelled_fields_def requeue_fields_def result_fields_def claim_fields_def

text \<open>The columns each writer assigns.\<close>

definition safe_cols :: "task_field list \<Rightarrow> bool" where
  "safe_cols cols \<longleftrightarrow> (\<forall>t. t_id (assign cols t) = t_id t \<and> safe_change t (assign cols t))"

lemma safe_cols [simp]:
  "safe_cols (failed_fields now m)" "safe_cols (cancelled_fields now)" "safe_cols (requeue_fields u)"
  "safe_cols (failed_fields now m @ result_fields r)" "safe_cols (failed_fields now m @ [t_exit_code_update f])"
  "safe_cols (t_failure_message_update g # result_fields r)"
  "safe_cols ([t_status_update h, t_started_at_update k] @ result_fields r)"
  "safe_cols [t_status_update h, t_started_at_update k]"
  "safe_cols [t_status_update h, t_exit_code_update f, t_finished_at_update k]"
  "safe_cols [t_launch_started_at_update (\<lambda>_. current_timestamp now)]"
  by (simp_all add: safe_cols_def field_defs safe_change_def current_timestamp_def)

lemma claim_fields_id [simp]: "t_id (assign (claim_fields now a k) t) = t_id t"
  by (simp add: field_defs)

lemma db_tasks_capacity [simp]: "db_tasks (recalculate_allocation_capacity now ids d) = db_tasks d"
  by (simp add: recalculate_allocation_capacity_def update_allocation_capacities_def)

lemma db_tasks_recapacity [simp]:
  "db_tasks (ss_db (recapacity now aid s)) = db_tasks (ss_db s)"
  "db_tasks (ss_db (recapacity_one now aid s)) = db_tasks (ss_db s)"
  by (simp_all add: recapacity_def recapacity_one_def)

lemma ss_db_on_task_terminal [simp]: "ss_db (on_task_terminal lcfg t s) = ss_db s"
  by (simp add: on_task_terminal_def)

lemma db_tasks_exclusive [simp]:
  "db_tasks (ss_db (close_allocation_after_exclusive_task cfg env now t s)) = db_tasks (ss_db s)"
  by (simp add: close_allocation_after_exclusive_task_def close_allocation_db_tasks split: option.splits)

lemma db_tasks_terminal_write:
  "db_tasks (ss_db (terminal_write lcfg now tid k u cols s))
     = db_tasks (fst (update_task_if_attach_claim now (ss_db s) tid k False cols))"
  by (simp add: terminal_write_def Let_def split: prod.splits)

section \<open>What the conditional writers can do to a row\<close>

text \<open>
  A relation between a row and its later version that holds for every safe change of a row that is
  not terminal. The conditional writers (attach threads, cancellation, time-outs, recovery) stay
  within each such relation: their guards never match a terminal row.
\<close>

locale row_relation =
  fixes R :: "task_row \<Rightarrow> task_row \<Rightarrow> bool"
  assumes R_refl: "R t t"
    and R_trans: "R t u \<Longrightarrow> R u v \<Longrightarrow> R t v"
    and R_live: "t_status t \<notin> terminal_statuses \<Longrightarrow> safe_change t u \<Longrightarrow> R t u"
begin

lemma same: "tasks_wf d \<Longrightarrow> db_tasks d' = db_tasks d \<Longrightarrow> rel_db R d d'"
  by (simp add: rel_db_def tasks_wf_def get_task_def option.rel_refl R_refl)

lemma trans:
  assumes "rel_db R d e" and "rel_db R e f"
  shows "rel_db R d f"
proof -
  have "rel_option R (get_task d i) (get_task f i)" for i
    using assms by (cases "get_task d i"; cases "get_task e i"; cases "get_task f i")
      (auto simp: rel_db_def dest!: spec [of _ i] intro: R_trans)
  then show ?thesis using assms by (simp add: rel_db_def)
qed

lemma same_tasks: "rel_db R d e \<Longrightarrow> db_tasks f = db_tasks e \<Longrightarrow> rel_db R d f"
  using same trans rel_db_wf by blast

lemma where_live:
  assumes "tasks_wf d" and "safe_cols cols" and "\<And>t. P t \<Longrightarrow> t_status t \<notin> terminal_statuses"
  shows "rel_db R d (fst (update_tasks_where now d i P cols))"
proof -
  have id: "\<And>t. t_id (assign cols t) = t_id t" using assms(2) by (simp add: safe_cols_def)
  have touch: "R t (touch_task now (assign cols t))" if "P t" for t
    using assms(2,3) that by (intro R_live) (auto simp: safe_cols_def safe_change_def)
  have "rel_option R (get_task d j) (get_task (fst (update_tasks_where now d i P cols)) j)" for j
    using touch by (cases "get_task d j") (auto simp: get_task_where [OF id] R_refl)
  then show ?thesis using update_tasks_where_wf [OF assms(1) id] by (simp add: rel_db_def)
qed

lemma claim_write:
  assumes "tasks_wf d" and "safe_cols cols"
  shows "rel_db R d (fst (update_task_if_attach_claim now d i token b cols))"
  using where_live [OF assms, of "\<lambda>t. t_status t = Attaching \<and> t_attach_token t = token \<and> (b \<longrightarrow> t_launch_started_at t = Blank)"]
    same [OF assms(1)] by (simp add: update_task_if_attach_claim_def terminal_statuses_def)

lemma status_write:
  assumes "tasks_wf d" and "safe_cols cols" and "\<forall>x \<in> set ss. x \<notin> terminal_statuses"
  shows "rel_db R d (fst (update_task_if_status now d i ss cols))"
  using where_live [OF assms(1,2), of "\<lambda>t. t_status t \<in> set ss"] same [OF assms(1)] assms(3)
  by (simp add: update_task_if_status_def)

lemma terminal_claim_write:
  assumes "tasks_wf (ss_db s)" and "safe_cols cols"
  shows "rel_db R (ss_db s) (ss_db (terminal_write lcfg now tid k u cols s))"
  by (rule same_tasks [OF claim_write [OF assms]]) (simp add: db_tasks_terminal_write)

lemma cancel: "tasks_wf (ss_db s) \<Longrightarrow> rel_db R (ss_db s) (ss_db (fst (cancel_attempt lcfg now t s)))"
proof (cases "t_status t \<in> {Queued, Attaching, Running}")
  case True
  assume wf: "tasks_wf (ss_db s)"
  have "rel_db R (ss_db s) (fst (update_task_if_status now (ss_db s) (t_id t) [t_status t] (cancelled_fields now)))"
    using wf True by (intro status_write) (auto simp: terminal_statuses_def)
  then show ?thesis
    by (rule same_tasks) (use True in \<open>simp add: cancel_attempt_def Let_def split: prod.splits option.splits\<close>)
qed (simp add: cancel_attempt_def same)

lemma finalize: "tasks_wf (ss_db s) \<Longrightarrow> rel_db R (ss_db s) (ss_db (fst (finalize_timed_out_task cfg lcfg env now t s)))"
proof -
  assume wf: "tasks_wf (ss_db s)"
  let ?cols = "failed_fields now (''task timed out after '' @ show_int (t_timeout_seconds t) @ ''s'') @ [t_exit_code_update (\<lambda>_. Some 124)]"
  have "rel_db R (ss_db s) (fst (update_task_if_status now (ss_db s) (t_id t) [Attaching, Running] ?cols))"
    using wf by (intro status_write) (simp_all add: terminal_statuses_def)
  then show ?thesis
    by (rule same_tasks) (simp add: finalize_timed_out_task_def Let_def split: prod.splits)
qed

lemma recover: "tasks_wf (ss_db s) \<Longrightarrow> rel_db R (ss_db s) (ss_db (recover_attaching_task lcfg now t s))"
proof -
  assume wf: "tasks_wf (ss_db s)"
  have "rel_db R (ss_db s) (fst (update_task_if_attach_claim now (ss_db s) (t_id t) (t_attach_token t) True (requeue_fields t)))"
    using wf by (intro claim_write) simp_all
  moreover have "db_tasks (ss_db (recover_attaching_task lcfg now t s)) = db_tasks (ss_db s)
     \<or> db_tasks (ss_db (recover_attaching_task lcfg now t s))
       = db_tasks (fst (update_task_if_attach_claim now (ss_db s) (t_id t) (t_attach_token t) True (requeue_fields t)))"
    by (auto simp: recover_attaching_task_def Let_def split: prod.splits)
  ultimately show ?thesis using same_tasks same wf by metis
qed

lemma recover_all: "tasks_wf (ss_db s) \<Longrightarrow> rel_db R (ss_db s) (ss_db (fold (recover_attaching_task lcfg now) ts s))"
proof (induction ts arbitrary: s)
  case (Cons t ts)
  have "rel_db R (ss_db s) (ss_db (recover_attaching_task lcfg now t s))" using Cons.prems by (rule recover)
  with Cons.IH show ?case using trans rel_db_wf by fastforce
qed (simp add: same)

lemma failed_step:
  assumes "thread_failed lcfg r res msg th0 w = (th, w1)" and wf: "tasks_wf (world_db w)"
  shows "rel_db R (world_db w) (world_db w1)"
proof -
  have "safe_cols (failed_fields now msg @ (case res of None \<Rightarrow> [] | Some x \<Rightarrow> result_fields x))" for now
    by (cases res) simp_all
  note terminal_claim_write [OF wf this]
  from same_tasks [OF this] show ?thesis
    using assms(1) by (auto simp: thread_failed_def Let_def)
qed

lemma settle_step:
  assumes "thread_settle lcfg r err current res th0 w = (th, w1)" and wf: "tasks_wf (world_db w)"
  shows "rel_db R (world_db w) (world_db w1)"
proof (cases err)
  case (Some e)
  show ?thesis
  proof (cases "rm_cancel_error r")
    case None
    show ?thesis
      by (rule same_tasks [OF terminal_claim_write [OF wf safe_cols(4)]])
        (use assms(1) Some None in \<open>auto simp: thread_settle_def Let_def\<close>)
  next
    case (Some exc)
    show ?thesis
      by (rule same_tasks [OF claim_write [OF wf safe_cols(6)]])
        (use assms(1) \<open>err = Some e\<close> Some in \<open>auto simp: thread_settle_def Let_def\<close>)
  qed
next
  case None
  obtain d won where upd: "update_task_if_attach_claim (rm_now r) (world_db w) (t_id (at_task th0)) (t_attach_token (at_task th0)) False
      ([t_status_update (\<lambda>_. Running), t_started_at_update (\<lambda>_. current_timestamp (rm_now r))] @ result_fields res) = (d, won)"
    by (cases "update_task_if_attach_claim (rm_now r) (world_db w) (t_id (at_task th0)) (t_attach_token (at_task th0)) False
      ([t_status_update (\<lambda>_. Running), t_started_at_update (\<lambda>_. current_timestamp (rm_now r))] @ result_fields res)")
  have safe: "rel_db R (world_db w) d" using claim_write [OF wf safe_cols(7)] upd by (metis fst_conv)
  show ?thesis
  proof (cases won)
    case True
    have "world_db w1 = d" using assms(1) None upd True by (auto simp: thread_settle_def Let_def)
    then show ?thesis using safe by simp
  next
    case False
    have "db_tasks (world_db w1) = db_tasks (world_db w)"
      using assms(1) None upd False by (auto simp: thread_settle_def Let_def)
    then show ?thesis using wf by (rule same [rotated])
  qed
qed

lemma boundary_step:
  assumes "thread_boundary lcfg r err current th0 w = (th, w1)" and wf: "tasks_wf (world_db w)"
  shows "rel_db R (world_db w) (world_db w1)"
proof (cases err)
  case (Some e)
  show ?thesis
    by (rule same_tasks [OF terminal_claim_write [OF wf safe_cols(1)]])
      (use assms(1) Some in \<open>auto simp: thread_boundary_def Let_def\<close>)
next
  case None
  obtain d won where upd: "update_task_if_attach_claim (rm_now r) (world_db w) (t_id (at_task th0)) (t_attach_token (at_task th0)) True
      [t_launch_started_at_update (\<lambda>_. current_timestamp (rm_now r))] = (d, won)"
    by (cases "update_task_if_attach_claim (rm_now r) (world_db w) (t_id (at_task th0)) (t_attach_token (at_task th0)) True
      [t_launch_started_at_update (\<lambda>_. current_timestamp (rm_now r))]")
  have safe: "rel_db R (world_db w) d" using claim_write [OF wf safe_cols(10)] upd by (metis fst_conv)
  have "db_tasks (world_db w1) = db_tasks d"
    using assms(1) None upd by (auto simp: thread_boundary_def Let_def split: if_splits)
  then show ?thesis by (rule same_tasks [OF safe])
qed

lemma any_step:
  assumes "thread_step lcfg r th0 w = (th, w1)" and wf: "tasks_wf (world_db w)"
  shows "rel_db R (world_db w) (world_db w1)"
proof (cases "at_pc th0")
  case (PcBoundary err current)
  then show ?thesis using assms boundary_step by (simp add: thread_step_def)
next
  case (PcFailed res msg)
  then show ?thesis using assms failed_step by (simp add: thread_step_def)
next
  case (PcSettle err current res)
  then show ?thesis using assms settle_step by (simp add: thread_step_def)
qed (use assms in \<open>auto simp: thread_step_def thread_check_def thread_recheck_def thread_launch_def Let_def same\<close>)

end

text \<open>Two such relations: the launch evidence is kept, and a terminal row is final.\<close>

definition final_change :: "task_row \<Rightarrow> task_row \<Rightarrow> bool" where
  "final_change t u = (t_status t \<in> terminal_statuses \<longrightarrow> u = t)"

interpretation safe: row_relation safe_change
  by unfold_locales (auto intro: safe_change_trans)

interpretation final: row_relation final_change
  by unfold_locales (auto simp: final_change_def)

text \<open>The unconditional writers keep the launch evidence only.\<close>

lemma safe_update_task:
  assumes wf: "tasks_wf d" and cols: "safe_cols cols"
  shows "rel_db safe_change d (update_task now d i cols)"
proof -
  have id: "\<And>t. t_id (assign cols t) = t_id t" using cols by (simp add: safe_cols_def)
  have touch: "safe_change t (touch_task now (assign cols t))" for t
    using cols by (auto simp: safe_cols_def safe_change_def)
  have "rel_option safe_change (get_task d j) (get_task (fst (update_tasks_where now d i (\<lambda>_. True) cols)) j)" for j
    using touch by (cases "get_task d j") (auto simp: get_task_where [OF id])
  then show ?thesis
    using update_tasks_where_wf [OF wf id] wf by (simp add: update_task_where rel_db_def safe.same [unfolded rel_db_def])
qed

lemma safe_requeue: "tasks_wf (ss_db s) \<Longrightarrow> rel_db safe_change (ss_db s) (ss_db (requeue_task_for_rebalance lcfg now t s))"
proof -
  assume wf: "tasks_wf (ss_db s)"
  have "rel_db safe_change (ss_db s) (update_task now (ss_db s) (t_id t) (requeue_fields t))"
    using wf by (intro safe_update_task) simp_all
  then show ?thesis
    by (rule safe.same_tasks) (simp add: requeue_task_for_rebalance_def update_task_def)
qed

lemma safe_probe: "tasks_wf (ss_db s) \<Longrightarrow> rel_db safe_change (ss_db s) (ss_db (apply_task_probe cfg lcfg env now m t p s))"
proof -
  assume wf: "tasks_wf (ss_db s)"
  note upd = safe.same_tasks [OF safe_update_task [OF wf]]
  show ?thesis
  proof (cases "tp_status p")
    case JRunning
    show ?thesis
    proof (cases "t_status t = Running")
      case True
      then show ?thesis using JRunning wf by (simp add: apply_task_probe_def safe.same)
    qed (rule upd [OF safe_cols(8)], simp add: JRunning apply_task_probe_def)
  next
    case JCompleted
    show ?thesis by (rule upd [OF safe_cols(9)]) (simp add: JCompleted apply_task_probe_def)
  next
    case JCancelled
    show ?thesis by (rule upd [OF safe_cols(2)]) (simp add: JCancelled apply_task_probe_def)
  next
    case JFailed
    show ?thesis by (rule upd [OF safe_cols(5)]) (simp add: JFailed apply_task_probe_def)
  qed (use wf in \<open>simp_all add: apply_task_probe_def safe.same\<close>)
qed


section \<open>The launch invariant\<close>

abbreviation thread_pair :: "attach_thread \<Rightarrow> int \<times> string" where
  "thread_pair th \<equiv> (t_id (at_task th), t_attach_token (at_task th))"

text \<open>The launches made or owned: logged remote launches, and threads that crossed the boundary.\<close>

definition launch_pairs :: "attach_world \<Rightarrow> (int \<times> string) list" where
  "launch_pairs w = aw_launched w @ map thread_pair (filter (\<lambda>th. at_pc th = PcLaunch) (aw_threads w))"

definition attach_inv :: "attach_world \<Rightarrow> bool" where
  "attach_inv w = (tasks_wf (world_db w) \<and> distinct (launch_pairs w) \<and> [] \<notin> set (aw_tokens w)
     \<and> (\<forall>p \<in> set (launch_pairs w). snd p \<in> set (aw_tokens w))
     \<and> (\<forall>p \<in> set (launch_pairs w). \<forall>t. get_task (world_db w) (fst p) = Some t \<and> t_attach_token t = snd p
          \<longrightarrow> t_launch_started_at t \<noteq> Blank)
     \<and> (\<forall>i t. get_task (world_db w) i = Some t \<longrightarrow> t_attach_token t \<in> insert [] (set (aw_tokens w)))
     \<and> (\<forall>th \<in> set (aw_threads w). t_attach_token (at_task th) \<in> set (aw_tokens w)))"

lemma distinct_mset_subset:
  assumes "mset xs \<subseteq># mset ys" and "distinct ys"
  shows "distinct xs"
proof -
  have "count (mset xs) a = (if a \<in> set xs then 1 else 0)" for a
  proof -
    have "count (mset xs) a \<le> count (mset ys) a" using assms(1) by (rule mset_subset_eq_count)
    also have "\<dots> \<le> 1" using assms(2) by (simp add: distinct_count_atmost_1)
    finally have "count (mset xs) a \<le> 1" .
    moreover have "0 < count (mset xs) a \<longleftrightarrow> a \<in> set xs" by simp
    ultimately show ?thesis by (metis One_nat_def Suc_leI le_antisym not_gr0)
  qed
  then show ?thesis by (simp add: distinct_count_atmost_1)
qed

text \<open>A safe change of the rows keeps the invariant when no launch is added.\<close>

lemma inv_safe:
  assumes inv: "attach_inv w" and safe: "rel_db safe_change (world_db w) (world_db w')"
    and pairs: "mset (launch_pairs w') \<subseteq># mset (launch_pairs w)" and toks: "aw_tokens w' = aw_tokens w"
    and threads: "\<forall>th \<in> set (aw_threads w'). t_attach_token (at_task th) \<in> set (aw_tokens w)"
  shows "attach_inv w'"
proof -
  have sub: "set (launch_pairs w') \<subseteq> set (launch_pairs w)" using pairs by (metis set_mset_mono set_mset_mset)
  have dist: "distinct (launch_pairs w')"
    using inv distinct_mset_subset [OF pairs] by (simp add: attach_inv_def)
  have origin: "\<exists>t. get_task (world_db w) i = Some t \<and> safe_change t t'" if "get_task (world_db w') i = Some t'" for i t'
    using safe that unfolding rel_db_def by (metis option.rel_cases option.distinct(1) option.inject)
  have "t_launch_started_at t' \<noteq> Blank"
    if p: "p \<in> set (launch_pairs w')" and g: "get_task (world_db w') (fst p) = Some t'" and k: "t_attach_token t' = snd p" for p t'
  proof -
    obtain t where t: "get_task (world_db w) (fst p) = Some t" "safe_change t t'" using origin [OF g] by blast
    have old: "p \<in> set (launch_pairs w)" using p sub by blast
    then have "snd p \<noteq> []" using inv by (metis attach_inv_def)
    then have "t_attach_token t = snd p" "t_launch_started_at t \<noteq> Blank \<longrightarrow> t_launch_started_at t' \<noteq> Blank"
      using t(2) k by (auto simp: safe_change_def)
    moreover have "t_attach_token t = snd p \<longrightarrow> t_launch_started_at t \<noteq> Blank"
      using inv old t(1) unfolding attach_inv_def by blast
    ultimately show ?thesis by blast
  qed
  moreover have "t_attach_token t' \<in> insert [] (set (aw_tokens w))" if "get_task (world_db w') i = Some t'" for i t'
    using origin [OF that] inv by (fastforce simp: attach_inv_def safe_change_def)
  ultimately show ?thesis
    using inv safe sub dist toks threads by (auto simp: attach_inv_def rel_db_def)
qed

lemma launch_pairs_update:
  assumes "i < length ths"
  shows "mset (map thread_pair (filter (\<lambda>th. at_pc th = PcLaunch) (ths[i := th])))
      + (if at_pc (ths ! i) = PcLaunch then {#thread_pair (ths ! i)#} else {#})
    = mset (map thread_pair (filter (\<lambda>th. at_pc th = PcLaunch) ths))
      + (if at_pc th = PcLaunch then {#thread_pair th#} else {#})"
proof -
  obtain a b where ab: "ths = a @ ths ! i # b" "length a = i"
    using assms id_take_nth_drop by (metis length_take min.absorb4)
  have "ths[i := th] = a @ th # b" by (subst ab(1)) (simp add: list_update_append ab(2))
  moreover have "mset (map thread_pair (filter (\<lambda>th. at_pc th = PcLaunch) ths))
      = mset (map thread_pair (filter (\<lambda>th. at_pc th = PcLaunch) (a @ ths ! i # b)))" by (subst ab(1)) (rule refl)
  ultimately show ?thesis by simp
qed

text \<open>A thread step that neither crosses the boundary nor launches.\<close>

lemma inv_quiet_step:
  assumes inv: "attach_inv w" and i: "i < length (aw_threads w)"
    and safe: "rel_db safe_change (world_db w) (world_db w1)" and same: "aw_launched w1 = aw_launched w"
      "aw_tokens w1 = aw_tokens w" "aw_threads w1 = aw_threads w"
    and pc: "at_pc (aw_threads w ! i) \<noteq> PcLaunch" "at_pc th \<noteq> PcLaunch" and task: "at_task th = at_task (aw_threads w ! i)"
  shows "attach_inv (w1\<lparr>aw_threads := (aw_threads w1)[i := th]\<rparr>)"
proof (rule inv_safe [OF inv])
  show "rel_db safe_change (world_db w) (world_db (w1\<lparr>aw_threads := (aw_threads w1)[i := th]\<rparr>))" using safe by simp
  show "mset (launch_pairs (w1\<lparr>aw_threads := (aw_threads w1)[i := th]\<rparr>)) \<subseteq># mset (launch_pairs w)"
    using launch_pairs_update [OF i, of th] pc same by (simp add: launch_pairs_def)
  show "\<forall>u \<in> set (aw_threads (w1\<lparr>aw_threads := (aw_threads w1)[i := th]\<rparr>)). t_attach_token (at_task u) \<in> set (aw_tokens w)"
  proof
    fix u assume "u \<in> set (aw_threads (w1\<lparr>aw_threads := (aw_threads w1)[i := th]\<rparr>))"
    then have "u = th \<or> u \<in> set (aw_threads w)" using set_update_subset_insert same by fastforce
    then show "t_attach_token (at_task u) \<in> set (aw_tokens w)" using inv i task by (auto simp: attach_inv_def)
  qed
  show "aw_tokens (w1\<lparr>aw_threads := (aw_threads w1)[i := th]\<rparr>) = aw_tokens w" using same by simp
qed

lemma claim_cas_where:
  "token \<noteq> [] \<Longrightarrow> cols \<noteq> [] \<Longrightarrow> update_task_if_attach_claim now d i token b cols =
     update_tasks_where now d i (\<lambda>t. t_status t = Attaching \<and> t_attach_token t = token
        \<and> (b \<longrightarrow> t_launch_started_at t = Blank)) cols"
  by (simp add: update_task_if_attach_claim_def)

lemma inv_boundary_won:
  assumes inv: "attach_inv w" and i: "i < length (aw_threads w)" and pc: "at_pc (aw_threads w ! i) \<noteq> PcLaunch"
    and pair: "thread_pair (aw_threads w ! i) = (tid, token)"
    and won: "update_task_if_attach_claim now (world_db w) tid token True
        [t_launch_started_at_update (\<lambda>_. current_timestamp now)] = (d, True)"
    and w1: "world_db w1 = d" "aw_launched w1 = aw_launched w" "aw_tokens w1 = aw_tokens w" "aw_threads w1 = aw_threads w"
    and th: "th = (aw_threads w ! i)\<lparr>at_pc := PcLaunch\<rparr>"
  shows "attach_inv (w1\<lparr>aw_threads := (aw_threads w1)[i := th]\<rparr>)"
proof -
  let ?w = "w1\<lparr>aw_threads := (aw_threads w1)[i := th]\<rparr>"
  let ?cols = "[t_launch_started_at_update (\<lambda>_. current_timestamp now)]"
  have wf: "tasks_wf (world_db w)" using inv by (simp add: attach_inv_def)
  have "t_attach_token (at_task (aw_threads w ! i)) \<in> set (aw_tokens w)" "[] \<notin> set (aw_tokens w)"
    using inv nth_mem [OF i] by (auto simp: attach_inv_def)
  then have tok: "token \<in> set (aw_tokens w)" "token \<noteq> []" using pair by auto
  let ?P = "\<lambda>t. t_status t = Attaching \<and> t_attach_token t = token \<and> t_launch_started_at t = Blank"
  have cas: "update_tasks_where now (world_db w) tid ?P ?cols = (d, True)" using won tok by (simp add: claim_cas_where)
  obtain t where t: "get_task (world_db w) tid = Some t" "?P t"
    using update_tasks_where_snd [OF wf, of now tid ?P ?cols] cas by auto
  have fresh: "(tid, token) \<notin> set (launch_pairs w)"
    using inv t by (fastforce simp: attach_inv_def)
  have pairs: "mset (launch_pairs ?w) = add_mset (tid, token) (mset (launch_pairs w))"
    using launch_pairs_update [OF i, of th] pc pair th w1(2,4) by (simp add: launch_pairs_def)
  have get: "get_task d j = map_option (\<lambda>t. if t_id t = tid \<and> ?P t
      then touch_task now (t\<lparr>t_launch_started_at := current_timestamp now\<rparr>) else t) (get_task (world_db w) j)" for j
    using get_task_where [of ?cols now "world_db w" tid ?P j] cas by (simp cong: if_cong)
  have new: "get_task d tid = Some (touch_task now (t\<lparr>t_launch_started_at := current_timestamp now\<rparr>))"
    using get [of tid] t by (auto simp: get_task_def dest: tbl_get_key)
  have "set (launch_pairs ?w) = insert (tid, token) (set (launch_pairs w))"
    using pairs by (metis set_mset_add_mset_insert set_mset_mset)
  moreover have "distinct (launch_pairs ?w)"
  proof -
    have "mset (launch_pairs ?w) = mset ((tid, token) # launch_pairs w)" using pairs by simp
    then show ?thesis using fresh inv mset_eq_imp_distinct_iff [of "launch_pairs ?w" "(tid, token) # launch_pairs w"]
      by (simp add: attach_inv_def)
  qed
  moreover have "t_launch_started_at u \<noteq> Blank"
    if "p \<in> set (launch_pairs w)" "get_task d (fst p) = Some u" "t_attach_token u = snd p" for p u
    using that get [of "fst p"] inv
    by (auto simp: attach_inv_def current_timestamp_def split: if_splits)
  moreover have "tasks_wf d" using update_tasks_where_wf [OF wf, of ?cols now tid ?P] cas by simp
  moreover have "t_attach_token u \<in> insert [] (set (aw_tokens w))" if g: "get_task d j = Some u" for j u
  proof -
    obtain t0 where "get_task (world_db w) j = Some t0" "t_attach_token u = t_attach_token t0"
      using g get [of j] by (cases "get_task (world_db w) j") (auto split: if_splits)
    then show ?thesis using inv unfolding attach_inv_def by metis
  qed
  moreover have "\<forall>u \<in> set (aw_threads ?w). t_attach_token (at_task u) \<in> set (aw_tokens w)"
  proof
    fix u assume "u \<in> set (aw_threads ?w)"
    then have "u = th \<or> u \<in> set (aw_threads w)" using set_update_subset_insert w1(4) by fastforce
    then show "t_attach_token (at_task u) \<in> set (aw_tokens w)" using inv i th by (auto simp: attach_inv_def)
  qed
  moreover have "\<forall>u. get_task d tid = Some u \<and> t_attach_token u = token \<longrightarrow> t_launch_started_at u \<noteq> Blank"
    using new by (simp add: current_timestamp_def)
  moreover have "[] \<notin> set (aw_tokens w)" "\<forall>p \<in> set (launch_pairs w). snd p \<in> set (aw_tokens w)"
    using inv by (simp_all add: attach_inv_def)
  ultimately show ?thesis
    unfolding attach_inv_def using tok(1) w1(1,3) by simp
qed

lemma inv_launch:
  assumes inv: "attach_inv w" and i: "i < length (aw_threads w)" and pc: "at_pc (aw_threads w ! i) = PcLaunch"
    and step: "thread_launch r (aw_threads w ! i) w = (th, w1)"
  shows "attach_inv (w1\<lparr>aw_threads := (aw_threads w1)[i := th]\<rparr>)"
proof (rule inv_safe [OF inv])
  let ?w = "w1\<lparr>aw_threads := (aw_threads w1)[i := th]\<rparr>"
  have th: "at_pc th \<noteq> PcLaunch" "at_task th = at_task (aw_threads w ! i)"
    and w1: "aw_state w1 = aw_state w" "aw_tokens w1 = aw_tokens w" "aw_threads w1 = aw_threads w"
      "aw_launched w1 = aw_launched w @ [thread_pair (aw_threads w ! i)]"
    using step by (auto simp: thread_launch_def Let_def split: attach_outcome.splits)
  show "rel_db safe_change (world_db w) (world_db ?w)" using w1 inv by (simp add: attach_inv_def safe.same)
  show "mset (launch_pairs ?w) \<subseteq># mset (launch_pairs w)"
    using launch_pairs_update [OF i, of th] th pc w1 by (simp add: launch_pairs_def)
  show "aw_tokens ?w = aw_tokens w" using w1 by simp
  show "\<forall>u \<in> set (aw_threads ?w). t_attach_token (at_task u) \<in> set (aw_tokens w)"
  proof
    fix u assume "u \<in> set (aw_threads ?w)"
    then have "u = th \<or> u \<in> set (aw_threads w)" using set_update_subset_insert w1(3) by fastforce
    then show "t_attach_token (at_task u) \<in> set (aw_tokens w)" using inv i th(2) by (auto simp: attach_inv_def)
  qed
qed

text \<open>What the other steps leave alone.\<close>

lemma thread_step_frame:
  assumes "thread_step lcfg r th0 w = (th, w1)" and "at_pc th0 \<noteq> PcLaunch"
  shows "aw_launched w1 = aw_launched w" "aw_tokens w1 = aw_tokens w" "aw_threads w1 = aw_threads w"
    "at_task th = at_task th0" "(\<forall>err current. at_pc th0 \<noteq> PcBoundary err current) \<Longrightarrow> at_pc th \<noteq> PcLaunch"
  using assms
  by (auto simp: thread_step_def thread_check_def thread_boundary_def thread_failed_def thread_recheck_def
      thread_settle_def Let_def split: attach_pc.splits option.splits prod.splits if_splits)

lemma thread_boundary_won:
  assumes "thread_boundary lcfg r err current th0 w = (th, w1)" and "at_pc th = PcLaunch"
  shows "\<exists>d. update_task_if_attach_claim (rm_now r) (world_db w) (t_id (at_task th0)) (t_attach_token (at_task th0)) True
        [t_launch_started_at_update (\<lambda>_. current_timestamp (rm_now r))] = (d, True) \<and> world_db w1 = d"
    "aw_launched w1 = aw_launched w" "aw_tokens w1 = aw_tokens w" "aw_threads w1 = aw_threads w" "th = th0\<lparr>at_pc := PcLaunch\<rparr>"
  using assms by (auto simp: thread_boundary_def Let_def split: option.splits prod.splits if_splits)

lemma inv_step:
  assumes inv: "attach_inv w"
  shows "attach_inv (attach_exec cfg lcfg (Step i r) w)"
proof (cases "i < length (aw_threads w)")
  case True
  let ?th0 = "aw_threads w ! i"
  obtain th w1 where step: "thread_step lcfg r ?th0 w = (th, w1)" by (cases "thread_step lcfg r ?th0 w")
  have exec: "attach_exec cfg lcfg (Step i r) w = w1\<lparr>aw_threads := (aw_threads w1)[i := th]\<rparr>"
    using True step by simp
  have wf: "tasks_wf (world_db w)" using inv by (simp add: attach_inv_def)
  note safe = safe.any_step [OF step wf]
  consider "at_pc ?th0 = PcLaunch" | "at_pc ?th0 \<noteq> PcLaunch" "at_pc th \<noteq> PcLaunch"
    | err current where "at_pc ?th0 = PcBoundary err current" "at_pc th = PcLaunch"
    using thread_step_frame(5) [OF step] by (metis attach_pc.distinct)
  then show ?thesis
  proof cases
    case 1
    then show ?thesis unfolding exec using step by (intro inv_launch [OF inv True]) (simp_all add: thread_step_def)
  next
    case 2
    show ?thesis unfolding exec
      by (rule inv_quiet_step [OF inv True safe]) (use thread_step_frame(1-4) [OF step 2(1)] 2 in simp_all)
  next
    case (3 err current)
    then have run: "thread_boundary lcfg r err current ?th0 w = (th, w1)" using step by (simp add: thread_step_def)
    obtain d where d: "update_task_if_attach_claim (rm_now r) (world_db w) (t_id (at_task ?th0)) (t_attach_token (at_task ?th0)) True
        [t_launch_started_at_update (\<lambda>_. current_timestamp (rm_now r))] = (d, True)" "world_db w1 = d"
      using thread_boundary_won(1) [OF run 3(2)] by blast
    show ?thesis unfolding exec
      by (rule inv_boundary_won [OF inv True _ refl d(1) d(2)])
        (use thread_boundary_won(2-) [OF run 3(2)] 3 in simp_all)
  qed
qed (use inv in simp)

lemma inv_state:
  assumes "attach_inv w" and "rel_db safe_change (world_db w) (ss_db s)"
  shows "attach_inv (w\<lparr>aw_state := s\<rparr>)"
  by (rule inv_safe [OF assms(1)]) (use assms in \<open>simp_all add: launch_pairs_def attach_inv_def\<close>)

lemma get_task_key: "get_task d i = Some t \<Longrightarrow> t_id t = i"
  by (simp add: get_task_def tbl_get_key)

lemma get_task_mem: "tasks_wf d \<Longrightarrow> t \<in> set (db_tasks d) \<Longrightarrow> get_task d (t_id t) = Some t"
  unfolding get_task_def tasks_wf_def by (rule tbl_get_unique)

text \<open>A claim replaces the token of one queued row by a fresh one.\<close>

definition claimed_db :: "string \<Rightarrow> db \<Rightarrow> db \<Rightarrow> bool" where
  "claimed_db token d d' = (tasks_wf d' \<and> (\<forall>i. get_task d' i = None \<longrightarrow> get_task d i = None)
     \<and> (\<forall>i t'. get_task d' i = Some t' \<longrightarrow> get_task d i = Some t'
          \<or> (t_attach_token t' = token \<and> (\<exists>t. get_task d i = Some t \<and> t_status t = Queued))))"

lemma claimed_where:
  assumes "tasks_wf d" and guard: "\<And>t. P t \<Longrightarrow> t_status t = Queued"
  shows "claimed_db token d (fst (update_tasks_where now d i P (claim_fields now a token)))"
proof -
  have tok: "t_attach_token (touch_task now (assign (claim_fields now a token) t)) = token" for t by (simp add: claim_fields_def)
  have "get_task d j = Some t' \<or> (t_attach_token t' = token \<and> (\<exists>t. get_task d j = Some t \<and> t_status t = Queued))"
    if "get_task (fst (update_tasks_where now d i P (claim_fields now a token))) j = Some t'" for j t'
    using that tok guard by (cases "get_task d j") (auto simp: get_task_where split: if_splits)
  moreover have "get_task d j = None"
    if "get_task (fst (update_tasks_where now d i P (claim_fields now a token))) j = None" for j
    using that by (simp add: get_task_where)
  ultimately show ?thesis using update_tasks_where_wf [OF assms(1)] by (simp add: claimed_db_def)
qed

lemma claimed_same: "claimed_db token d e \<Longrightarrow> db_tasks f = db_tasks e \<Longrightarrow> claimed_db token d f"
  by (simp add: claimed_db_def tasks_wf_def get_task_def)

lemma claimed_refl: "tasks_wf d \<Longrightarrow> claimed_db token d d"
  by (simp add: claimed_db_def)

lemma claimed_pooled:
  assumes "tasks_wf d"
  shows "claimed_db token d (fst (update_pooled_task_if_reserved_capacity now d tid aid c st pc (claim_fields now a token)))"
proof (cases "db_aedt d")
  case (Some ts)
  show ?thesis
    by (simp add: update_pooled_task_if_reserved_capacity_def Some Let_def claimed_refl assms)
      (rule impI, rule claimed_where [OF assms], simp)
qed (simp add: update_pooled_task_if_reserved_capacity_def claimed_refl assms)

lemma claimed_status:
  assumes "tasks_wf d"
  shows "claimed_db token d (fst (update_task_if_status now d tid [Queued] (claim_fields now a token)))"
  using claimed_where [OF assms, of "\<lambda>t. t_status t = Queued"] claimed_refl [OF assms]
  by (simp add: update_task_if_status_def)

lemma claim_task_frame:
  fixes lcfg now t a
  assumes wf: "tasks_wf (world_db w)" and new: "\<not> (token = [] \<or> token \<in> set (aw_tokens w))"
  defines "w' \<equiv> claim_task lcfg now t a token w"
  shows "aw_tokens w' = token # aw_tokens w" "aw_launched w' = aw_launched w"
    "claimed_db token (world_db w) (world_db w')"
    "\<exists>th. aw_threads w' \<in> {aw_threads w, aw_threads w @ [th]} \<and> at_pc th = PcCheck \<and> t_attach_token (at_task th) = token"
proof -
  let ?d = "world_db w"
  define u where "u = (if task_aedt_backend t = Pooled
      then update_pooled_task_if_reserved_capacity now ?d (t_id t) (a_id a)
             ((now - seconds (heartbeat_timeout ?d)) div 1000000 * 1000000) (now div 1000000 * 1000000)
             (aedt_pool_project_cpus ?d) (claim_fields now a token)
      else update_task_if_status now ?d (t_id t) [Queued] (claim_fields now a token))"
  have cl: "claimed_db token ?d (fst u)" using claimed_pooled [OF wf] claimed_status [OF wf] by (simp add: u_def)
  have w: "aw_tokens w' = token # aw_tokens w \<and> aw_launched w' = aw_launched w
      \<and> (db_tasks (world_db w') = db_tasks (fst u) \<or> world_db w' = ?d)
      \<and> (\<exists>th. aw_threads w' \<in> {aw_threads w, aw_threads w @ [th]} \<and> at_pc th = PcCheck \<and> t_attach_token (at_task th) = token)"
    using new unfolding w'_def claim_task_def Let_def u_def [symmetric]
    by (auto split: prod.splits)
      (metis (no_types, lifting) attach_pc.distinct attach_thread.select_convs task_row.select_convs)+
  then show "aw_tokens w' = token # aw_tokens w" "aw_launched w' = aw_launched w"
    "\<exists>th. aw_threads w' \<in> {aw_threads w, aw_threads w @ [th]} \<and> at_pc th = PcCheck \<and> t_attach_token (at_task th) = token"
    by blast+
  show "claimed_db token ?d (world_db w')" using w cl claimed_refl [OF wf] claimed_same by metis
qed

text \<open>The rows after a claim: those of one conditional write on a queued row, or unchanged.\<close>

lemma claim_task_db:
  "db_tasks (world_db (claim_task lcfg now t a token w)) = db_tasks (world_db w)
   \<or> (\<exists>Q. db_tasks (world_db (claim_task lcfg now t a token w))
        = db_tasks (fst (update_tasks_where now (world_db w) (t_id t) (\<lambda>r. t_status r = Queued \<and> Q r) (claim_fields now a token))))"
proof -
  let ?d = "world_db w"
  have pooled: "fst (update_pooled_task_if_reserved_capacity now d i aid c st pc cols) = d
      \<or> (\<exists>Q. fst (update_pooled_task_if_reserved_capacity now d i aid c st pc cols)
          = fst (update_tasks_where now d i (\<lambda>r. t_status r = Queued \<and> Q r) cols))" for d i aid c st pc cols
  proof (cases "cols = [] \<or> db_aedt d = None")
    case False
    then obtain ts where ts: "db_aedt d = Some ts" "(cols = []) = False" by auto
    show ?thesis unfolding update_pooled_task_if_reserved_capacity_def Let_def ts if_False option.case by (intro disjI2 exI) (rule refl)
  qed (auto simp: update_pooled_task_if_reserved_capacity_def)
  have status: "fst (update_task_if_status now d i [Queued] cols) = d
      \<or> (\<exists>Q. fst (update_task_if_status now d i [Queued] cols) = fst (update_tasks_where now d i (\<lambda>r. t_status r = Queued \<and> Q r) cols))" for d i cols
    by (auto simp: update_task_if_status_def intro: exI [of _ "\<lambda>_. True"])
  define u where "u = (if task_aedt_backend t = Pooled
      then update_pooled_task_if_reserved_capacity now ?d (t_id t) (a_id a)
             ((now - seconds (heartbeat_timeout ?d)) div 1000000 * 1000000) (now div 1000000 * 1000000)
             (aedt_pool_project_cpus ?d) (claim_fields now a token)
      else update_task_if_status now ?d (t_id t) [Queued] (claim_fields now a token))"
  have "fst u = ?d \<or> (\<exists>Q. fst u = fst (update_tasks_where now ?d (t_id t) (\<lambda>r. t_status r = Queued \<and> Q r) (claim_fields now a token)))"
  proof (cases "task_aedt_backend t = Pooled")
    case True
    show ?thesis unfolding u_def if_P [OF True] by (rule pooled)
  next
    case False
    show ?thesis unfolding u_def if_not_P [OF False] by (rule status)
  qed
  moreover have "db_tasks (world_db (claim_task lcfg now t a token w)) \<in> {db_tasks ?d, db_tasks (fst u)}"
    unfolding claim_task_def Let_def u_def [symmetric] by (simp split: prod.split)
  ultimately show ?thesis by (metis insertE singletonD)
qed

lemma inv_claim:
  assumes inv: "attach_inv w"
  shows "attach_inv (claim_task lcfg now t a token w)"
proof (cases "token = [] \<or> token \<in> set (aw_tokens w)")
  case False
  have wf: "tasks_wf (world_db w)" using inv by (simp add: attach_inv_def)
  let ?w = "claim_task lcfg now t a token w"
  note w = claim_task_frame [OF wf False, of lcfg now t a]
  note cl' = w(3)
  have pairs: "launch_pairs ?w = launch_pairs w" using w(2,4) by (auto simp: launch_pairs_def)
  have fresh: "\<forall>p \<in> set (launch_pairs w). snd p \<noteq> token" using inv False by (auto simp: attach_inv_def)
  show ?thesis
    unfolding attach_inv_def pairs
  proof (intro conjI)
    show "tasks_wf (world_db ?w)" using cl' by (simp add: claimed_db_def)
    show "distinct (launch_pairs w)" using inv by (simp add: attach_inv_def)
    show "[] \<notin> set (aw_tokens ?w)" using inv False w(1) by (auto simp: attach_inv_def)
    show "\<forall>p \<in> set (launch_pairs w). snd p \<in> set (aw_tokens ?w)" using inv w(1) by (simp add: attach_inv_def)
    show "\<forall>p \<in> set (launch_pairs w). \<forall>t. get_task (world_db ?w) (fst p) = Some t \<and> t_attach_token t = snd p
          \<longrightarrow> t_launch_started_at t \<noteq> Blank"
      using cl' fresh inv unfolding claimed_db_def attach_inv_def by metis
    show "\<forall>i t. get_task (world_db ?w) i = Some t \<longrightarrow> t_attach_token t \<in> insert [] (set (aw_tokens ?w))"
      using cl' inv w(1) unfolding claimed_db_def attach_inv_def by (metis insert_iff list.set_intros)
    show "\<forall>th \<in> set (aw_threads ?w). t_attach_token (at_task th) \<in> set (aw_tokens ?w)"
      using inv w(1,4) by (auto simp: attach_inv_def)
  qed
qed (use inv in \<open>auto simp: claim_task_def\<close>)

lemma attach_inv_exec: "attach_inv w \<Longrightarrow> attach_inv (attach_exec cfg lcfg act w)"
proof (cases act)
  case (Claim now t a token)
  then show "attach_inv w \<Longrightarrow> ?thesis" by (simp add: inv_claim)
next
  case (Respawn i)
  assume inv: "attach_inv w"
  show ?thesis
  proof (cases "i < length (aw_threads w)")
    case True
    show ?thesis unfolding Respawn
      by (rule inv_safe [OF inv])
        (use inv True nth_mem [OF True] in \<open>auto simp: launch_pairs_def attach_inv_def safe.same\<close>)
  qed (use inv Respawn in simp)
next
  case (Step i r)
  then show "attach_inv w \<Longrightarrow> ?thesis" using inv_step by simp
next
  case (Restart now)
  assume inv: "attach_inv w"
  show ?thesis unfolding Restart
    by (rule inv_safe [OF inv])
      (use inv in \<open>simp_all add: restart_world_def launch_pairs_def attach_inv_def safe.recover_all\<close>)
qed (simp_all add: inv_state safe.cancel safe.finalize safe_requeue safe_probe attach_inv_def [THEN iffD1, THEN conjunct1])

section \<open>At most one launch per claim\<close>

definition fresh_world :: "sched_state \<Rightarrow> attach_world" where
  "fresh_world s = \<lparr>aw_state = s, aw_launched = [], aw_reaped = [], aw_tokens = [], aw_threads = []\<rparr>"

definition unclaimed :: "sched_state \<Rightarrow> bool" where
  "unclaimed s = (tasks_wf (ss_db s) \<and> (\<forall>t \<in> set (db_tasks (ss_db s)). t_attach_token t = []))"

lemma inv_fresh: "unclaimed s \<Longrightarrow> attach_inv (fresh_world s)"
  by (auto simp: unclaimed_def fresh_world_def attach_inv_def launch_pairs_def get_task_def dest: tbl_get_in)

lemma attach_run_simps [simp]:
  "attach_run cfg lcfg [] w = w"
  "attach_run cfg lcfg (act # acts) w = attach_run cfg lcfg acts (attach_exec cfg lcfg act w)"
  by (simp_all add: attach_run_def)

lemma inv_run: "attach_inv w \<Longrightarrow> attach_inv (attach_run cfg lcfg acts w)"
  by (induction acts arbitrary: w) (simp_all add: attach_inv_exec)

text \<open>C1. Single launch: under every interleaving of claims, attach threads (even several threads for
  one reservation), cancellations, time-outs, requeues, status probes and process restarts, the
  remote worker of a claim is started at most once: no task is launched twice under one attach
  token.\<close>

theorem attach_launch_at_most_once:
  assumes "unclaimed s"
  shows "distinct (aw_launched (attach_run cfg lcfg acts (fresh_world s)))"
  using inv_run [OF inv_fresh [OF assms], of cfg lcfg acts] by (simp add: attach_inv_def launch_pairs_def)

text \<open>The log of launches is only appended to.\<close>

lemma exec_log_prefix:
  "attach_exec cfg lcfg act (w\<lparr>aw_launched := p # aw_launched w\<rparr>)
     = (attach_exec cfg lcfg act w)\<lparr>aw_launched := p # aw_launched (attach_exec cfg lcfg act w)\<rparr>"
  by (cases act)
    (auto simp: claim_task_def thread_step_def thread_check_def thread_boundary_def thread_launch_def thread_failed_def
      thread_recheck_def thread_settle_def restart_world_def Let_def
      split: attach_pc.splits option.splits prod.splits if_splits)

lemma run_log_prefix:
  "attach_run cfg lcfg acts (w\<lparr>aw_launched := p # aw_launched w\<rparr>)
     = (attach_run cfg lcfg acts w)\<lparr>aw_launched := p # aw_launched (attach_run cfg lcfg acts w)\<rparr>"
proof (induction acts arbitrary: w)
  case (Cons act acts)
  show ?case using Cons.IH [of "attach_exec cfg lcfg act w"] by (simp add: exec_log_prefix)
qed simp

lemma dead_token_never_launches:
  assumes inv: "attach_inv w" and k: "k \<in> set (aw_tokens w)" and fresh: "(i, k) \<notin> set (launch_pairs w)"
    and dead: "\<forall>t. get_task (world_db w) i = Some t \<longrightarrow> t_attach_token t \<noteq> k"
  shows "(i, k) \<notin> set (aw_launched (attach_run cfg lcfg acts w))"
proof -
  let ?w = "w\<lparr>aw_launched := (i, k) # aw_launched w\<rparr>"
  have "launch_pairs ?w = (i, k) # launch_pairs w" by (simp add: launch_pairs_def)
  then have "attach_inv ?w" using inv k fresh dead by (auto simp: attach_inv_def)
  then have "attach_inv (attach_run cfg lcfg acts ?w)" by (rule inv_run)
  then have "distinct ((i, k) # aw_launched (attach_run cfg lcfg acts w))"
    by (simp add: run_log_prefix attach_inv_def launch_pairs_def)
  then show ?thesis by simp
qed

section \<open>Restarts\<close>

text \<open>What recovery does to a row: nothing, or it requeues a claim whose launch never started.\<close>

definition recovered :: "task_row \<Rightarrow> task_row \<Rightarrow> bool" where
  "recovered t u = (u = t \<or> (t_status t = Attaching \<and> t_attach_token t \<noteq> [] \<and> t_launch_started_at t = Blank
     \<and> t_status u = Queued \<and> t_attach_token u = []))"

lemma recovered_trans: "recovered t u \<Longrightarrow> recovered u v \<Longrightarrow> recovered t v"
  by (auto simp: recovered_def)

lemma recovered_task:
  "rel_option recovered (get_task (ss_db s) i) (get_task (ss_db (recover_attaching_task lcfg now t s)) i)"
proof -
  let ?cols = "requeue_fields t"
  let ?P = "\<lambda>u. t_status u = Attaching \<and> t_attach_token u = t_attach_token t \<and> t_launch_started_at u = Blank"
  have id: "\<And>u. t_id (assign ?cols u) = t_id u" by (simp add: requeue_fields_def)
  have "recovered u (touch_task now (assign ?cols u))" if "?P u" "t_attach_token t \<noteq> []" for u
    using that by (simp add: recovered_def requeue_fields_def)
  then have upd: "t_attach_token t \<noteq> [] \<Longrightarrow> rel_option recovered (get_task (ss_db s) i)
      (get_task (fst (update_tasks_where now (ss_db s) (t_id t) ?P ?cols)) i)"
    by (cases "get_task (ss_db s) i") (simp_all add: get_task_where [OF id] recovered_def)
  have refl: "rel_option recovered x x" for x by (simp add: option.rel_refl recovered_def)
  have cols: "?cols \<noteq> []" by (simp add: requeue_fields_def)
  show ?thesis using upd refl cols
    by (auto simp: recover_attaching_task_def update_task_if_attach_claim_def get_task_def Let_def split: prod.splits)
qed

lemma recovered_all:
  "rel_option recovered (get_task (ss_db s) i) (get_task (ss_db (fold (recover_attaching_task lcfg now) ts s)) i)"
proof (induction ts arbitrary: s)
  case (Cons t ts)
  let ?s = "recover_attaching_task lcfg now t s"
  show ?case using recovered_task [of s i lcfg now t] Cons.IH [of ?s]
    by (cases "get_task (ss_db s) i"; cases "get_task (ss_db ?s) i";
        cases "get_task (ss_db (fold (recover_attaching_task lcfg now) ts ?s)) i") (auto intro: recovered_trans)
qed (simp add: option.rel_refl recovered_def)

text \<open>C6. Restart safety: a task that the recovery after a restart puts back into the queue had not been
  launched under its claim, and no remaining thread or later action launches that claim: the task
  can be claimed again without running twice.\<close>

theorem recovery_no_double_run:
  assumes "unclaimed s" and w: "w = attach_run cfg lcfg acts (fresh_world s)"
    and t: "get_task (world_db w) i = Some t" "t_status t = Attaching"
    and u: "get_task (world_db (restart_world lcfg now w)) i = Some u" "t_status u = Queued"
  shows "(i, t_attach_token t) \<notin> set (aw_launched (attach_run cfg lcfg later (restart_world lcfg now w)))"
proof -
  have inv: "attach_inv w" using assms(1) by (simp add: w inv_run inv_fresh)
  let ?w = "restart_world lcfg now w"
  have inv': "attach_inv ?w" using attach_inv_exec [OF inv, of cfg lcfg "Restart now"] by simp
  have "recovered t u" using recovered_all [of "aw_state w" i lcfg now "list_tasks_by_statuses (world_db w) [Attaching] 5000"] t u
    by (simp add: restart_world_def)
  then have rec: "t_attach_token t \<noteq> []" "t_launch_started_at t = Blank" "t_attach_token u = []"
    using t(2) u(2) by (auto simp: recovered_def)
  have "t_attach_token t \<in> insert [] (set (aw_tokens w))" using inv t(1) unfolding attach_inv_def by blast
  then have k: "t_attach_token t \<in> set (aw_tokens ?w)" using rec(1) by (simp add: restart_world_def)
  have "(i, t_attach_token t) \<notin> set (launch_pairs w)" using inv t(1) rec(2) unfolding attach_inv_def by fastforce
  then have "(i, t_attach_token t) \<notin> set (launch_pairs ?w)" by (simp add: launch_pairs_def restart_world_def)
  from dead_token_never_launches [OF inv' k this] show ?thesis using u(1) rec(1,3) by simp
qed

section \<open>Terminal rows\<close>

fun conditional_action :: "attach_action \<Rightarrow> bool" where
  "conditional_action (Requeue now t) = False"
| "conditional_action (Probe env now m t p) = False"
| "conditional_action _ = True"

lemma final_claim:
  assumes "tasks_wf (world_db w)"
  shows "rel_db final_change (world_db w) (world_db (claim_task lcfg now t a token w))"
proof (cases "token = [] \<or> token \<in> set (aw_tokens w)")
  case False
  note cl = claim_task_frame(3) [OF assms False, of lcfg now t a]
  have "rel_option final_change (get_task (world_db w) i) (get_task (world_db (claim_task lcfg now t a token w)) i)" for i
    using cl unfolding claimed_db_def
    by (cases "get_task (world_db w) i"; cases "get_task (world_db (claim_task lcfg now t a token w)) i")
      (fastforce simp: final_change_def terminal_statuses_def)+
  then show ?thesis using cl by (simp add: rel_db_def claimed_db_def)
qed (auto simp: claim_task_def final.same assms)

lemma final_exec:
  assumes "tasks_wf (world_db w)" and "conditional_action act"
  shows "rel_db final_change (world_db w) (world_db (attach_exec cfg lcfg act w))"
proof (cases act)
  case (Claim now t a token)
  then show ?thesis using final_claim [OF assms(1)] by simp
next
  case (Step i r)
  obtain th w1 where step: "thread_step lcfg r (aw_threads w ! i) w = (th, w1)" by (cases "thread_step lcfg r (aw_threads w ! i) w")
  show ?thesis using final.any_step [OF step assms(1)] final.same [OF assms(1)] Step step by simp
qed (use assms in \<open>simp_all add: restart_world_def final.same final.cancel final.finalize final.recover_all\<close>)

lemma final_run:
  "tasks_wf (world_db w) \<Longrightarrow> list_all conditional_action acts \<Longrightarrow>
     rel_db final_change (world_db w) (world_db (attach_run cfg lcfg acts w))"
proof (induction acts arbitrary: w)
  case (Cons act acts)
  have one: "rel_db final_change (world_db w) (world_db (attach_exec cfg lcfg act w))"
    using Cons.prems by (simp add: final_exec)
  show ?case using final.trans [OF one Cons.IH [OF rel_db_wf [OF one]]] Cons.prems(2) by simp
qed (simp add: final.same)

text \<open>C26. Terminal states are final: once a task is completed, failed or cancelled, no claim, attach
  thread, cancellation, time-out or restart writes its row again, in whatever order they run. (The
  two writers left out, status probes and rebalancing requeues, write without a condition.)\<close>

theorem terminal_rows_final:
  assumes "tasks_wf (world_db w)" and "list_all conditional_action acts"
    and t: "get_task (world_db w) i = Some t" "t_status t \<in> terminal_statuses"
  shows "get_task (world_db (attach_run cfg lcfg acts w)) i = Some t"
proof -
  have "rel_option final_change (Some t) (get_task (world_db (attach_run cfg lcfg acts w)) i)"
    using final_run [OF assms(1,2), of cfg lcfg] t(1) by (metis rel_db_def)
  then show ?thesis using t(2) by (cases "get_task (world_db (attach_run cfg lcfg acts w)) i") (auto simp: final_change_def)
qed

text \<open>A status probe applied to a stale snapshot overwrites a terminal row: a task read as attaching,
  cancelled in the meantime, becomes running again when the probe of the old worker reports that it
  runs.\<close>

theorem stale_probe_revives:
  assumes "tasks_wf (ss_db s)" and u: "get_task (ss_db s) (t_id t) = Some u"
    and "t_status t = Attaching" and "tp_status p = JRunning"
  shows "\<exists>v. get_task (ss_db (apply_task_probe cfg lcfg env now msg t p s)) (t_id t) = Some v \<and> t_status v = Running"
proof -
  have "t_id u = t_id t" using u by (simp add: get_task_def tbl_get_key)
  then show ?thesis using assms by (simp add: apply_task_probe_def update_task_where get_task_where)
qed

section \<open>Concrete runs\<close>

definition one_task_state :: sched_state where
  "one_task_state = demo_state\<lparr>ss_db := (ss_db demo_state)\<lparr>db_tasks := [plain_task 1 ''a'']\<rparr>\<rparr>"

definition demo_remote :: remote where
  "demo_remote = \<lparr>rm_now = 6, rm_slurm_node = Inr ''n1'',
     rm_outcome = AttachOk \<lparr>ar_remote_dir = ''/r'', ar_exit_code_path = ''/r/exit'', ar_wrapper_pid = ''42''\<rparr>, rm_cancel_error = None\<rparr>"

abbreviation demo_run :: "attach_action list \<Rightarrow> attach_world" where
  "demo_run acts \<equiv> attach_run demo_config demo_license_config acts (fresh_world one_task_state)"

lemma one_task_unclaimed: "unclaimed one_task_state"
  by (simp add: unclaimed_def one_task_state_def demo_state_def empty_db_def tasks_wf_def plain_task_def task_row_of_def)

abbreviation demo_claim :: attach_action where
  "demo_claim \<equiv> Claim 5 (plain_task 1 ''a'') demo_alloc ''k''"

text \<open>Two threads race for one reservation; the second loses the launch boundary.\<close>

theorem attach_launch_at_most_once_witness:
  "aw_launched (demo_run ([demo_claim, Respawn 0] @ concat (replicate 5 [Step 0 demo_remote, Step 1 demo_remote])))
     = [(1, ''k'')]
   \<and> distinct (aw_launched (demo_run ([demo_claim, Respawn 0] @ concat (replicate 5 [Step 0 demo_remote, Step 1 demo_remote]))))"
proof
  show "aw_launched (demo_run ([demo_claim, Respawn 0] @ concat (replicate 5 [Step 0 demo_remote, Step 1 demo_remote])))
     = [(1, ''k'')]" by code_simp
qed (rule attach_launch_at_most_once [OF one_task_unclaimed])

theorem recovery_no_double_run_witness:
  "map_option t_status (get_task (world_db (restart_world demo_license_config 9 (demo_run [demo_claim, Step 0 demo_remote]))) 1) = Some Queued
   \<and> (1, ''k'') \<notin> set (aw_launched (attach_run demo_config demo_license_config [Step 0 demo_remote, Step 0 demo_remote]
        (restart_world demo_license_config 9 (demo_run [demo_claim, Step 0 demo_remote]))))"
proof -
  let ?w = "demo_run [demo_claim, Step 0 demo_remote]"
  have t: "map_option (\<lambda>t. (t_status t, t_attach_token t)) (get_task (world_db ?w) 1) = Some (Attaching, ''k'')" by code_simp
  have u: "map_option t_status (get_task (world_db (restart_world demo_license_config 9 ?w)) 1) = Some Queued" by code_simp
  obtain t' where t': "get_task (world_db ?w) 1 = Some t'" "t_status t' = Attaching" "t_attach_token t' = ''k''" using t by auto
  obtain u' where u': "get_task (world_db (restart_world demo_license_config 9 ?w)) 1 = Some u'" "t_status u' = Queued" using u by auto
  from recovery_no_double_run [OF one_task_unclaimed refl t'(1,2) u'] u show ?thesis unfolding t'(3) by blast
qed

theorem terminal_rows_final_witness:
  "\<exists>t. get_task (world_db (demo_run [CancelAttempt 5 (plain_task 1 ''a'')])) 1 = Some t \<and> t_status t = Cancelled
     \<and> get_task (world_db (attach_run demo_config demo_license_config [demo_claim, Restart 9]
          (demo_run [CancelAttempt 5 (plain_task 1 ''a'')]))) 1 = Some t"
proof -
  let ?w = "demo_run [CancelAttempt 5 (plain_task 1 ''a'')]"
  have "map_option t_status (get_task (world_db ?w) 1) = Some Cancelled" by code_simp
  then obtain t where t: "get_task (world_db ?w) 1 = Some t" "t_status t = Cancelled" by auto
  have wf: "tasks_wf (world_db ?w)"
    using inv_run [OF inv_fresh [OF one_task_unclaimed]] by (simp add: attach_inv_def del: attach_run_simps)
  have "get_task (world_db (attach_run demo_config demo_license_config [demo_claim, Restart 9] ?w)) 1 = Some t"
    by (rule terminal_rows_final [OF wf _ t(1)]) (simp_all add: t(2) terminal_statuses_def)
  then show ?thesis using t by blast
qed

theorem stale_probe_revives_witness:
  "map_option t_status (get_task (ss_db (fst (cancel_attempt demo_license_config 5 (plain_task 1 ''a'') one_task_state))) 1) = Some Cancelled
   \<and> (\<exists>v. get_task (ss_db (apply_task_probe demo_config demo_license_config demo_env 9 [] ((plain_task 1 ''a'')\<lparr>t_status := Attaching\<rparr>)
          \<lparr>tp_status = JRunning, tp_exit_code = None\<rparr> (fst (cancel_attempt demo_license_config 5 (plain_task 1 ''a'') one_task_state)))) 1 = Some v
        \<and> t_status v = Running)"
proof -
  let ?s = "fst (cancel_attempt demo_license_config 5 (plain_task 1 ''a'') one_task_state)"
  let ?t = "(plain_task 1 ''a'')\<lparr>t_status := Attaching\<rparr>"
  have wf: "tasks_wf (ss_db ?s)"
    using safe.cancel [THEN rel_db_wf] one_task_unclaimed by (simp add: unclaimed_def)
  have id: "t_id ?t = 1" by (simp add: plain_task_def task_row_of_def)
  have c: "map_option t_status (get_task (ss_db ?s) 1) = Some Cancelled" by code_simp
  then obtain u where "get_task (ss_db ?s) (t_id ?t) = Some u" using id by auto
  from stale_probe_revives [OF wf this] c id show ?thesis by simp
qed

end
