(* ===== verification/Pestat.thy ===== *)
theory Pestat
  imports Inventory
begin

text \<open>
  \<open>pestat.py\<close>: reading the node table that \<open>pestat\<close> prints, and the plan that spreads a batch of
  simulations over the nodes with free CPUs and memory; with it \<open>inventory_freshness.py\<close>, which
  judges the age of the cached rows.
\<close>

section \<open>Nodes\<close>

record pestat_node =
  pn_hostname :: string
  pn_partition :: string
  pn_state :: string
  pn_cpu_used :: int
  pn_cpu_total :: int
  pn_cpu_load :: rat
  pn_memory_mb :: int
  pn_free_memory_mb :: int

definition sched_free_cpus :: "pestat_node \<Rightarrow> int" where
  "sched_free_cpus n = max 0 (pn_cpu_total n - pn_cpu_used n)"

definition load_free_cpus :: "pestat_node \<Rightarrow> int" where
  "load_free_cpus n = max 0 (pn_cpu_total n - ceiling (pn_cpu_load n))"

definition effective_free_cpus :: "pestat_node \<Rightarrow> int" where
  "effective_free_cpus n = min (sched_free_cpus n) (load_free_cpus n)"

definition usable :: "pestat_node \<Rightarrow> bool" where
  "usable n = (pn_state n \<in> {''idle'', ''mix''} \<and> 0 < effective_free_cpus n)"

definition clean_number :: "string \<Rightarrow> string" where
  "clean_number raw = rstrip_char (CHR ''*'') raw"

definition clean_int :: "string \<Rightarrow> int option" where
  "clean_int raw = py_int (clean_number raw)"

definition clean_float :: "string \<Rightarrow> rat option" where
  "clean_float raw = py_float (clean_number raw)"

definition parse_pestat_line :: "string \<Rightarrow> pestat_node option" where
  "parse_pestat_line line =
     (let parts = split_ws line in
      if length parts < 8 then None
      else if parts ! 0 \<in> {''Hostname'', ''State''} \<or> startswith (parts ! 0) ''-'' then None
      else (case (clean_int (parts ! 3), clean_int (parts ! 4), clean_float (parts ! 5), clean_int (parts ! 6), clean_int (parts ! 7)) of
          (Some used, Some cpus, Some load, Some mem, Some freemem) \<Rightarrow>
            Some \<lparr>pn_hostname = parts ! 0, pn_partition = parts ! 1, pn_state = rstrip_char (CHR ''*'') (parts ! 2),
              pn_cpu_used = used, pn_cpu_total = cpus, pn_cpu_load = load, pn_memory_mb = mem, pn_free_memory_mb = freemem\<rparr>
        | _ \<Rightarrow> None))"

definition parse_pestat :: "string \<Rightarrow> pestat_node list" where
  "parse_pestat output = List.map_filter parse_pestat_line (splitlines output)"

section \<open>The plan\<close>

record allocation_plan =
  ap_partition :: string
  ap_node_name :: string
  ap_workers :: int
  ap_initial_workers :: int
  ap_cpus_per_worker :: int
  ap_total_cpus :: int
  ap_simulation_start :: int
  ap_simulation_count :: int

record plan_request =
  pr_total_simulations :: int
  pr_cpus_per_simulation :: int
  pr_mem_per_simulation_gb :: rat
  pr_max_workers_per_allocation :: int
  pr_max_allocations :: int
  pr_partition :: string
  pr_start_index :: int
  pr_oversubscribe_factor :: rat

text \<open>\<open>xs[:n]\<close>: a negative bound counts from the end.\<close>

definition slice_to :: "int \<Rightarrow> 'a list \<Rightarrow> 'a list" where
  "slice_to n xs = take (nat (if n < 0 then int (length xs) + n else n)) xs"

definition mem_per_sim_mb :: "plan_request \<Rightarrow> int" where
  "mem_per_sim_mb r = max 1 (truncate_rat (pr_mem_per_simulation_gb r * 1024))"

definition baseline_workers :: "plan_request \<Rightarrow> pestat_node \<Rightarrow> int" where
  "baseline_workers r n = effective_free_cpus n div max 1 (pr_cpus_per_simulation r)"

definition node_workers :: "plan_request \<Rightarrow> pestat_node \<Rightarrow> int" where
  "node_workers r n =
     (let by_cpu = truncate_rat (of_int (baseline_workers r n) * max 1 (pr_oversubscribe_factor r));
          by_mem = pn_free_memory_mb n div mem_per_sim_mb r
      in min (min by_cpu by_mem) (pr_max_workers_per_allocation r))"

definition plan_candidates :: "plan_request \<Rightarrow> pestat_node list \<Rightarrow> pestat_node list" where
  "plan_candidates r nodes =
     sort_desc (\<lambda>n. (node_workers r n, baseline_workers r n, effective_free_cpus n, pn_free_memory_mb n))
       (filter (\<lambda>n. usable n
          \<and> \<not> (pr_partition r \<noteq> [] \<and> pr_partition r \<noteq> ''auto'' \<and> pn_partition n \<noteq> pr_partition r)
          \<and> 0 < node_workers r n \<and> 0 < baseline_workers r n) nodes)"

fun assign_simulations :: "plan_request \<Rightarrow> int \<Rightarrow> int \<Rightarrow> pestat_node list \<Rightarrow> allocation_plan list" where
  "assign_simulations r next_sim remaining [] = []"
| "assign_simulations r next_sim remaining (n # ns) =
     (if remaining \<le> 0 then []
      else (let count = min (node_workers r n) remaining; initial = min count (baseline_workers r n) in
        \<lparr>ap_partition = pn_partition n, ap_node_name = pn_hostname n, ap_workers = count, ap_initial_workers = initial,
          ap_cpus_per_worker = pr_cpus_per_simulation r, ap_total_cpus = initial * pr_cpus_per_simulation r,
          ap_simulation_start = next_sim, ap_simulation_count = count\<rparr>
        # assign_simulations r (next_sim + count) (remaining - count) ns))"

definition plan_dynamic_allocations :: "plan_request \<Rightarrow> pestat_node list \<Rightarrow> allocation_plan list" where
  "plan_dynamic_allocations r nodes =
     (let remaining = max 0 (pr_total_simulations r) in
      if remaining = 0 then []
      else assign_simulations r (pr_start_index r) remaining
             (slice_to (pr_max_allocations r) (plan_candidates r nodes)))"

section \<open>Freshness of cached rows (inventory\_freshness.py)\<close>

record freshness =
  fr_rows :: nat
  fr_observed_at :: "int option"
  fr_age_seconds :: "int option"
  fr_stale :: bool
  fr_threshold_seconds :: int

definition summarize_freshness :: "stamp list \<Rightarrow> int \<Rightarrow> int \<Rightarrow> freshness" where
  "summarize_freshness rows interval now =
     (let newest = py_max (\<lambda>t. t) (List.map_filter timestamp rows);
          age = map_option (\<lambda>t. max 0 (truncate_rat (of_int (now - t) / 1000000))) newest;
          threshold = max 30 interval
      in \<lparr>fr_rows = length rows, fr_observed_at = newest, fr_age_seconds = age,
          fr_stale = (case age of None \<Rightarrow> True | Some a \<Rightarrow> threshold < a), fr_threshold_seconds = threshold\<rparr>)"

section \<open>Laws of the plan\<close>

lemma length_slice_to: "0 \<le> n \<Longrightarrow> int (length (slice_to n xs)) \<le> n"
  by (simp add: slice_to_def)

lemma set_slice_to: "set (slice_to n xs) \<subseteq> set xs"
  by (simp add: slice_to_def set_take_subset)

lemma truncate_le: "0 \<le> q \<Longrightarrow> of_int (truncate_rat q) \<le> q"
  by (simp add: truncate_rat_def)

lemma plan_candidates_set:
  assumes "n \<in> set (plan_candidates r nodes)"
  shows "n \<in> set nodes" "usable n" "0 < node_workers r n" "0 < baseline_workers r n"
    "pr_partition r \<in> {[], ''auto''} \<or> pn_partition n = pr_partition r"
  using assms by (auto simp: plan_candidates_def)

lemma div_mult_le: "0 < (b::int) \<Longrightarrow> a div b * b \<le> a"
  using div_mult_mod_eq [of a b] pos_mod_sign [of b a] by linarith

lemma node_workers_le:
  "node_workers r n \<le> pr_max_workers_per_allocation r"
  "0 < node_workers r n \<Longrightarrow> node_workers r n * mem_per_sim_mb r \<le> pn_free_memory_mb n"
proof -
  have w: "node_workers r n \<le> pn_free_memory_mb n div mem_per_sim_mb r" "0 < mem_per_sim_mb r"
    by (simp_all add: node_workers_def Let_def mem_per_sim_mb_def)
  have "node_workers r n * mem_per_sim_mb r \<le> pn_free_memory_mb n div mem_per_sim_mb r * mem_per_sim_mb r"
    using w by (intro mult_right_mono) simp_all
  also have "\<dots> \<le> pn_free_memory_mb n" using w(2) by (rule div_mult_le)
  finally show "node_workers r n * mem_per_sim_mb r \<le> pn_free_memory_mb n" .
qed (simp add: node_workers_def Let_def)

lemma baseline_le: "0 \<le> k \<Longrightarrow> k \<le> baseline_workers r n \<Longrightarrow> k * pr_cpus_per_simulation r \<le> effective_free_cpus n"
proof -
  let ?c = "max 1 (pr_cpus_per_simulation r)"
  assume k: "0 \<le> k" "k \<le> baseline_workers r n"
  have "k * pr_cpus_per_simulation r \<le> k * ?c" using k(1) by (intro mult_left_mono) simp_all
  also have "\<dots> \<le> baseline_workers r n * ?c" using k(2) by (intro mult_right_mono) simp_all
  also have "\<dots> \<le> effective_free_cpus n" unfolding baseline_workers_def by (rule div_mult_le) simp
  finally show ?thesis .
qed

definition plan_fits :: "plan_request \<Rightarrow> pestat_node list \<Rightarrow> allocation_plan \<Rightarrow> bool" where
  "plan_fits r nodes p = (\<exists>n \<in> set nodes. usable n \<and> ap_node_name p = pn_hostname n \<and> ap_partition p = pn_partition n
     \<and> pr_partition r \<in> {[], ''auto'', ap_partition p}
     \<and> 0 < ap_initial_workers p \<and> ap_initial_workers p \<le> ap_simulation_count p
     \<and> ap_simulation_count p \<le> pr_max_workers_per_allocation r
     \<and> ap_total_cpus p = ap_initial_workers p * pr_cpus_per_simulation r \<and> ap_total_cpus p \<le> effective_free_cpus n
     \<and> ap_simulation_count p * mem_per_sim_mb r \<le> pn_free_memory_mb n)"

lemma assign_fits:
  assumes "set ns \<subseteq> set (plan_candidates r nodes)" and "p \<in> set (assign_simulations r s m ns)"
  shows "plan_fits r nodes p"
  using assms
proof (induction ns arbitrary: s m)
  case (Cons n ns)
  note n = plan_candidates_set [of n r nodes]
  have step: "plan_fits r nodes \<lparr>ap_partition = pn_partition n, ap_node_name = pn_hostname n, ap_workers = c, ap_initial_workers = i,
          ap_cpus_per_worker = cp, ap_total_cpus = i * pr_cpus_per_simulation r, ap_simulation_start = s, ap_simulation_count = c\<rparr>"
    if "0 < m" "c = min (node_workers r n) m" "i = min c (baseline_workers r n)" for c i cp
  proof -
    have pos: "0 < c" "0 < i" using that n Cons.prems(1) by auto
    have "c * mem_per_sim_mb r \<le> node_workers r n * mem_per_sim_mb r"
      using that(2) by (intro mult_right_mono) (simp_all add: mem_per_sim_mb_def)
    also have "\<dots> \<le> pn_free_memory_mb n" using n Cons.prems(1) by (intro node_workers_le) simp
    finally have mem: "c * mem_per_sim_mb r \<le> pn_free_memory_mb n" .
    have "i * pr_cpus_per_simulation r \<le> effective_free_cpus n" using that(3) pos by (intro baseline_le) simp_all
    moreover have "c \<le> pr_max_workers_per_allocation r" using that(2) node_workers_le(1) [of r n] by simp
    ultimately show ?thesis using mem pos that n Cons.prems(1) unfolding plan_fits_def by (intro bexI [of _ n]) auto
  qed
  show ?case using Cons step by (auto simp: Let_def split: if_splits)
qed simp

lemma assign_total:
  assumes "\<forall>n \<in> set ns. 0 < node_workers r n" and "0 \<le> m"
  shows "sum_list (map ap_simulation_count (assign_simulations r s m ns)) = min m (sum_list (map (node_workers r) ns))"
  using assms
proof (induction ns arbitrary: s m)
  case (Cons n ns)
  have pos: "0 \<le> sum_list (map (node_workers r) ns)" using Cons.prems by (intro sum_list_nonneg) (auto simp: less_imp_le)
  show ?case
  proof (cases "m \<le> 0")
    case False
    let ?c = "min (node_workers r n) m"
    have "sum_list (map ap_simulation_count (assign_simulations r (s + ?c) (m - ?c) ns))
        = min (m - ?c) (sum_list (map (node_workers r) ns))"
      using Cons.prems by (intro Cons.IH) auto
    then show ?thesis using False pos by (simp add: Let_def)
  qed (use Cons.prems pos in \<open>auto simp: Let_def\<close>)
qed simp

lemma assign_contiguous:
  "i < length (assign_simulations r s m ns) \<Longrightarrow>
     ap_simulation_start (assign_simulations r s m ns ! i)
       = s + sum_list (map ap_simulation_count (take i (assign_simulations r s m ns)))"
proof (induction ns arbitrary: s m i)
  case (Cons n ns)
  then show ?case by (cases i) (auto simp: Let_def split: if_splits)
qed simp

lemma assign_length: "length (assign_simulations r s m ns) \<le> length ns"
  by (induction ns arbitrary: s m) (auto simp: Let_def)

text \<open>C37. The allocation plan is exact and feasible: the planned simulations are the consecutive indices
  from the start index, as many as requested or as the selected nodes hold, whichever is less; each
  plan runs on a usable node of the requested partition, its reserved CPUs are free there by both
  Slurm and load, its simulations fit in the free memory and in the worker limit, and no more
  allocations than allowed are planned.\<close>

theorem plan_dynamic_allocations_correct:
  fixes nodes :: "pestat_node list"
  assumes "0 \<le> pr_max_allocations r"
  defines "plans \<equiv> plan_dynamic_allocations r nodes"
  shows "list_all (plan_fits r nodes) plans
    \<and> int (length plans) \<le> pr_max_allocations r
    \<and> sum_list (map ap_simulation_count plans)
        = min (max 0 (pr_total_simulations r))
            (sum_list (map (node_workers r) (take (nat (pr_max_allocations r)) (plan_candidates r nodes))))
    \<and> (\<forall>i < length plans. ap_simulation_start (plans ! i)
          = pr_start_index r + sum_list (map ap_simulation_count (take i plans)))"
proof -
  let ?ns = "slice_to (pr_max_allocations r) (plan_candidates r nodes)"
  let ?m = "max 0 (pr_total_simulations r)"
  have ns: "?ns = take (nat (pr_max_allocations r)) (plan_candidates r nodes)" using assms(1) by (simp add: slice_to_def)
  have pos: "\<forall>n \<in> set ?ns. 0 < node_workers r n" using plan_candidates_set(3) subsetD [OF set_slice_to] by fast
  have tot: "0 \<le> sum_list (map (node_workers r) ?ns)" using pos by (intro sum_list_nonneg) (auto simp: less_imp_le)
  have plans: "plans = (if ?m = 0 then [] else assign_simulations r (pr_start_index r) ?m ?ns)"
    by (simp add: plans_def plan_dynamic_allocations_def Let_def)
  have fit: "list_all (plan_fits r nodes) plans"
    using assign_fits [OF set_slice_to] by (auto simp: plans list_all_iff)
  have len: "int (length plans) \<le> pr_max_allocations r"
    using assign_length [of r "pr_start_index r" ?m ?ns] length_slice_to [OF assms(1), of "plan_candidates r nodes"] assms(1)
    by (auto simp: plans)
  have total: "sum_list (map ap_simulation_count plans) = min ?m (sum_list (map (node_workers r) ?ns))"
  proof (cases "?m = 0")
    case False
    then have "plans = assign_simulations r (pr_start_index r) ?m ?ns" unfolding plans by (rule if_not_P)
    then show ?thesis using assign_total [OF pos, of ?m "pr_start_index r"] by simp
  qed (use tot in \<open>simp add: plans\<close>)
  have "\<forall>i < length plans. ap_simulation_start (plans ! i)
          = pr_start_index r + sum_list (map ap_simulation_count (take i plans))"
    using assign_contiguous by (auto simp: plans)
  then show ?thesis using fit len total ns by simp
qed

definition demo_pestat :: string where
  "demo_pestat = ''Hostname Partition State a b c d e'' @ [CHR 0x0A]
     @ ''n1 cpu1 mix* 8 16 7.5 64000 32000'' @ [CHR 0x0A] @ ''n2 cpu1 idle 0 8 0.2* 64000 64000'' @ [CHR 0x0A]
     @ ''n3 cpu1 down 0 8 0.2 64000 64000''"

definition demo_request :: plan_request where
  "demo_request = \<lparr>pr_total_simulations = 7, pr_cpus_per_simulation = 2, pr_mem_per_simulation_gb = 4,
     pr_max_workers_per_allocation = 5, pr_max_allocations = 2, pr_partition = ''auto'', pr_start_index = 10, pr_oversubscribe_factor = 3 / 2\<rparr>"

theorem plan_dynamic_allocations_correct_witness:
  "map (\<lambda>p. (ap_node_name p, ap_simulation_start p, ap_simulation_count p, ap_total_cpus p))
     (plan_dynamic_allocations demo_request (parse_pestat demo_pestat)) = [(''n1'', 10, 5, 8), (''n2'', 15, 2, 4)]
   \<and> list_all (plan_fits demo_request (parse_pestat demo_pestat)) (plan_dynamic_allocations demo_request (parse_pestat demo_pestat))"
proof
  show "map (\<lambda>p. (ap_node_name p, ap_simulation_start p, ap_simulation_count p, ap_total_cpus p))
     (plan_dynamic_allocations demo_request (parse_pestat demo_pestat)) = [(''n1'', 10, 5, 8), (''n2'', 15, 2, 4)]" by code_simp
qed (use plan_dynamic_allocations_correct [of demo_request] in \<open>simp add: demo_request_def\<close>)

end
