(* ===== verification/Retention.thy ===== *)
theory Retention
  imports Prelude
begin

text \<open>
  What protects remote files from being deleted: the prune-protection markers and manifests of
  \<open>retention.py\<close>, and the path check of \<open>scheduler.py\<close> before a remote artifact is removed. The
  functions of \<open>posixpath\<close> they use (\<open>normpath\<close>, \<open>join\<close>, \<open>dirname\<close>, \<open>basename\<close>) are modelled
  with them. JSON text and ISO timestamps are read by Python's library: \<open>loads\<close> and
  \<open>fromisoformat\<close> are arguments.
\<close>

section \<open>posixpath\<close>

abbreviation slash :: char where
  "slash \<equiv> CHR ''/''"

definition endswith_char :: "char \<Rightarrow> string \<Rightarrow> bool" where
  "endswith_char c s = (s \<noteq> [] \<and> last s = c)"

definition posix_join :: "string \<Rightarrow> string \<Rightarrow> string" where
  "posix_join a b = (if startswith b [slash] then b
     else if a = [] \<or> endswith_char slash a then a @ b else a @ slash # b)"

text \<open>The text up to and including the last slash, and the text after it.\<close>

definition path_head :: "string \<Rightarrow> string" where
  "path_head p = rev (dropWhile (\<lambda>c. c \<noteq> slash) (rev p))"

definition basename :: "string \<Rightarrow> string" where
  "basename p = rev (takeWhile (\<lambda>c. c \<noteq> slash) (rev p))"

definition dirname :: "string \<Rightarrow> string" where
  "dirname p = (let h = path_head p in
     if h \<noteq> [] \<and> \<not> list_all (\<lambda>c. c = slash) h then rstrip_char slash h else h)"

definition leading_slashes :: "string \<Rightarrow> nat" where
  "leading_slashes p = (if \<not> startswith p [slash] then 0
     else if startswith p [slash, slash] \<and> \<not> startswith p [slash, slash, slash] then 2 else 1)"

fun norm_comps :: "bool \<Rightarrow> string list \<Rightarrow> string list \<Rightarrow> string list" where
  "norm_comps absolute acc [] = rev acc"
| "norm_comps absolute acc (c # cs) =
     (if c = [] \<or> c = ''.'' then norm_comps absolute acc cs
      else if c \<noteq> ''..'' \<or> (\<not> absolute \<and> acc = []) \<or> (acc \<noteq> [] \<and> hd acc = ''..'')
      then norm_comps absolute (c # acc) cs
      else norm_comps absolute (tl acc) cs)"

definition normpath :: "string \<Rightarrow> string" where
  "normpath p =
     (if p = [] then ''.''
      else (let k = leading_slashes p;
                out = replicate k slash @ join [slash] (norm_comps (0 < k) [] (split_on slash p))
            in if out = [] then ''.'' else out))"

definition path_parts :: "string \<Rightarrow> string list" where
  "path_parts p = filter (\<lambda>c. c \<noteq> []) (split_on slash p)"

section \<open>Artifact paths (scheduler.py)\<close>

definition strip_prefix :: "string \<Rightarrow> string \<Rightarrow> string" where
  "strip_prefix p s = (if startswith s p then drop (length p) s else s)"

definition normalize_remote_path :: "string \<Rightarrow> string" where
  "normalize_remote_path v = normpath (strip_prefix ''~/'' (strip_prefix ''$HOME/'' (strip v)))"

definition is_safe_scheduler_artifact_path :: "string \<Rightarrow> string \<Rightarrow> string list \<Rightarrow> bool" where
  "is_safe_scheduler_artifact_path remote_workspace remote_path prefixes =
     (let artifact = normalize_remote_path remote_path; workspace = normalize_remote_path remote_workspace in
      if artifact = [] \<or> workspace = [] \<or> workspace = ''.'' \<or> workspace = [slash] then False
      else if ''..'' \<in> set (path_parts artifact) \<or> ''..'' \<in> set (path_parts workspace) then False
      else if \<not> list_ex (startswith (basename (rstrip_char slash artifact))) prefixes then False
      else startswith artifact (rstrip_char slash workspace @ [slash]))"

text \<open>\<open>remove_trees\<close> is the client's removal: the error it raises, if any. The result is what was
  handed to it and the paths reported as removed.\<close>

definition remove_scheduler_artifacts ::
  "(string list \<Rightarrow> string option) \<Rightarrow> string \<Rightarrow> string list \<Rightarrow> string list \<Rightarrow> string list \<times> string list" where
  "remove_scheduler_artifacts remove_trees remote_workspace remote_paths prefixes =
     (let safe_paths = filter (\<lambda>p. is_safe_scheduler_artifact_path remote_workspace p prefixes) remote_paths in
      if safe_paths = [] then ([], [])
      else (case remove_trees safe_paths of Some exc \<Rightarrow> (safe_paths, []) | None \<Rightarrow> (safe_paths, safe_paths)))"

section \<open>Marker paths (retention.py)\<close>

definition marker_name :: string where
  "marker_name = ''.slurm-scheduler-preserve.json''"

definition path_control :: "char \<Rightarrow> bool" where
  "path_control c = (code c \<in> {0, 9, 10, 13})"

definition normalized_remote_path :: "string \<Rightarrow> string result" where
  "normalized_remote_path value =
     (let path = strip value in
      if path = [] \<or> list_ex path_control path
      then Inl (ValueError ''remote path is empty or contains control characters'')
      else (let normalized = normpath path in
        if normalized = [] \<or> normalized = ''.'' then Inl (ValueError ''remote path is empty after normalization'')
        else Inr normalized))"

definition rstrip_root :: "string \<Rightarrow> string" where
  "rstrip_root p = (if rstrip_char slash p = [] then [slash] else rstrip_char slash p)"

lemma length_rstrip: "length (rstrip_char c s) \<le> length s"
  by (simp add: rstrip_char_def rstrip_by_def) (metis length_dropWhile_le length_rev)

lemma path_head_prefix: "path_head p @ basename p = p"
  unfolding path_head_def basename_def
  by (metis rev_append rev_rev_ident takeWhile_dropWhile_id)

lemma length_dirname: "length (dirname p) \<le> length p"
proof -
  have "length (path_head p) \<le> length p" using path_head_prefix [of p] by (metis le_add1 length_append)
  then show ?thesis using length_rstrip [of slash "path_head p"] by (simp add: dirname_def Let_def)
qed

lemma dirname_same: "length (dirname p) = length p \<Longrightarrow> dirname p = p"
proof -
  assume len: "length (dirname p) = length p"
  have h: "length (path_head p) \<le> length p" using path_head_prefix [of p] by (metis le_add1 length_append)
  have "length (dirname p) \<le> length (path_head p)"
    using length_rstrip [of slash "path_head p"] by (simp add: dirname_def Let_def)
  then have full: "length (path_head p) = length p" using len h by simp
  then have "path_head p = p" using path_head_prefix [of p] by (metis append_Nil2 append_eq_append_conv)
  moreover have "rstrip_char slash q = q" if "length (rstrip_char slash q) = length q" for q
    using that unfolding rstrip_char_def rstrip_by_def
    by (metis append_eq_append_conv append_Nil length_rev rev_rev_ident takeWhile_dropWhile_id)
  ultimately show ?thesis using len by (auto simp: dirname_def Let_def split: if_splits)
qed

function marker_walk :: "string \<Rightarrow> string \<Rightarrow> string \<Rightarrow> string list result" where
  "marker_walk base prefix current =
     (let here = posix_join current marker_name in
      if current = base then Inr [here]
      else (let parent = dirname current in
        if parent = current \<or> (base \<noteq> [slash] \<and> parent \<noteq> base \<and> \<not> startswith parent prefix)
        then Inl (ValueError ''artifact ancestor walk escaped workspace'')
        else map_sum id ((#) here) (marker_walk base prefix parent)))"
  by pat_completeness auto

termination marker_walk
proof (relation "measure (\<lambda>(base, prefix, current). length current)", goal_cases)
  case (2 base prefix current here parent)
  then have "dirname current \<noteq> current" by auto
  then have "length (dirname current) \<noteq> length current" using dirname_same by blast
  then show ?case using 2 length_dirname [of current] by simp
qed simp

declare marker_walk.simps [simp del]

definition workspace_prune_protection_marker_paths :: "string \<Rightarrow> string \<Rightarrow> string list result" where
  "workspace_prune_protection_marker_paths workspace artifact =
     (case (normalized_remote_path workspace, normalized_remote_path artifact) of
        (Inl e, _) \<Rightarrow> Inl e
      | (_, Inl e) \<Rightarrow> Inl e
      | (Inr w, Inr a) \<Rightarrow>
          (let base = rstrip_root w; current = rstrip_root a;
               prefix = (if base = [slash] then [slash] else base @ [slash]) in
           if current = base \<or> \<not> startswith current prefix
           then Inl (ValueError (''artifact is outside workspace''))
           else marker_walk base prefix current))"

section \<open>Normal form of paths\<close>

abbreviation comp_ok :: "string \<Rightarrow> bool" where
  "comp_ok c \<equiv> c \<noteq> [] \<and> c \<noteq> ''.'' \<and> slash \<notin> set c"

definition comps_ok :: "string list \<Rightarrow> bool" where
  "comps_ok cs = list_all (\<lambda>c. comp_ok c) cs"

lemma comps_ok_simps [simp]: "comps_ok []" "comps_ok (c # cs) = (comp_ok c \<and> comps_ok cs)" "comps_ok (rev cs) = comps_ok cs"
  by (auto simp: comps_ok_def)

lemma comps_ok_tl: "comps_ok cs \<Longrightarrow> comps_ok (tl cs)"
  by (cases cs) simp_all

lemma norm_comps_ok:
  "list_all (\<lambda>c. slash \<notin> set c) cs \<Longrightarrow> comps_ok acc \<Longrightarrow> comps_ok (norm_comps b acc cs)"
proof (induction cs arbitrary: acc)
  case (Cons c cs)
  have ih: "comps_ok a \<Longrightarrow> comps_ok (norm_comps b a cs)" for a using Cons by simp
  have c: "slash \<notin> set c" using Cons.prems(1) by simp
  show ?case using ih Cons.prems(2) comps_ok_tl c unfolding norm_comps.simps by (auto simp del: comps_ok_simps(3))
qed simp

lemma split_slash_free: "list_all (\<lambda>c. slash \<notin> set c) (split_on slash p)"
  using split_by_pieces by (fastforce simp: split_on_def list_all_iff)

lemma split_on_append: "split_on d (a @ d # b) = split_on d a @ split_on d b"
proof (induction a)
  case (Cons c a)
  then show ?case by (cases "split_on d a") (auto simp: split_on_def split: list.splits)
qed (simp add: split_on_def)

lemma split_on_free: "d \<notin> set a \<Longrightarrow> split_on d a = [a]"
  unfolding split_on_def by (rule split_by_none) auto

lemma join_Cons: "join sep (v # w # ws) = v @ sep @ join sep (w # ws)"
  by (simp add: join_def)

lemma split_join:
  "ws \<noteq> [] \<Longrightarrow> \<forall>w \<in> set ws. d \<notin> set w \<Longrightarrow> split_on d (join [d] ws) = ws"
proof (induction ws rule: induct_list012)
  case (2 w)
  then show ?case by (simp add: join_def split_on_free)
next
  case (3 v w ws)
  then have "split_on d (v @ d # join [d] (w # ws)) = [v] @ (w # ws)"
    by (subst split_on_append) (simp_all add: split_on_free)
  then show ?case by (simp add: join_Cons)
qed simp

lemma parts_append: "path_parts (a @ slash # b) = path_parts a @ path_parts b"
  by (simp add: path_parts_def split_on_append)

lemma parts_Nil [simp]: "path_parts [] = []"
  by (simp add: path_parts_def split_on_def)

lemma parts_slashes: "path_parts (replicate k slash @ p) = path_parts p"
  by (induction k) (use parts_append [of "[]"] in simp_all)

lemma parts_join:
  assumes "comps_ok cs"
  shows "path_parts (join [slash] cs) = cs"
proof (cases "cs = []")
  case False
  then show ?thesis using assms split_join [of cs slash] by (auto simp: path_parts_def comps_ok_def list_all_iff intro: filter_True)
qed (simp add: join_def)

definition normal_path :: "string \<Rightarrow> nat \<Rightarrow> string list \<Rightarrow> bool" where
  "normal_path p k cs = (p = replicate k slash @ join [slash] cs \<and> comps_ok cs)"

lemma normpath_normal: "normpath p = ''.'' \<or> (\<exists>k cs. normal_path (normpath p) k cs)"
proof -
  have "comps_ok (norm_comps b [] (split_on slash p))" for b
    by (intro norm_comps_ok split_slash_free) simp
  then have out: "normal_path (replicate k slash @ join [slash] (norm_comps b [] (split_on slash p))) k
      (norm_comps b [] (split_on slash p))" for b k
    by (simp add: normal_path_def)
  show ?thesis
  proof (cases "p = [] \<or> normpath p = ''.''")
    case False
    then have "normpath p = replicate (leading_slashes p) slash @ join [slash] (norm_comps (0 < leading_slashes p) [] (split_on slash p))"
      by (auto simp: normpath_def Let_def split: if_splits)
    then show ?thesis using out [of "leading_slashes p" "0 < leading_slashes p"] by metis
  qed (auto simp: normpath_def)
qed

lemma normal_parts: "normal_path p k cs \<Longrightarrow> path_parts p = cs"
  by (simp add: normal_path_def parts_slashes parts_join)

lemma last_join: "cs \<noteq> [] \<Longrightarrow> last cs \<noteq> [] \<Longrightarrow> join [slash] cs \<noteq> [] \<and> last (join [slash] cs) = last (last cs)"
proof (induction cs rule: induct_list012)
  case (3 v w ws)
  then show ?case by (auto simp: join_Cons)
qed (simp_all add: join_def)

lemma normal_last:
  assumes "normal_path p k cs" and "cs \<noteq> []"
  shows "p \<noteq> []" "last p \<noteq> slash"
proof -
  have ok: "comp_ok (last cs)" using assms by (auto simp: normal_path_def comps_ok_def list_all_iff)
  then have "join [slash] cs \<noteq> []" "last (join [slash] cs) = last (last cs)" using last_join assms(2) by blast+
  moreover have "last (last cs) \<in> set (last cs)" using ok by simp
  then have "last (last cs) \<noteq> slash" using ok by metis
  ultimately show "p \<noteq> []" "last p \<noteq> slash" using assms(1) by (auto simp: normal_path_def)
qed

lemma rstrip_keeps: "p = [] \<or> last p \<noteq> c \<Longrightarrow> rstrip_char c p = p"
  by (cases p rule: rev_cases) (auto simp: rstrip_char_def rstrip_by_def)

lemma basename_join: "slash \<notin> set b \<Longrightarrow> basename (a @ slash # b) = b"
  by (simp add: basename_def takeWhile_append)

lemma basename_normal:
  assumes "normal_path p k cs" and "cs \<noteq> []"
  shows "basename p = last cs"
proof -
  have ok: "slash \<notin> set (last cs)" using assms by (auto simp: normal_path_def comps_ok_def list_all_iff)
  have "\<exists>a. p = a @ slash # last cs \<or> p = last cs"
  proof (cases cs rule: rev_cases)
    case (snoc ds c)
    show ?thesis
    proof (cases ds rule: rev_cases)
      case Nil
      then show ?thesis using assms(1) snoc by (cases k) (auto simp: normal_path_def join_def replicate_append_same [symmetric])
    next
      case (snoc es e)
      have "join [slash] (xs @ [y]) = join [slash] xs @ slash # y" if "xs \<noteq> []" for xs y
        using that by (cases xs) (simp_all add: join_def)
      from this [of ds c] have "join [slash] cs = join [slash] ds @ slash # last cs" using \<open>cs = ds @ [c]\<close> snoc by simp
      then have "p = (replicate k slash @ join [slash] ds) @ slash # last cs" using assms(1) by (simp add: normal_path_def)
      then show ?thesis by blast
    qed
  qed (use assms in simp)
  moreover have "basename q = q" if "slash \<notin> set q" for q unfolding basename_def using that by (subst takeWhile_eq_all_conv [THEN iffD2]) auto
  ultimately show ?thesis using basename_join ok by metis
qed

section \<open>Only artifacts inside the workspace are removed\<close>

lemma parts_rstrip: "path_parts (rstrip_char slash w) = path_parts w"
proof (induction w rule: rev_induct)
  case (snoc c w)
  show ?case
  proof (cases "c = slash")
    case True
    have "path_parts (w @ [slash]) = path_parts w" using parts_append [of w "[]"] by simp
    then show ?thesis using True snoc by (simp add: rstrip_char_def rstrip_by_def)
  qed (simp add: rstrip_keeps)
qed (simp add: rstrip_char_def rstrip_by_def)

text \<open>C23. The artifact check confines deletion: a path that passes lies, after normalisation, strictly
  below the workspace (its components extend those of the workspace), neither path has a \<open>..\<close>
  component, and the last component carries one of the scheduler's own prefixes; nothing else is
  handed to the remote removal.\<close>

theorem artifact_removal_confined:
  assumes "[] \<notin> set prefixes"
    and "p \<in> set (fst (remove_scheduler_artifacts remove_trees workspace paths prefixes))"
  shows "p \<in> set paths \<and> (\<exists>rel. path_parts (normalize_remote_path p) = path_parts (normalize_remote_path workspace) @ rel
     \<and> rel \<noteq> [] \<and> ''..'' \<notin> set (path_parts (normalize_remote_path p)) \<and> (\<exists>pre \<in> set prefixes. startswith (last rel) pre))"
proof -
  have p: "p \<in> set paths" and safe: "is_safe_scheduler_artifact_path workspace p prefixes"
    using assms(2) by (auto simp: remove_scheduler_artifacts_def Let_def split: if_splits option.splits)
  let ?a = "normalize_remote_path p" and ?w = "normalize_remote_path workspace"
  have g: "''..'' \<notin> set (path_parts ?a)" "startswith ?a (rstrip_char slash ?w @ [slash])"
    and pre: "\<exists>pre \<in> set prefixes. startswith (basename (rstrip_char slash ?a)) pre"
    using safe by (auto simp: is_safe_scheduler_artifact_path_def Let_def list_ex_iff split: if_splits)
  obtain rest where rest: "?a = rstrip_char slash ?w @ slash # rest" using g(2) by (auto simp: startswith_iff)
  then have "?a \<noteq> ''.''" by (cases "rstrip_char slash ?w") auto
  then obtain k cs where n: "normal_path ?a k cs" using normpath_normal unfolding normalize_remote_path_def by blast
  have cs: "cs \<noteq> []"
  proof
    assume "cs = []"
    then have "rstrip_char slash ?a = []" using n by (simp add: normal_path_def join_def rstrip_char_def rstrip_by_eq_Nil)
    then show False using pre assms(1) by (auto simp: basename_def startswith_def)
  qed
  have parts: "path_parts ?a = path_parts ?w @ path_parts rest" unfolding rest by (simp add: parts_append parts_rstrip)
  have "rest \<noteq> []" using normal_last [OF n cs] rest by auto
  have "path_parts rest \<noteq> []"
  proof
    assume none: "path_parts rest = []"
    have "last rest \<noteq> slash" using normal_last [OF n cs] rest \<open>rest \<noteq> []\<close> by simp
    then have "\<exists>c. c \<in> set (path_parts rest)"
    proof -
      have "split_on slash q = [] \<or> last (split_on slash q) \<noteq> []" if "q \<noteq> []" "last q \<noteq> slash" for q
        using that
      proof (induction q)
        case (Cons c q)
        then show ?case by (cases q) (auto simp: split_on_def split: list.splits if_splits)
      qed simp
      then have "last (split_on slash rest) \<noteq> []" using \<open>rest \<noteq> []\<close> \<open>last rest \<noteq> slash\<close> split_by_neq_Nil by (metis split_on_def)
      moreover have "last (split_on slash rest) \<in> set (split_on slash rest)" using split_by_neq_Nil by (simp add: split_on_def)
      ultimately show ?thesis by (auto simp: path_parts_def)
    qed
    then show False using none by simp
  qed
  moreover have "last (path_parts rest) = basename (rstrip_char slash ?a)"
    using parts normal_parts [OF n] basename_normal [OF n cs] rstrip_keeps normal_last [OF n cs] \<open>path_parts rest \<noteq> []\<close>
    by (metis last_appendR)
  ultimately show ?thesis using p g(1) pre parts by auto
qed

section \<open>Every marker up to the workspace is probed\<close>

lemma rstrip_append:
  "rstrip_char c (a @ b) = (if list_all (\<lambda>d. d = c) b then rstrip_char c a else a @ rstrip_char c b)"
proof (induction b rule: rev_induct)
  case (snoc d b)
  then show ?case
    by (cases "d = c") (auto simp: rstrip_char_def rstrip_by_def append_assoc [symmetric] simp del: append_assoc)
qed simp

lemma rstrip_last: "rstrip_char c p = [] \<or> last (rstrip_char c p) \<noteq> c"
  by (induction p rule: rev_induct) (auto simp: rstrip_char_def rstrip_by_def)

definition below :: "string \<Rightarrow> string \<Rightarrow> bool" where
  "below base p = (p \<noteq> [] \<and> last p \<noteq> slash \<and> startswith p (base @ [slash]))"

definition proper_base :: "string \<Rightarrow> bool" where
  "proper_base base = (base \<noteq> [] \<and> last base \<noteq> slash)"

lemma path_head_append: "slash \<notin> set b \<Longrightarrow> path_head (a @ slash # b) = a @ [slash]"
  by (simp add: path_head_def dropWhile_append)

lemma below_split:
  assumes "below base p"
  obtains h where "p = (base @ slash # h) @ basename p" "path_head p = base @ slash # h" "basename p \<noteq> []"
proof -
  obtain r where r: "p = base @ slash # r" using assms by (auto simp: below_def startswith_iff)
  have "basename p \<noteq> []" using assms by (cases p rule: rev_cases) (auto simp: below_def basename_def)
  moreover have "\<exists>h. path_head p = base @ slash # h"
  proof (cases "slash \<in> set r")
    case True
    then obtain u v where "r = u @ slash # v" "slash \<notin> set v" by (metis split_list_last)
    then have "path_head p = (base @ slash # u) @ [slash]" using r path_head_append [of v "base @ slash # u"] by simp
    then show ?thesis by simp
  next
    case False
    then show ?thesis using r path_head_append [of r base] by simp
  qed
  ultimately show ?thesis using that path_head_prefix [of p] by metis
qed

lemma dirname_below:
  assumes base: "proper_base base" and "below base p"
  shows "dirname p = base \<or> below base (dirname p)" "dirname p \<noteq> p"
    "path_parts (dirname p) = butlast (path_parts p)"
proof -
  obtain h where h: "p = (base @ slash # h) @ basename p" "path_head p = base @ slash # h" "basename p \<noteq> []"
    using below_split [OF assms(2)] .
  have "\<not> list_all (\<lambda>c. c = slash) (base @ slash # h)"
    using base by (cases base rule: rev_cases) (auto simp: proper_base_def)
  then have dn: "dirname p = rstrip_char slash (base @ slash # h)" using h(2) by (simp add: dirname_def Let_def)
  have "rstrip_char slash (base @ slash # h) = (if list_all (\<lambda>c. c = slash) h then base else base @ slash # rstrip_char slash h)"
    using rstrip_append [of slash base "slash # h"] rstrip_append [of slash "base @ [slash]" h] rstrip_keeps base
    by (auto simp: proper_base_def)
  moreover have "rstrip_char slash h \<noteq> []" "last (rstrip_char slash h) \<noteq> slash" if "\<not> list_all (\<lambda>c. c = slash) h"
    using that rstrip_last [of slash h] by (auto simp: rstrip_char_def rstrip_by_eq_Nil list_all_iff)
  ultimately show "dirname p = base \<or> below base (dirname p)" by (auto simp: dn below_def startswith_iff)
  have "length (dirname p) \<le> length (base @ slash # h)" unfolding dn by (rule length_rstrip)
  moreover have "length (base @ slash # h) < length p" using arg_cong [OF h(1), of length] h(3) by simp
  ultimately show "dirname p \<noteq> p" by auto
  have free: "slash \<notin> set (basename p)" by (auto simp: basename_def dest: set_takeWhileD)
  have "path_head q = [] \<or> (\<exists>g. path_head q = g @ [slash])" for q
    by (induction q rule: rev_induct) (auto simp: path_head_def)
  then obtain g where g: "path_head p = g @ [slash]" using h(2) by (metis append_is_Nil_conv list.distinct(1))
  have "path_parts p = path_parts g @ [basename p]"
    using path_head_prefix [of p] g parts_append [of g "basename p"] h(3) free
    by (simp add: path_parts_def split_on_free)
  moreover have "path_parts (dirname p) = path_parts g"
    using dn h(2) g parts_rstrip [of "g @ [slash]"] parts_append [of g "[]"] by simp
  ultimately show "path_parts (dirname p) = butlast (path_parts p)" by simp
qed

lemma marker_walk_total:
  assumes base: "proper_base base" and "p = base \<or> below base p"
  shows "\<exists>ms. marker_walk base (base @ [slash]) p = Inr ms
     \<and> (\<forall>m \<in> set ms. \<exists>d. m = posix_join d marker_name \<and> (d = base \<or> startswith d (base @ [slash])))
     \<and> (\<forall>k. length (path_parts base) \<le> k \<and> k \<le> length (path_parts p) \<longrightarrow>
          (\<exists>d. path_parts d = take k (path_parts p) \<and> posix_join d marker_name \<in> set ms))"
  using assms(2)
proof (induction p rule: length_induct)
  case (1 p)
  show ?case
  proof (cases "p = base")
    case True
    then show ?thesis by (subst marker_walk.simps) auto
  next
    case False
    then have low: "below base p" using 1 by simp
    note dn = dirname_below [OF base low]
    have "length (dirname p) < length p" using dn(2) dirname_same [of p] length_dirname [of p] by linarith
    then obtain ms where ms: "marker_walk base (base @ [slash]) (dirname p) = Inr ms"
      "\<forall>m \<in> set ms. \<exists>d. m = posix_join d marker_name \<and> (d = base \<or> startswith d (base @ [slash]))"
      "\<forall>k. length (path_parts base) \<le> k \<and> k \<le> length (path_parts (dirname p)) \<longrightarrow>
          (\<exists>d. path_parts d = take k (path_parts (dirname p)) \<and> posix_join d marker_name \<in> set ms)"
      using 1 dn(1) by blast
    have walk: "marker_walk base (base @ [slash]) p = Inr (posix_join p marker_name # ms)"
      using False dn(1,2) ms(1) base by (subst marker_walk.simps) (auto simp: Let_def below_def)
    have "\<exists>d. path_parts d = take k (path_parts p) \<and> posix_join d marker_name \<in> set (posix_join p marker_name # ms)"
      if "length (path_parts base) \<le> k" "k \<le> length (path_parts p)" for k
    proof (cases "k = length (path_parts p)")
      case False
      then have "k \<le> length (path_parts (dirname p))" using that dn(3) by simp
      moreover have "take k (path_parts (dirname p)) = take k (path_parts p)" using False that dn(3) by (simp add: take_butlast)
      ultimately show ?thesis using ms(3) that(1) by force
    qed (use that in \<open>auto intro: exI [of _ p]\<close>)
    then show ?thesis unfolding walk using ms(2) low by (auto simp: below_def)
  qed
qed



theorem artifact_removal_confined_witness:
  "fst (remove_scheduler_artifacts (\<lambda>ps. None) ''~/ws'' [''$HOME/ws/slurm_task_7'', ''ws/../slurm_task_8'', ''/etc/slurm_task_9''] [''slurm_task_''])
     = [''$HOME/ws/slurm_task_7'']
   \<and> (\<exists>rel. path_parts (normalize_remote_path ''$HOME/ws/slurm_task_7'') = path_parts (normalize_remote_path ''~/ws'') @ rel \<and> rel \<noteq> [])"
proof -
  have run: "fst (remove_scheduler_artifacts (\<lambda>ps. None) ''~/ws'' [''$HOME/ws/slurm_task_7'', ''ws/../slurm_task_8'', ''/etc/slurm_task_9''] [''slurm_task_''])
     = [''$HOME/ws/slurm_task_7'']" by code_simp
  then have "''$HOME/ws/slurm_task_7'' \<in> set (fst (remove_scheduler_artifacts (\<lambda>ps. None) ''~/ws''
      [''$HOME/ws/slurm_task_7'', ''ws/../slurm_task_8'', ''/etc/slurm_task_9''] [''slurm_task_'']))" by simp
  from artifact_removal_confined [OF _ this] run show ?thesis by auto
qed

section \<open>The protection manifest\<close>

datatype json = JsNull | JsBool bool | JsNumber rat | JsText string | JsArray "json list" | JsObject "(string \<times> json) list"

definition utf8_length :: "string \<Rightarrow> nat" where
  "utf8_length s = sum_list (map (\<lambda>c. if code c < 128 then 1 else 2) s)"

definition manifest_fields :: "string list" where
  "manifest_fields = [''schema'', ''preserve'', ''created_at'', ''reason'', ''owner'', ''artifact_manifest'']"

definition required_fields :: "string list" where
  "required_fields = [''schema'', ''preserve'', ''created_at'', ''reason'']"

definition text_within :: "nat \<Rightarrow> json \<Rightarrow> bool" where
  "text_within n v = (case v of JsText s \<Rightarrow> strip s \<noteq> [] \<and> length (strip s) \<le> n | _ \<Rightarrow> False)"

definition hex_digit :: "char \<Rightarrow> bool" where
  "hex_digit c = (is_digit c \<or> (97 \<le> code c \<and> code c \<le> 102))"

definition safe_manifest_path :: "json \<Rightarrow> bool" where
  "safe_manifest_path v = (case v of JsText p \<Rightarrow>
       p \<noteq> [] \<and> \<not> startswith p [slash] \<and> CHR 0x5C \<notin> set p \<and> \<not> list_ex path_control p
       \<and> \<not> list_ex (\<lambda>part. part \<in> {[], ''.'', ''..''}) (split_on slash p) \<and> normpath p = p
     | _ \<Rightarrow> False)"

definition sha256_text :: "json \<Rightarrow> bool" where
  "sha256_text v = (case v of JsText d \<Rightarrow> length d = 64 \<and> list_all hex_digit d | _ \<Rightarrow> False)"

definition check_artifact_manifest :: "json option \<Rightarrow> py_error option" where
  "check_artifact_manifest v =
     (case v of None \<Rightarrow> None | Some JsNull \<Rightarrow> None
      | Some (JsObject m) \<Rightarrow>
          (if fst ` set m \<noteq> {''path'', ''sha256''} then Some (ValueError ''artifact_manifest must contain exactly path and sha256'')
           else if \<not> safe_manifest_path (the (map_of m ''path''))
           then Some (ValueError ''artifact_manifest path must be safe and relative'')
           else if \<not> sha256_text (the (map_of m ''sha256''))
           then Some (ValueError ''artifact_manifest sha256 must be 64 lowercase hex characters'')
           else None)
      | Some _ \<Rightarrow> Some (ValueError ''artifact_manifest must contain exactly path and sha256''))"

text \<open>\<open>fromisoformat\<close> gives whether the parsed instant has a timezone, or \<open>None\<close> for its \<open>ValueError\<close>.\<close>

definition check_created_at :: "(string \<Rightarrow> bool option) \<Rightarrow> json \<Rightarrow> py_error option" where
  "check_created_at fromisoformat v =
     (case v of JsText s \<Rightarrow>
          (if strip s = [] then Some (ValueError ''prune-protection created_at must be a timestamp'')
           else (case fromisoformat (concat (map (\<lambda>c. if c = CHR ''Z'' then ''+00:00'' else [c]) s)) of
               None \<Rightarrow> Some (ValueError ''prune-protection created_at is not ISO-8601'')
             | Some tz \<Rightarrow> if tz then None else Some (ValueError ''prune-protection created_at must include a timezone'')))
      | _ \<Rightarrow> Some (ValueError ''prune-protection created_at must be a timestamp''))"

definition check_manifest_fields :: "(string \<Rightarrow> bool option) \<Rightarrow> (string \<times> json) list \<Rightarrow> py_error option" where
  "check_manifest_fields fromisoformat m =
     (let unknown = filter (\<lambda>k. k \<notin> set manifest_fields) (sorted_set (map fst m));
          missing = filter (\<lambda>k. k \<notin> fst ` set m) (sorted_set required_fields);
          get = (\<lambda>k. the (map_of m k)) in
      if unknown \<noteq> [] then Some (ValueError (''prune-protection manifest has unknown fields: '' @ join '', '' unknown))
      else if missing \<noteq> [] then Some (ValueError (''prune-protection manifest is missing fields: '' @ join '', '' missing))
      else if get ''schema'' \<noteq> JsText ''slurm-scheduler-prune-protection-v1''
      then Some (ValueError ''unsupported prune-protection manifest schema'')
      else if get ''preserve'' \<noteq> JsBool True then Some (ValueError ''prune-protection manifest must set preserve=true'')
      else (case check_created_at fromisoformat (get ''created_at'') of Some e \<Rightarrow> Some e
        | None \<Rightarrow>
            if \<not> text_within 1024 (get ''reason'')
            then Some (ValueError ''prune-protection reason must contain 1 to 1024 characters'')
            else (case map_of m ''owner'' of
                Some v \<Rightarrow> if v \<noteq> JsNull \<and> \<not> text_within 256 v
                    then Some (ValueError ''prune-protection owner must contain 1 to 256 characters'')
                    else check_artifact_manifest (map_of m ''artifact_manifest'')
              | None \<Rightarrow> check_artifact_manifest (map_of m ''artifact_manifest''))))"

definition parse_workspace_prune_protection_manifest ::
  "(string \<Rightarrow> json option) \<Rightarrow> (string \<Rightarrow> bool option) \<Rightarrow> string \<Rightarrow> (string \<times> json) list result" where
  "parse_workspace_prune_protection_manifest loads fromisoformat raw =
     (if 16 * 1024 < utf8_length raw then Inl (ValueError ''prune-protection manifest exceeds 16 KiB'')
      else (case loads raw of None \<Rightarrow> Inl (ValueError ''prune-protection manifest is not valid UTF-8 JSON'')
        | Some (JsObject m) \<Rightarrow> (case check_manifest_fields fromisoformat m of Some e \<Rightarrow> Inl e | None \<Rightarrow> Inr m)
        | Some _ \<Rightarrow> Inl (ValueError ''prune-protection manifest must be a JSON object'')))"

section \<open>An accepted artifact path stays inside its directory\<close>

lemma norm_comps_plain:
  "list_all (\<lambda>c. c \<notin> {[], ''.'', ''..''}) cs \<Longrightarrow> norm_comps b acc cs = rev acc @ cs"
  by (induction cs arbitrary: acc) auto

lemma norm_comps_append: "norm_comps b acc (cs @ ds) = norm_comps b (rev (norm_comps b acc cs)) ds"
  by (induction cs arbitrary: acc) auto

lemma leading_slashes_append: "d \<noteq> [] \<Longrightarrow> last d \<noteq> slash \<Longrightarrow> leading_slashes (d @ p) = leading_slashes d"
proof -
  assume d: "d \<noteq> []" "last d \<noteq> slash"
  then obtain a r where a: "d = a # r" by (cases d) auto
  show ?thesis
  proof (cases r)
    case (Cons b r')
    then show ?thesis using a d by (cases r') (auto simp: leading_slashes_def startswith_def)
  qed (use a d in \<open>auto simp: leading_slashes_def startswith_def\<close>)
qed

lemma normpath_join_parts:
  assumes d: "d \<noteq> []" "last d \<noteq> slash" and p: "\<not> startswith p [slash]"
    and parts: "list_all (\<lambda>c. c \<notin> {[], ''.'', ''..''}) (split_on slash p)"
  shows "path_parts (normpath (posix_join d p)) = (if normpath d = ''.'' then [] else path_parts (normpath d)) @ split_on slash p"
proof -
  let ?k = "leading_slashes d" and ?cs = "norm_comps (0 < leading_slashes d) [] (split_on slash d)"
  have pj: "posix_join d p = d @ slash # p" using d p by (simp add: posix_join_def endswith_char_def)
  have ne: "split_on slash p \<noteq> []" by (simp add: split_on_def)
  have comps: "norm_comps (0 < ?k) [] (split_on slash (d @ slash # p)) = ?cs @ split_on slash p"
    by (simp add: split_on_append norm_comps_append norm_comps_plain [OF parts])
  have ok: "comps_ok ?cs" by (intro norm_comps_ok split_slash_free) simp
  have ok': "comps_ok (?cs @ split_on slash p)"
    using ok parts split_slash_free [of p] by (auto simp: comps_ok_def list_all_iff)
  have out: "normpath (d @ slash # p) = replicate ?k slash @ join [slash] (?cs @ split_on slash p)"
  proof -
    have "join [slash] (?cs @ split_on slash p) \<noteq> []"
      using parts_join [OF ok'] ne by (metis append_is_Nil_conv parts_Nil)
    then show ?thesis using d comps leading_slashes_append [OF d, of "slash # p"] by (simp add: normpath_def Let_def)
  qed
  have "path_parts (normpath (d @ slash # p)) = ?cs @ split_on slash p"
    unfolding out by (simp only: parts_slashes parts_join [OF ok'])
  moreover have "?cs = (if normpath d = ''.'' then [] else path_parts (normpath d))"
  proof (cases "replicate ?k slash @ join [slash] ?cs = []")
    case True
    then have "?cs = []" using parts_join [OF ok] by (metis append_is_Nil_conv parts_Nil)
    then show ?thesis using True d by (simp add: normpath_def Let_def)
  next
    case False
    then have nd: "normpath d = replicate ?k slash @ join [slash] ?cs" using d by (auto simp: normpath_def Let_def)
    then have "path_parts (normpath d) = ?cs" by (simp only: parts_slashes parts_join [OF ok])
    moreover have "''.'' \<notin> set ?cs" using ok by (auto simp: comps_ok_def list_all_iff)
    moreover have "path_parts ''.'' = [''.'']" by code_simp
    ultimately have "normpath d \<noteq> ''.''" by (metis list.set_intros(1))
    then show ?thesis using \<open>path_parts (normpath d) = ?cs\<close> by simp
  qed
  ultimately show ?thesis using pj by simp
qed

lemma check_chain:
  "(if a then Some w else if b then Some x else if c then Some y else if e then Some z else r) = None
     \<longleftrightarrow> \<not> a \<and> \<not> b \<and> \<not> c \<and> \<not> e \<and> r = None"
  by auto

lemma check_rest:
  "(case c of None \<Rightarrow> if a then Some x else (case v of None \<Rightarrow> k | Some w \<Rightarrow> if b w then Some y else k) | Some e \<Rightarrow> Some e) = None
     \<Longrightarrow> k = None"
  by (auto split: if_splits option.splits)


definition demo_manifest :: "(string \<times> json) list" where
  "demo_manifest = [(''schema'', JsText ''slurm-scheduler-prune-protection-v1''), (''preserve'', JsBool True),
     (''created_at'', JsText ''2026-01-01T00:00:00Z''), (''reason'', JsText ''sealed''),
     (''artifact_manifest'', JsObject [(''path'', JsText ''out/a.json''), (''sha256'', JsText (replicate 64 (CHR ''a'')))])]"


end
