(* ===== verification/Web_Guard.thy ===== *)
theory Web_Guard
  imports Prelude
begin

text \<open>
  The guards of the web process: \<open>observer_guard.py\<close> (an observer rejects writes),
  \<open>web_read_guard.py\<close> (which requests are bounded, coalesced or cached, and the response cache) and
  \<open>web_supervisor.py\<close> (when the parent gives up a worker whose listener vanished), with the setup
  text of submitted tasks (\<open>task_payload.py\<close>). The coroutines of the read guard are reduced to the
  cache and the routing decision; semaphores and futures are asyncio's own.
\<close>

section \<open>Requests\<close>

record scope =
  sc_type :: string
  sc_method :: string
  sc_path :: string
  sc_query_string :: string
  sc_headers :: "(string \<times> string) list"

text \<open>\<open>ObserverGuardMiddleware.__call__\<close>: the status of the rejection, or \<open>None\<close> when the request is
  passed to the application.\<close>

definition observer_guard :: "scope \<Rightarrow> nat option" where
  "observer_guard sc = (if sc_type sc = ''http'' \<and> sc_method sc \<notin> {''GET'', ''HEAD'', ''OPTIONS''} then Some 403 else None)"

section \<open>The read guard\<close>

datatype message = ResponseStart int | ResponseBody string | OtherMessage

type_synonym cache_key = "string \<times> string \<times> string"
type_synonym read_cache = "(cache_key \<times> rat \<times> message list) list"

record read_guard =
  rg_ttl_seconds :: rat
  rg_max_entries :: int
  rg_max_cache_body_bytes :: int
  rg_max_bulk_concurrency :: int
  rg_max_task_detail_concurrency :: int

definition make_read_guard :: "rat \<Rightarrow> int \<Rightarrow> int \<Rightarrow> int \<Rightarrow> int \<Rightarrow> read_guard" where
  "make_read_guard ttl entries body bulk detail =
     \<lparr>rg_ttl_seconds = max 0 ttl, rg_max_entries = max 1 entries, rg_max_cache_body_bytes = max 0 body,
      rg_max_bulk_concurrency = max 1 bulk, rg_max_task_detail_concurrency = max 1 detail\<rparr>"

definition header :: "scope \<Rightarrow> string \<Rightarrow> string" where
  "header sc name = (case find (\<lambda>(k, v). lower k = name) (sc_headers sc) of None \<Rightarrow> [] | Some (k, v) \<Rightarrow> v)"

definition make_cache_key :: "scope \<Rightarrow> cache_key" where
  "make_cache_key sc = (sc_path sc, sc_query_string sc, header sc ''accept-encoding'')"

text \<open>\<open>OrderedDict\<close>: the front is the oldest entry, \<open>move_to_end\<close> the most recent use.\<close>

definition cache_drop :: "cache_key \<Rightarrow> read_cache \<Rightarrow> read_cache" where
  "cache_drop k c = filter (\<lambda>e. fst e \<noteq> k) c"

definition cached :: "cache_key \<Rightarrow> rat \<Rightarrow> read_cache \<Rightarrow> message list option \<times> read_cache" where
  "cached k now c =
     (case map_of c k of
        None \<Rightarrow> (None, c)
      | Some (expires, ms) \<Rightarrow>
          if expires \<le> now then (None, cache_drop k c)
          else (Some ms, cache_drop k c @ [(k, expires, ms)]))"

definition body_bytes :: "message list \<Rightarrow> int" where
  "body_bytes ms = sum_list (map (\<lambda>m. case m of ResponseBody b \<Rightarrow> int (length b) | _ \<Rightarrow> 0) ms)"

fun response_status :: "message list \<Rightarrow> int" where
  "response_status [] = 0"
| "response_status (ResponseStart n # ms) = n"
| "response_status (m # ms) = response_status ms"

definition store :: "read_guard \<Rightarrow> cache_key \<Rightarrow> message list \<Rightarrow> rat \<Rightarrow> read_cache \<Rightarrow> read_cache" where
  "store g k ms now c =
     (if response_status ms \<noteq> 200 \<or> rg_ttl_seconds g \<le> 0 \<or> rg_max_cache_body_bytes g < body_bytes ms then c
      else (let c1 = cache_drop k c @ [(k, now + rg_ttl_seconds g, ms)]
            in drop (length c1 - nat (rg_max_entries g)) c1))"

datatype route = PassThrough | BoundedDetail | Cacheable cache_key

definition task_detail_path :: "string \<Rightarrow> bool" where
  "task_detail_path p = (startswith p ''/api/tasks/'' \<and> drop 11 p \<noteq> [] \<and> list_all is_digit (drop 11 p))"

definition read_route :: "scope \<Rightarrow> route" where
  "read_route sc =
     (if sc_type sc \<noteq> ''http'' \<or> sc_method sc \<noteq> ''GET'' then PassThrough
      else if task_detail_path (sc_path sc) then BoundedDetail
      else if sc_path sc \<notin> {''/'', ''/api/tasks''} then PassThrough
      else Cacheable (make_cache_key sc))"

text \<open>One cacheable GET served alone: from the cache, or by the application (its messages and the time
  at which they are complete), whose response is then stored.\<close>

record exchange =
  ex_key :: cache_key
  ex_now :: rat
  ex_done :: rat
  ex_response :: "message list"

definition serve :: "read_guard \<Rightarrow> exchange \<Rightarrow> read_cache \<Rightarrow> message list \<times> read_cache" where
  "serve g e c =
     (case cached (ex_key e) (ex_now e) c of
        (Some ms, c1) \<Rightarrow> (ms, c1)
      | (None, c1) \<Rightarrow> (ex_response e, store g (ex_key e) (ex_response e) (ex_done e) c1))"

fun serve_all :: "read_guard \<Rightarrow> exchange list \<Rightarrow> read_cache \<Rightarrow> (exchange \<times> message list) list \<times> read_cache" where
  "serve_all g [] c = ([], c)"
| "serve_all g (e # es) c =
     (let (ms, c1) = serve g e c; (out, c2) = serve_all g es c1 in ((e, ms) # out, c2))"

section \<open>The supervisor\<close>

record failure_gate =
  fg_threshold :: int
  fg_consecutive_failures :: int
  fg_was_healthy :: bool

definition gate_observe :: "bool \<Rightarrow> failure_gate \<Rightarrow> bool \<times> failure_gate" where
  "gate_observe healthy g =
     (if healthy then (False, g\<lparr>fg_was_healthy := True, fg_consecutive_failures := 0\<rparr>)
      else (let n = fg_consecutive_failures g + 1 in
        (fg_was_healthy g \<and> max 1 (fg_threshold g) \<le> n, g\<lparr>fg_consecutive_failures := n\<rparr>)))"

text \<open>One pass of the monitor loop: whether a stop was requested, the worker's exit code if it has
  ended, the age of the worker and what the probe found.\<close>

record tick =
  tk_stop :: bool
  tk_exit :: "int option"
  tk_age :: rat
  tk_healthy :: bool

record supervisor =
  sv_startup_grace :: rat
  sv_failure_threshold :: int

datatype supervisor_end = Stopped | WorkerExit int | ListenerLost

fun supervise :: "supervisor \<Rightarrow> failure_gate \<Rightarrow> tick list \<Rightarrow> supervisor_end option" where
  "supervise sv g [] = None"
| "supervise sv g (t # ts) =
     (if tk_stop t then Some Stopped
      else (case tk_exit t of
          Some rc \<Rightarrow> Some (WorkerExit rc)
        | None \<Rightarrow>
            if tk_healthy t then supervise sv (snd (gate_observe True g)) ts
            else if sv_startup_grace sv \<le> tk_age t
            then (let (failed, g1) = gate_observe False g in
                  if failed \<or> (\<not> fg_was_healthy g1 \<and> sv_failure_threshold sv \<le> fg_consecutive_failures g1)
                  then Some ListenerLost else supervise sv g1 ts)
            else supervise sv g ts))"

definition supervisor_run :: "supervisor \<Rightarrow> tick list \<Rightarrow> supervisor_end option" where
  "supervisor_run sv ts =
     supervise sv \<lparr>fg_threshold = sv_failure_threshold sv, fg_consecutive_failures = 0, fg_was_healthy = False\<rparr> ts"

fun exit_status :: "supervisor_end \<Rightarrow> int" where
  "exit_status Stopped = 0"
| "exit_status (WorkerExit rc) = rc"
| "exit_status ListenerLost = 70"

section \<open>Setup text (task\_payload.py)\<close>

definition prepend_setup_once :: "string \<Rightarrow> string \<Rightarrow> string" where
  "prepend_setup_once generated0 supplied0 =
     (let generated = strip generated0; supplied = strip supplied0 in
      if generated = [] then supplied
      else if supplied = generated \<or> startswith supplied (generated @ [CHR 0x0A]) then supplied
      else if supplied \<noteq> [] then generated @ CHR 0x0A # supplied else generated)"

section \<open>The cache\<close>

definition from_history :: "read_guard \<Rightarrow> exchange list \<Rightarrow> read_cache \<Rightarrow> bool" where
  "from_history g hist c = (\<forall>(k, ex, ms) \<in> set c. \<exists>e \<in> set hist. ex_key e = k \<and> ms = ex_response e
     \<and> ex = ex_done e + rg_ttl_seconds g \<and> response_status ms = 200)"

definition cache_wf :: "read_guard \<Rightarrow> read_cache \<Rightarrow> bool" where
  "cache_wf g c = (distinct (map fst c) \<and> int (length c) \<le> rg_max_entries g)"

lemma Ball_subset: "\<forall>x \<in> A. P x \<Longrightarrow> B \<subseteq> A \<Longrightarrow> \<forall>x \<in> B. P x"
  by blast

lemma from_history_mono: "from_history g h c \<Longrightarrow> set h \<subseteq> set h' \<Longrightarrow> from_history g h' c"
  unfolding from_history_def by fast

lemma from_history_subset: "from_history g h c \<Longrightarrow> set c' \<subseteq> set c \<Longrightarrow> from_history g h c'"
  unfolding from_history_def by (rule Ball_subset)

lemma cache_drop_props [simp]:
  "set (cache_drop k c) \<subseteq> set c" "k \<notin> fst ` set (cache_drop k c)"
  "distinct (map fst c) \<Longrightarrow> distinct (map fst (cache_drop k c))" "length (cache_drop k c) \<le> length c"
  by (auto simp: cache_drop_def distinct_map_filter)

lemma cache_drop_less: "k \<in> fst ` set c \<Longrightarrow> length (cache_drop k c) < length c"
proof -
  assume "k \<in> fst ` set c"
  then obtain e where "e \<in> set c" "fst e = k" by auto
  then show ?thesis unfolding cache_drop_def by (intro length_filter_less [of e]) simp_all
qed

lemma cached_hit:
  assumes "cached k now c = (Some ms, c')"
  shows "\<exists>ex. (k, ex, ms) \<in> set c \<and> now < ex"
proof -
  obtain ex where ex: "map_of c k = Some (ex, ms)" "\<not> ex \<le> now"
    using assms by (auto simp: cached_def split: option.splits if_splits)
  then show ?thesis using map_of_SomeD [OF ex(1)] by auto
qed

lemma cached_set: "cached k now c = (r, c') \<Longrightarrow> set c' \<subseteq> set c"
  using cache_drop_props(1) by (fastforce simp: cached_def split: option.splits if_splits dest: map_of_SomeD)

lemma cached_wf:
  assumes "cached k now c = (r, c')" and "cache_wf g c"
  shows "cache_wf g c'"
proof (cases "map_of c k")
  case (Some v)
  have "k \<in> fst ` set c" using Some by (force dest: map_of_SomeD)
  then have "length (cache_drop k c) < length c" by (rule cache_drop_less)
  then show ?thesis using assms Some by (cases v) (auto simp: cached_def cache_wf_def split: if_splits)
qed (use assms in \<open>auto simp: cached_def\<close>)

lemma store_wf: "0 < rg_max_entries g \<Longrightarrow> cache_wf g c \<Longrightarrow> cache_wf g (store g k ms now c)"
  by (auto simp: store_def cache_wf_def Let_def drop_map [symmetric] simp del: drop_append)

lemma store_set:
  "set (store g k ms now c) \<subseteq> insert (k, now + rg_ttl_seconds g, ms) (set c)"
  "response_status ms \<noteq> 200 \<Longrightarrow> store g k ms now c = c"
proof -
  let ?c = "cache_drop k c @ [(k, now + rg_ttl_seconds g, ms)]"
  have "set ?c \<subseteq> insert (k, now + rg_ttl_seconds g, ms) (set c)" by (simp add: subset_insertI2)
  then have "set (drop n ?c) \<subseteq> insert (k, now + rg_ttl_seconds g, ms) (set c)" for n using set_drop_subset by (rule subset_trans [rotated])
  then show "set (store g k ms now c) \<subseteq> insert (k, now + rg_ttl_seconds g, ms) (set c)"
    unfolding store_def Let_def by (simp only: split: if_split) blast
qed (simp add: store_def)

lemma serve_step:
  assumes "serve g e c = (ms, c')" and wf: "cache_wf g c" and hist: "from_history g h c" and "0 < rg_max_entries g"
  shows "cache_wf g c'" "from_history g (h @ [e]) c'"
    "ms = ex_response e \<or> (\<exists>e' \<in> set h. ex_key e' = ex_key e \<and> ms = ex_response e' \<and> response_status ms = 200
        \<and> ex_now e < ex_done e' + rg_ttl_seconds g)"
proof -
  obtain r c1 where look: "cached (ex_key e) (ex_now e) c = (r, c1)" by (cases "cached (ex_key e) (ex_now e) c")
  have c1: "cache_wf g c1" "from_history g (h @ [e]) c1"
    using cached_wf [OF look wf] from_history_subset [OF from_history_mono [OF hist, of "h @ [e]"] cached_set [OF look]] by auto
  show "cache_wf g c'" using assms(1) look c1(1) store_wf [OF assms(4) c1(1), of "ex_key e" "ex_response e" "ex_done e"]
    by (auto simp: serve_def split: option.splits)
  have "from_history g (h @ [e]) (store g (ex_key e) (ex_response e) (ex_done e) c1)"
  proof (cases "response_status (ex_response e) = 200")
    case True
    then have "from_history g (h @ [e]) ((ex_key e, ex_done e + rg_ttl_seconds g, ex_response e) # c1)"
      using c1(2) by (auto simp: from_history_def)
    then show ?thesis by (rule from_history_subset) (use store_set(1) in simp)
  qed (simp add: store_set(2) c1(2))
  then show "from_history g (h @ [e]) c'" using assms(1) look c1(2) by (auto simp: serve_def split: option.splits)
  show "ms = ex_response e \<or> (\<exists>e' \<in> set h. ex_key e' = ex_key e \<and> ms = ex_response e' \<and> response_status ms = 200
        \<and> ex_now e < ex_done e' + rg_ttl_seconds g)"
  proof (cases r)
    case (Some m)
    then have m: "ms = m" using assms(1) look by (simp add: serve_def)
    obtain ex where "(ex_key e, ex, m) \<in> set c" "ex_now e < ex" using cached_hit look Some by blast
    then show ?thesis using hist m by (fastforce simp: from_history_def)
  qed (use assms(1) look in \<open>simp add: serve_def\<close>)
qed

lemma serve_all_inv:
  assumes "serve_all g es c = (out, c')" and "cache_wf g c" and "from_history g h c" and "0 < rg_max_entries g"
  shows "cache_wf g c' \<and> length out = length es
     \<and> (\<forall>i < length es. snd (out ! i) = ex_response (es ! i) \<or> (\<exists>e' \<in> set (h @ take i es). ex_key e' = ex_key (es ! i)
          \<and> snd (out ! i) = ex_response e' \<and> response_status (snd (out ! i)) = 200 \<and> ex_now (es ! i) < ex_done e' + rg_ttl_seconds g))"
  using assms
proof (induction es arbitrary: c out h)
  case (Cons e es)
  obtain ms c1 where one: "serve g e c = (ms, c1)" by (cases "serve g e c")
  obtain out2 where two: "serve_all g es c1 = (out2, c')" "out = (e, ms) # out2"
    using Cons.prems(1) one by (auto split: prod.splits)
  note st = serve_step [OF one Cons.prems(2-4)]
  note ih = Cons.IH [OF two(1) st(1,2) Cons.prems(4)]
  show ?case
  proof (intro conjI allI impI)
    fix i assume "i < length (e # es)"
    then show "snd (out ! i) = ex_response ((e # es) ! i) \<or> (\<exists>e' \<in> set (h @ take i (e # es)). ex_key e' = ex_key ((e # es) ! i)
          \<and> snd (out ! i) = ex_response e' \<and> response_status (snd (out ! i)) = 200 \<and> ex_now ((e # es) ! i) < ex_done e' + rg_ttl_seconds g)"
      using ih st(3) two(2) by (cases i) auto
  qed (use ih two in simp_all)
qed simp


section \<open>The supervisor\<close>

definition recent_failures :: "supervisor \<Rightarrow> tick list \<Rightarrow> int" where
  "recent_failures sv ts = int (length (filter (\<lambda>t. sv_startup_grace sv \<le> tk_age t) (takeWhile (\<lambda>t. \<not> tk_healthy t) (rev ts))))"

definition quiet :: "tick \<Rightarrow> bool" where
  "quiet t = (\<not> tk_stop t \<and> tk_exit t = None)"

lemma recent_snoc:
  "recent_failures sv (ts @ [t]) = (if tk_healthy t then 0
     else recent_failures sv ts + (if sv_startup_grace sv \<le> tk_age t then 1 else 0))"
  by (simp add: recent_failures_def)

definition gate_of :: "supervisor \<Rightarrow> tick list \<Rightarrow> failure_gate \<Rightarrow> bool" where
  "gate_of sv hist g = (fg_threshold g = sv_failure_threshold sv \<and> fg_consecutive_failures g = recent_failures sv hist)"

lemma supervise_lost:
  assumes "1 \<le> sv_failure_threshold sv" and "gate_of sv hist g" and "recent_failures sv hist < sv_failure_threshold sv"
  shows "supervise sv g ts = Some ListenerLost \<longleftrightarrow>
     (\<exists>n < length ts. list_all quiet (take (Suc n) ts) \<and> sv_failure_threshold sv \<le> recent_failures sv (hist @ take (Suc n) ts))"
  using assms(2,3)
proof (induction ts arbitrary: g hist)
  case (Cons t ts)
  let ?thr = "sv_failure_threshold sv"
  have split: "(\<exists>n < length (t # ts). list_all quiet (take (Suc n) (t # ts)) \<and> ?thr \<le> recent_failures sv (hist @ take (Suc n) (t # ts)))
     \<longleftrightarrow> quiet t \<and> (?thr \<le> recent_failures sv (hist @ [t])
        \<or> (\<exists>n < length ts. list_all quiet (take (Suc n) ts) \<and> ?thr \<le> recent_failures sv ((hist @ [t]) @ take (Suc n) ts)))"
    (is "(\<exists>n < _. ?P n) \<longleftrightarrow> ?R")
  proof
    assume "\<exists>n < length (t # ts). ?P n"
    then obtain n where "n < length (t # ts)" "?P n" by blast
    then show ?R by (cases n) auto
  next
    assume ?R
    then show "\<exists>n < length (t # ts). ?P n" by (auto intro: exI [of _ 0] exI [of _ "Suc n" for n])
  qed
  show ?case
  proof (cases "quiet t")
    case True
    note rec = recent_snoc [of sv hist t]
    show ?thesis
    proof (cases "?thr \<le> recent_failures sv (hist @ [t])")
      case True
      then have "\<not> tk_healthy t" "sv_startup_grace sv \<le> tk_age t" using rec Cons.prems assms(1) by (auto split: if_splits)
      then show ?thesis unfolding split using True \<open>quiet t\<close> rec Cons.prems assms(1)
        by (auto simp: quiet_def gate_observe_def gate_of_def Let_def)
    next
      case False
      define g' where "g' = (if tk_healthy t then snd (gate_observe True g)
          else if sv_startup_grace sv \<le> tk_age t then snd (gate_observe False g) else g)"
      have g': "gate_of sv (hist @ [t]) g'" using Cons.prems rec by (auto simp: g'_def gate_of_def gate_observe_def Let_def)
      have "supervise sv g (t # ts) = supervise sv g' ts"
        using True False rec Cons.prems assms(1) by (auto simp: g'_def quiet_def gate_observe_def gate_of_def Let_def)
      then show ?thesis unfolding split using Cons.IH [OF g'] False True by simp
    qed
  next
    case False
    then show ?thesis unfolding split by (auto simp: quiet_def split: option.splits)
  qed
qed simp

text \<open>The supervisor restarts exactly on a lost listener: the worker is given up with status 70 iff, at
  some probe before any stop request or worker exit, the probes since the last healthy one include at
  least the threshold of failures after the start-up grace.\<close>

theorem supervisor_listener_lost:
  assumes "1 \<le> sv_failure_threshold sv"
  shows "supervisor_run sv ts = Some ListenerLost \<longleftrightarrow>
     (\<exists>n < length ts. list_all quiet (take (Suc n) ts) \<and> sv_failure_threshold sv \<le> recent_failures sv (take (Suc n) ts))"
  unfolding supervisor_run_def
  using supervise_lost [OF assms, of "[]" "\<lparr>fg_threshold = sv_failure_threshold sv, fg_consecutive_failures = 0, fg_was_healthy = False\<rparr>" ts] assms
  by (simp add: gate_of_def recent_failures_def)

section \<open>Setup text\<close>

lemma strip_ends: "strip s = [] \<or> (\<not> py_space (hd (strip s)) \<and> \<not> py_space (last (strip s)))"
proof -
  have r: "rstrip_by p q = [] \<or> (\<not> p (last (rstrip_by p q)) \<and> hd (rstrip_by p q) = hd q)" for p q
  proof (induction q rule: rev_induct)
    case (snoc x xs)
    then show ?case by (cases xs) (auto simp: rstrip_by_def)
  qed (simp add: rstrip_by_def)
  have l: "lstrip_by p q = [] \<or> \<not> p (hd (lstrip_by p q))" for p and q :: string
    by (induction q) (auto simp: lstrip_by_def)
  show ?thesis using r [of py_space "lstrip_by py_space s"] l [of py_space s]
    by (auto simp: strip_def rstrip_by_def)
qed

lemma strip_fix: "s = [] \<or> (\<not> py_space (hd s) \<and> \<not> py_space (last s)) \<Longrightarrow> strip s = s"
proof -
  assume a: "s = [] \<or> (\<not> py_space (hd s) \<and> \<not> py_space (last s))"
  have "lstrip_by py_space s = s" using a by (cases s) (auto simp: lstrip_by_def)
  moreover have "rstrip_by py_space s = s" using a by (cases s rule: rev_cases) (auto simp: rstrip_by_def)
  ultimately show ?thesis by (simp add: strip_def)
qed

lemma strip_idem [simp]: "strip (strip s) = strip s"
  using strip_ends strip_fix by blast

text \<open>Expanding a project's setup is idempotent: submitting a task whose setup was already expanded
  adds nothing, the generated setup comes first, and nothing of the supplied text is lost.\<close>

theorem prepend_setup_once_idem:
  "prepend_setup_once g (prepend_setup_once g s) = prepend_setup_once g s
   \<and> startswith (prepend_setup_once g s) (strip g) \<and> (\<exists>pre. prepend_setup_once g s = pre @ strip s)"
proof -
  let ?g = "strip g" and ?s = "strip s"
  have "strip (?g @ CHR 0x0A # ?s) = ?g @ CHR 0x0A # ?s" if "?g \<noteq> []" "?s \<noteq> []"
    using that strip_ends [of g] strip_ends [of s] by (intro strip_fix) simp
  then have "prepend_setup_once g (prepend_setup_once g s) = prepend_setup_once g s"
    by (auto simp: prepend_setup_once_def Let_def startswith_iff)
  moreover have "startswith (prepend_setup_once g s) ?g" "\<exists>pre. prepend_setup_once g s = pre @ ?s"
    by (auto simp: prepend_setup_once_def Let_def startswith_iff)
  ultimately show ?thesis by blast
qed

section \<open>Concrete runs\<close>

definition demo_exchange :: "rat \<Rightarrow> string \<Rightarrow> exchange" where
  "demo_exchange t body = \<lparr>ex_key = (''/api/tasks'', ''limit=5'', ''gzip''), ex_now = t, ex_done = t + 1,
     ex_response = [ResponseStart 200, ResponseBody body]\<rparr>"

definition demo_exchanges :: "exchange list" where
  "demo_exchanges = [demo_exchange 0 ''a'', demo_exchange 2 ''b'', demo_exchange 3 ''c'']"


definition demo_tick :: "rat \<Rightarrow> bool \<Rightarrow> tick" where
  "demo_tick age healthy = \<lparr>tk_stop = False, tk_exit = None, tk_age = age, tk_healthy = healthy\<rparr>"

theorem supervisor_listener_lost_witness:
  "supervisor_run \<lparr>sv_startup_grace = 30, sv_failure_threshold = 2\<rparr>
     [demo_tick 5 True, demo_tick 10 False, demo_tick 40 False, demo_tick 45 False] = Some ListenerLost
   \<and> supervisor_run \<lparr>sv_startup_grace = 30, sv_failure_threshold = 2\<rparr>
     [demo_tick 5 True, demo_tick 40 False, demo_tick 45 True, demo_tick 50 False] = None"
proof
  let ?sv = "\<lparr>sv_startup_grace = 30, sv_failure_threshold = 2\<rparr>"
  let ?ts = "[demo_tick 5 True, demo_tick 10 False, demo_tick 40 False, demo_tick 45 False]"
  have "list_all quiet (take (Suc 3) ?ts)" "2 \<le> recent_failures ?sv (take (Suc 3) ?ts)" by code_simp+
  then have "\<exists>n < length ?ts. list_all quiet (take (Suc n) ?ts) \<and> sv_failure_threshold ?sv \<le> recent_failures ?sv (take (Suc n) ?ts)"
    by (intro exI [of _ 3]) simp
  then show "supervisor_run ?sv ?ts = Some ListenerLost" using supervisor_listener_lost [of ?sv ?ts] by simp
  show "supervisor_run ?sv [demo_tick 5 True, demo_tick 40 False, demo_tick 45 True, demo_tick 50 False] = None" by code_simp
qed

end
