(* ===== verification/Fea_Admission.thy ===== *)
theory Fea_Admission
  imports Capacity Pestat
begin

text \<open>
  Admission of bursty FEA workers in \<open>scheduler.py\<close>: FEA tasks are not charged against an
  allocation's free CPUs and memory; instead the scheduler measures. A worker is admitted only on
  fresh node metrics, above the memory floor, below the load target and the per-allocation CPU cap,
  and at a bounded rate per node and tick.

  \<open>fea_view\<close> collects what the scheduler observes between attaches: the pestat rows with their
  timestamps, the node inventory, the AEDT leases, the clocks and the in-memory ledgers. The
  per-tick caches of the code (dropped at every attach) are not modelled: every value is computed
  from the current rows.
\<close>

section \<open>Configuration and observations\<close>

record fea_config =
  fc_poll_interval_seconds :: int
  fc_cluster_refresh_interval_seconds :: int
  fc_soft_memory_free_percent :: rat
  fc_hard_memory_free_percent :: rat
  fc_load_target :: rat
  fc_max_attach_per_loop :: int
  fc_max_attach_per_node_per_loop :: int
  fc_node_requested_cpu_factor :: rat
  fc_footprint_maturity_seconds :: int
  fc_cpu_footprint_maturity_seconds :: int
  fc_shared_memory_estimate_fraction :: rat
  fc_shared_memory_min_estimate_mb :: int
  fc_adaptive_memory_relax_enabled :: bool
  fc_adaptive_memory_window_seconds :: int
  fc_adaptive_memory_min_coverage_seconds :: int
  fc_adaptive_memory_margin_percent :: rat
  fc_adaptive_memory_max_attach_per_tick :: int
  fc_overload_scale_out_load_factor :: rat
  fc_overload_scale_out_seconds :: int
  fc_alloc_util_enabled :: bool
  fc_alloc_util_target :: rat
  fc_alloc_util_sample_interval_seconds :: rat

record lease_row =
  l_session_id :: int
  l_task_id :: int
  l_state :: string

record cpu_util =
  cu_busy_cores :: rat
  cu_at :: rat

record fea_view =
  fv_now :: int
  fv_monotonic :: rat
  fv_pestat :: "(pestat_node \<times> stamp) list"
  fv_inventory :: "node_inventory list"
  fv_leases :: "lease_row list option"
  fv_last_tick_duration :: "rat option"
  fv_tick_attach_workers_by_node :: "(string \<times> int) list"
  fv_tick_adaptive_memory_nodes :: "string list"
  fv_node_memory_history :: "(string \<times> (rat \<times> int) list) list"
  fv_adaptive_memory_attaches :: "(string \<times> rat list) list"
  fv_alloc_cpu_util :: "(int \<times> cpu_util) list"
  fv_overload_since_by_node :: "(string \<times> rat) list"

definition allocation_of :: "task_row \<Rightarrow> int" where
  "allocation_of t = (case t_allocation_id t of None \<Rightarrow> 0 | Some i \<Rightarrow> i)"

section \<open>Node metrics\<close>

definition pestat_stale_after_seconds :: "fea_config \<Rightarrow> fea_view \<Rightarrow> rat" where
  "pestat_stale_after_seconds cfg v =
     Max (set ([120, of_int (max 1 (fc_poll_interval_seconds cfg) * 4)]
       @ (if 0 < fc_cluster_refresh_interval_seconds cfg then [of_int (fc_cluster_refresh_interval_seconds cfg) * 2] else [])
       @ (case fv_last_tick_duration v of None \<Rightarrow> []
          | Some dur \<Rightarrow> [of_int (fc_cluster_refresh_interval_seconds cfg) + 2 * dur])))"

text \<open>The dict comprehension keeps the last row of a hostname. \<open>max_age\<close> is \<open>None\<close> for \<open>float("inf")\<close>.\<close>

definition pestat_row :: "fea_view \<Rightarrow> string \<Rightarrow> rat option \<Rightarrow> pestat_node option" where
  "pestat_row v node max_age =
     (let name = strip node in
      if name = [] then None
      else (case find (\<lambda>r. pn_hostname (fst r) = name) (rev (fv_pestat v)) of
          None \<Rightarrow> None
        | Some (row, observed) \<Rightarrow>
            (case timestamp observed of None \<Rightarrow> None
             | Some t \<Rightarrow> (case max_age of None \<Rightarrow> Some row
                 | Some limit \<Rightarrow> if limit < of_int (fv_now v - t) / 1000000 then None else Some row))))"

definition pestat_node_for_allocation :: "fea_config \<Rightarrow> fea_view \<Rightarrow> alloc_row \<Rightarrow> pestat_node option" where
  "pestat_node_for_allocation cfg v a = pestat_row v (a_node_name a) (Some (pestat_stale_after_seconds cfg v))"

definition fea_memory_free_percent :: "fea_config \<Rightarrow> fea_view \<Rightarrow> alloc_row \<Rightarrow> rat option" where
  "fea_memory_free_percent cfg v a =
     (case pestat_node_for_allocation cfg v a of None \<Rightarrow> None
      | Some n \<Rightarrow> if pn_memory_mb n \<le> 0 then None
          else Some (max 0 (of_int (pn_free_memory_mb n) / of_int (pn_memory_mb n) * 100)))"

datatype memory_pressure = PressureOk | SoftBlocked | HardPressure

definition fea_memory_pressure_state :: "fea_config \<Rightarrow> fea_view \<Rightarrow> alloc_row \<Rightarrow> memory_pressure" where
  "fea_memory_pressure_state cfg v a =
     (case fea_memory_free_percent cfg v a of
        None \<Rightarrow> SoftBlocked
      | Some p \<Rightarrow> if p < fc_hard_memory_free_percent cfg then HardPressure
          else if p < fc_soft_memory_free_percent cfg then SoftBlocked else PressureOk)"

definition alloc_util_max_age_seconds :: "fea_config \<Rightarrow> rat" where
  "alloc_util_max_age_seconds cfg = max (3 * fc_alloc_util_sample_interval_seconds cfg) 600"

definition alloc_util_fresh :: "fea_config \<Rightarrow> fea_view \<Rightarrow> alloc_row \<Rightarrow> cpu_util option" where
  "alloc_util_fresh cfg v a =
     (case map_of (fv_alloc_cpu_util v) (a_id a) of None \<Rightarrow> None
      | Some u \<Rightarrow> if fc_alloc_util_enabled cfg \<and> fv_monotonic v - cu_at u \<le> alloc_util_max_age_seconds cfg
          then Some u else None)"

definition fea_node_load_ok :: "fea_config \<Rightarrow> fea_view \<Rightarrow> alloc_row \<Rightarrow> bool" where
  "fea_node_load_ok cfg v a =
     (case pestat_node_for_allocation cfg v a of None \<Rightarrow> False
      | Some n \<Rightarrow> (let cpu_total = of_int (max 1 (pn_cpu_total n)) in
          if alloc_util_fresh cfg v a \<noteq> None then pn_cpu_load n \<le> cpu_total * 2
          else pn_cpu_load n \<le> cpu_total * fc_load_target cfg))"

definition fea_node_sustained_overloaded :: "fea_config \<Rightarrow> fea_view \<Rightarrow> string \<Rightarrow> bool" where
  "fea_node_sustained_overloaded cfg v node =
     (case map_of (fv_overload_since_by_node v) node of None \<Rightarrow> False
      | Some since \<Rightarrow> of_int (fc_overload_scale_out_seconds cfg) \<le> fv_monotonic v - since)"

definition fea_allocation_sustained_overloaded :: "fea_config \<Rightarrow> fea_view \<Rightarrow> alloc_row \<Rightarrow> bool" where
  "fea_allocation_sustained_overloaded cfg v a = (a_node_name a \<noteq> [] \<and> fea_node_sustained_overloaded cfg v (a_node_name a))"

definition fea_allocation_accepts_task :: "fea_config \<Rightarrow> fea_view \<Rightarrow> alloc_row \<Rightarrow> bool" where
  "fea_allocation_accepts_task cfg v a =
     (if pestat_node_for_allocation cfg v a = None then False
      else fea_memory_pressure_state cfg v a = PressureOk \<and> fea_node_load_ok cfg v a
        \<and> \<not> fea_allocation_sustained_overloaded cfg v a)"

section \<open>Requested CPUs\<close>

text \<open>Lease pressure that no local task row represents (db.py), per host allocation.\<close>

record lease_usage =
  lu_workers :: int
  lu_shadow_cpus :: int
  lu_live_projects :: int

definition lease_represented :: "db \<Rightarrow> int \<Rightarrow> int \<Rightarrow> lease_row \<Rightarrow> bool" where
  "lease_represented d project_cpus host l =
     (case get_task d (l_task_id l) of None \<Rightarrow> False
      | Some t \<Rightarrow> t_status t \<in> {Attaching, Running} \<and> t_aedt_backend t = Pooled \<and> allocation_of t = host
          \<and> project_cpus \<le> t_cpus t)"

definition add_lease :: "db \<Rightarrow> int \<Rightarrow> session_row list \<Rightarrow> lease_row \<Rightarrow> (int \<times> lease_usage) list \<Rightarrow> (int \<times> lease_usage) list" where
  "add_lease d project_cpus sessions l usage =
     (case find (\<lambda>s. s_id s = l_session_id l) sessions of None \<Rightarrow> usage
      | Some s \<Rightarrow>
          if l_state l \<notin> {''leased'', ''attaching'', ''active'', ''releasing''} \<or> s_allocation_id s \<le> 0
             \<or> s_state s \<notin> {''starting'', ''ready'', ''busy'', ''draining'', ''unhealthy''} then usage
          else (let host = s_allocation_id s; item = dict_get usage host \<lparr>lu_workers = 0, lu_shadow_cpus = 0, lu_live_projects = 0\<rparr>;
                    item1 = item\<lparr>lu_live_projects := lu_live_projects item + 1\<rparr>
                in AList.update host (if lease_represented d project_cpus host l then item1
                     else item1\<lparr>lu_workers := lu_workers item1 + 1, lu_shadow_cpus := lu_shadow_cpus item1 + project_cpus\<rparr>) usage))"

definition aedt_project_pressure_by_allocation :: "db \<Rightarrow> lease_row list option \<Rightarrow> (int \<times> lease_usage) list" where
  "aedt_project_pressure_by_allocation d leases =
     (case (db_aedt d, leases) of
        (Some ts, Some ls) \<Rightarrow> fold (add_lease d (aedt_pool_project_cpus d) (aedt_sessions ts)) ls []
      | _ \<Rightarrow> [])"

record fea_pressure =
  fp_workers :: int
  fp_requested_cpus :: int
  fp_owned_cpus :: int

definition live_capacity_state :: "alloc_row \<Rightarrow> bool" where
  "live_capacity_state a = (a_state a \<in> {Warm, Active, Draining})"

text \<open>Solver tasks whose declared CPUs are charged: not the AEDT hosts, and not thin pooled clients.\<close>

definition charged_fea_task :: "db \<Rightarrow> task_row \<Rightarrow> bool" where
  "charged_fea_task d t = (t_status t \<in> {Attaching, Running} \<and> task_is_fea_bursty t \<and> \<not> task_is_fea_infra t
     \<and> \<not> (task_aedt_backend t = Pooled \<and> t_cpus t < aedt_pool_project_cpus d))"

definition fea_allocation_pressures :: "db \<Rightarrow> lease_row list option \<Rightarrow> (int \<times> fea_pressure) list" where
  "fea_allocation_pressures d leases =
     (let owned = filter (\<lambda>a. live_capacity_state a \<and> 0 < a_total_cpus a) (list_allocations_with_live d 500 5000);
          tasks = filter (charged_fea_task d) (list_tasks_by_statuses d [Attaching, Running] 5000);
          usage = aedt_project_pressure_by_allocation d leases
      in map (\<lambda>a. (a_id a,
           (let mine = filter (\<lambda>t. allocation_of t = a_id a) tasks;
                lease = dict_get usage (a_id a) \<lparr>lu_workers = 0, lu_shadow_cpus = 0, lu_live_projects = 0\<rparr>
            in \<lparr>fp_workers = int (length mine) + lu_workers lease,
                fp_requested_cpus = sum_list (map t_cpus mine) + lu_shadow_cpus lease,
                fp_owned_cpus = a_total_cpus a\<rparr>))) owned)"

definition requested_cpus :: "db \<Rightarrow> lease_row list option \<Rightarrow> int \<Rightarrow> int" where
  "requested_cpus d leases aid = (case map_of (fea_allocation_pressures d leases) aid of None \<Rightarrow> 0 | Some p \<Rightarrow> fp_requested_cpus p)"

definition fea_baseline_ratio :: "db \<Rightarrow> lease_row list option \<Rightarrow> alloc_row \<Rightarrow> rat" where
  "fea_baseline_ratio d leases a =
     (let owned = (case map_of (fea_allocation_pressures d leases) (a_id a) of
            Some p \<Rightarrow> if fp_owned_cpus p \<noteq> 0 then fp_owned_cpus p else a_total_cpus a | None \<Rightarrow> a_total_cpus a)
      in if owned \<le> 0 then 1 else of_int (requested_cpus d leases (a_id a)) / of_int owned)"

definition fea_node_cpu_cap_remaining :: "fea_config \<Rightarrow> db \<Rightarrow> lease_row list option \<Rightarrow> alloc_row \<Rightarrow> task_row \<Rightarrow> int option" where
  "fea_node_cpu_cap_remaining cfg d leases a t =
     (if task_is_fea_infra t \<or> task_uses_reserved_aedt_pool_capacity d a t then None
      else if a_state a = Pending then None
      else if a_id a \<le> 0 \<or> a_total_cpus a \<le> 0 then None
      else (let factor = (if task_has_strict_node_contract t \<and> same_node_as_task_id t \<noteq> 0 then 1 else fc_node_requested_cpu_factor cfg);
                budget = of_int (a_total_cpus a) * factor - of_int (requested_cpus d leases (a_id a))
            in Some (max 0 \<lfloor>budget / of_int (max 1 (t_cpus t))\<rfloor>)))"

definition fea_allocation_baseline_slots_remaining :: "db \<Rightarrow> lease_row list option \<Rightarrow> alloc_row \<Rightarrow> task_row \<Rightarrow> int" where
  "fea_allocation_baseline_slots_remaining d leases a t =
     (let requested = (if a_state a = Pending \<or> a_id a \<le> 0 then 0 else requested_cpus d leases (a_id a))
      in max 0 (a_total_cpus a - requested) div max 1 (t_cpus t))"

section \<open>Memory\<close>

definition fea_shared_memory_estimate_mb :: "fea_config \<Rightarrow> task_row \<Rightarrow> int" where
  "fea_shared_memory_estimate_mb cfg t =
     (let peak = max 1 (t_memory_mb t);
          fractional = truncate_rat (of_int peak * fc_shared_memory_estimate_fraction cfg + 999999 / 1000000)
      in min peak (max (fc_shared_memory_min_estimate_mb cfg) fractional))"

record footprint =
  fo_cpus :: rat
  fo_memory_mb :: rat

definition young :: "int \<Rightarrow> int \<Rightarrow> task_row \<Rightarrow> bool" where
  "young now maturity t = (0 < maturity
     \<and> (case timestamp (stamp_or (t_attached_at t) (stamp_or (t_started_at t) (t_created_at t))) of
          None \<Rightarrow> True | Some s \<Rightarrow> max 0 (of_int (now - s) / 1000000) < (of_int maturity :: rat)))"

definition node_of_allocation :: "db \<Rightarrow> int \<Rightarrow> string" where
  "node_of_allocation d aid =
     (case find (\<lambda>a. a_id a = aid \<and> a_state a \<in> {Pending, Warm, Active, Draining}) (list_allocations_with_live d 500 5000) of
        None \<Rightarrow> [] | Some a \<Rightarrow> a_node_name a)"

definition fea_immature_footprint :: "fea_config \<Rightarrow> fea_view \<Rightarrow> db \<Rightarrow> string \<Rightarrow> footprint" where
  "fea_immature_footprint cfg v d node =
     (if (fc_footprint_maturity_seconds cfg \<le> 0 \<and> fc_cpu_footprint_maturity_seconds cfg \<le> 0) \<or> node = []
      then \<lparr>fo_cpus = 0, fo_memory_mb = 0\<rparr>
      else (let tasks = filter (\<lambda>t. t_status t \<in> {Attaching, Running} \<and> task_is_fea_bursty t
                  \<and> \<not> (task_aedt_backend t = Pooled \<and> t_cpus t < aedt_pool_project_cpus d)
                  \<and> node_of_allocation d (allocation_of t) = node) (list_tasks_by_statuses d [Attaching, Running] 5000)
            in \<lparr>fo_cpus = of_int (sum_list (map t_cpus (filter (young (fv_now v) (fc_cpu_footprint_maturity_seconds cfg)) tasks))),
                fo_memory_mb = of_int (sum_list (map (fea_shared_memory_estimate_mb cfg)
                  (filter (young (fv_now v) (fc_footprint_maturity_seconds cfg)) tasks)))\<rparr>))"

definition record_node_memory_history :: "fea_config \<Rightarrow> pestat_node list \<Rightarrow> fea_view \<Rightarrow> fea_view" where
  "record_node_memory_history cfg nodes v =
     (let now = fv_monotonic v; horizon = now - of_int (fc_adaptive_memory_window_seconds cfg);
          appended = fold (\<lambda>n h. if pn_hostname n = [] then h
            else AList.update (pn_hostname n) (dict_get h (pn_hostname n) [] @ [(now, pn_free_memory_mb n)]) h)
            nodes (fv_node_memory_history v);
          trimmed = filter (\<lambda>e. snd e \<noteq> []) (map (\<lambda>(k, h). (k, dropWhile (\<lambda>s. fst s < horizon) h)) appended)
      in v\<lparr>fv_node_memory_history := trimmed\<rparr>)"

definition fea_adaptive_memory_slots :: "fea_config \<Rightarrow> fea_view \<Rightarrow> string \<Rightarrow> int \<Rightarrow> int \<Rightarrow> int \<Rightarrow> int \<Rightarrow> int" where
  "fea_adaptive_memory_slots cfg v node memory_total soft_floor estimate tick_attaches =
     (if \<not> fc_adaptive_memory_relax_enabled cfg then 0
      else (case dict_get (fv_node_memory_history v) node [] of [] \<Rightarrow> 0
        | first # rest \<Rightarrow>
            (let now = fv_monotonic v; history = first # rest; frees = map snd history in
             if now - fst first < of_int (fc_adaptive_memory_min_coverage_seconds cfg) then 0
             else (let min_free = Min (set frees);
                       avg_free = of_int (sum_list frees) / of_nat (length frees) :: rat;
                       margin = truncate_rat (of_int memory_total * (fc_adaptive_memory_margin_percent cfg / 100)) in
               if min_free < soft_floor + margin \<or> avg_free < of_int (soft_floor + 2 * margin) then 0
               else (let total_slots = (min_free - soft_floor - margin) div max 1 estimate;
                         horizon = now - of_int (fc_adaptive_memory_window_seconds cfg);
                         spent = int (length (filter (\<lambda>s. horizon \<le> s) (dict_get (fv_adaptive_memory_attaches v) node [])));
                         left = max 0 (total_slots - spent)
                     in max 0 (min left (fc_adaptive_memory_max_attach_per_tick cfg - tick_attaches)))))))"

section \<open>The attach budget of one allocation\<close>

definition tick_attaches :: "fea_view \<Rightarrow> alloc_row \<Rightarrow> int" where
  "tick_attaches v a = (let node = strip (a_node_name a) in
     if node = [] then 0 else dict_get (fv_tick_attach_workers_by_node v) node 0)"

definition soft_floor_mb :: "fea_config \<Rightarrow> pestat_node \<Rightarrow> int" where
  "soft_floor_mb cfg n = truncate_rat (of_int (max 1 (pn_memory_mb n)) * (fc_soft_memory_free_percent cfg / 100))"

definition predicted_memory_slots :: "fea_config \<Rightarrow> fea_view \<Rightarrow> db \<Rightarrow> pestat_node \<Rightarrow> alloc_row \<Rightarrow> task_row \<Rightarrow> int" where
  "predicted_memory_slots cfg v d n a t =
     (let young_mb = truncate_rat (fo_memory_mb (fea_immature_footprint cfg v d (strip (a_node_name a))));
          memory_free = max 0 (pn_free_memory_mb n - young_mb)
      in max 0 (memory_free - soft_floor_mb cfg n) div fea_shared_memory_estimate_mb cfg t)"

text \<open>The memory slots, and whether they come from the adaptive relaxation.\<close>

definition memory_slots_for :: "fea_config \<Rightarrow> fea_view \<Rightarrow> db \<Rightarrow> pestat_node \<Rightarrow> alloc_row \<Rightarrow> task_row \<Rightarrow> int \<times> bool" where
  "memory_slots_for cfg v d n a t =
     (let slots = predicted_memory_slots cfg v d n a t in
      if 0 < slots then (slots, False)
      else (let adaptive = fea_adaptive_memory_slots cfg v (strip (a_node_name a)) (max 1 (pn_memory_mb n)) (soft_floor_mb cfg n)
                  (fea_shared_memory_estimate_mb cfg t) (tick_attaches v a)
            in if 0 < adaptive then (adaptive, True) else (slots, False)))"

definition overcommit_cpu_slots :: "fea_config \<Rightarrow> fea_view \<Rightarrow> db \<Rightarrow> pestat_node \<Rightarrow> alloc_row \<Rightarrow> task_row \<Rightarrow> int" where
  "overcommit_cpu_slots cfg v d n a t =
     (let budget = (case alloc_util_fresh cfg v a of
            Some u \<Rightarrow> max 0 (of_int (max 1 (a_total_cpus a)) * fc_alloc_util_target cfg - cu_busy_cores u)
          | None \<Rightarrow> max 0 (of_int (max 1 (pn_cpu_total n)) * fc_load_target cfg
               - (max 0 (pn_cpu_load n) + fo_cpus (fea_immature_footprint cfg v d (strip (a_node_name a))))))
      in \<lfloor>budget / of_int (max 1 (t_cpus t))\<rfloor>)"

definition fea_dynamic_extra_slots :: "fea_config \<Rightarrow> fea_view \<Rightarrow> db \<Rightarrow> alloc_row \<Rightarrow> task_row \<Rightarrow> int \<times> bool" where
  "fea_dynamic_extra_slots cfg v d a t =
     (if a_state a = Pending then (fc_max_attach_per_loop cfg, False)
      else (case pestat_node_for_allocation cfg v a of None \<Rightarrow> (0, False)
        | Some n \<Rightarrow>
            if \<not> fea_allocation_accepts_task cfg v a then (0, False)
            else (let (memory_slots, adaptive) = memory_slots_for cfg v d n a t;
                      baseline = fea_allocation_baseline_slots_remaining d (fv_leases v) a t in
              if 0 < baseline
              then (max 0 (min (min memory_slots baseline)
                      (min (fc_max_attach_per_loop cfg) (fc_max_attach_per_node_per_loop cfg - tick_attaches v a))), adaptive)
              else (max 0 (min (min memory_slots (overcommit_cpu_slots cfg v d n a t))
                      (min (fc_max_attach_per_loop cfg) (2 - tick_attaches v a))), adaptive))))"

definition fea_effective_worker_limit :: "fea_config \<Rightarrow> fea_view \<Rightarrow> db \<Rightarrow> alloc_row \<Rightarrow> task_row \<Rightarrow> int \<Rightarrow> int \<Rightarrow> int" where
  "fea_effective_worker_limit cfg v d a t current_workers base_limit =
     (let grown = current_workers + fst (fea_dynamic_extra_slots cfg v d a t);
          limit = (if base_limit \<le> 0 then grown else max base_limit grown)
      in case fea_node_cpu_cap_remaining cfg d (fv_leases v) a t of None \<Rightarrow> limit
         | Some cap \<Rightarrow> min limit (current_workers + cap))"

text \<open>\<open>_record_attach_delta\<close>: one more attach on the node this tick; an attach under the adaptive
  relaxation spends its observed budget.\<close>

definition record_attach_delta :: "fea_config \<Rightarrow> alloc_row \<Rightarrow> fea_view \<Rightarrow> fea_view" where
  "record_attach_delta cfg a v =
     (let node = strip (a_node_name a) in
      if node = [] then v
      else (let v1 = v\<lparr>fv_tick_attach_workers_by_node :=
                  AList.update node (dict_get (fv_tick_attach_workers_by_node v) node 0 + 1) (fv_tick_attach_workers_by_node v)\<rparr>;
                now = fv_monotonic v; horizon = now - of_int (fc_adaptive_memory_window_seconds cfg) in
        if node \<in> set (fv_tick_adaptive_memory_nodes v)
        then v1\<lparr>fv_adaptive_memory_attaches := AList.update node
               (dropWhile (\<lambda>s. s < horizon) (dict_get (fv_adaptive_memory_attaches v) node [] @ [now])) (fv_adaptive_memory_attaches v)\<rparr>
        else v1))"

definition note_adaptive :: "bool \<Rightarrow> alloc_row \<Rightarrow> fea_view \<Rightarrow> fea_view" where
  "note_adaptive adaptive a v =
     (if adaptive then v\<lparr>fv_tick_adaptive_memory_nodes := List.insert (strip (a_node_name a)) (fv_tick_adaptive_memory_nodes v)\<rparr> else v)"

section \<open>The physical node shadow\<close>

record node_resources =
  nr_allocation_count :: int
  nr_owned_cpus :: int
  nr_owned_memory_mb :: int
  nr_requested_cpus :: int
  nr_requested_memory_mb :: int

definition fea_node_resource_pressures :: "db \<Rightarrow> string \<Rightarrow> node_resources" where
  "fea_node_resource_pressures d node =
     (let live = filter (\<lambda>a. live_capacity_state a \<and> strip (a_node_name a) = node) (list_allocations_with_live d 500 5000);
          tasks = filter (\<lambda>t. charged_fea_task d t \<and> allocation_of t \<in> a_id ` set live)
            (list_tasks_by_statuses d [Attaching, Running] 5000)
      in \<lparr>nr_allocation_count = int (length live),
          nr_owned_cpus = sum_list (map (\<lambda>a. max 0 (a_total_cpus a)) live),
          nr_owned_memory_mb = sum_list (map (\<lambda>a. max 0 (a_total_memory_mb a)) live),
          nr_requested_cpus = sum_list (map (\<lambda>t. max 0 (t_cpus t)) tasks),
          nr_requested_memory_mb = sum_list (map (\<lambda>t. max 0 (t_memory_mb t)) tasks)\<rparr>)"

definition node_cpu_total :: "fea_view \<Rightarrow> string \<Rightarrow> int" where
  "node_cpu_total v node =
     (if node = [] then 0
      else (case pestat_row v node None of
          Some row \<Rightarrow> if 0 < pn_cpu_total row then pn_cpu_total row
            else (case find (\<lambda>i. ni_node_name i = node) (fv_inventory v) of None \<Rightarrow> 0 | Some i \<Rightarrow> ni_cpus i)
        | None \<Rightarrow> (case find (\<lambda>i. ni_node_name i = node) (fv_inventory v) of None \<Rightarrow> 0 | Some i \<Rightarrow> ni_cpus i)))"

definition node_memory_total :: "fea_view \<Rightarrow> string \<Rightarrow> int" where
  "node_memory_total v node =
     (if node = [] then 0
      else (case pestat_row v node None of
          Some row \<Rightarrow> if 0 < pn_memory_mb row then pn_memory_mb row
            else (case find (\<lambda>i. ni_node_name i = node) (fv_inventory v) of None \<Rightarrow> 0 | Some i \<Rightarrow> ni_memory_mb i)
        | None \<Rightarrow> (case find (\<lambda>i. ni_node_name i = node) (fv_inventory v) of None \<Rightarrow> 0 | Some i \<Rightarrow> ni_memory_mb i)))"

definition reserved_fea_slots_for_node :: "alloc_row list \<Rightarrow> string \<Rightarrow> int" where
  "reserved_fea_slots_for_node allocations node =
     (if node = [] then 0 else sum_list (map a_reserved_fea_slots (filter (\<lambda>a. a_node_name a = node) allocations)))"

definition fea_node_shadow_cap_remaining :: "fea_config \<Rightarrow> fea_view \<Rightarrow> db \<Rightarrow> alloc_row list \<Rightarrow> alloc_row \<Rightarrow> task_row \<Rightarrow> int option" where
  "fea_node_shadow_cap_remaining cfg v d reservations a t =
     (if task_is_fea_infra t \<or> task_uses_reserved_aedt_pool_capacity d a t then None
      else if a_state a = Pending then None
      else (let node = strip (a_node_name a); p = fea_node_resource_pressures d node in
        if node = [] \<or> nr_allocation_count p < 2 then None
        else (let reserved = reserved_fea_slots_for_node reservations node;
                  task_cpus = max 1 (t_cpus t); task_memory = max 1 (t_memory_mb t);
                  req_cpus = nr_requested_cpus p + reserved * task_cpus;
                  req_memory = nr_requested_memory_mb p + reserved * task_memory;
                  physical_cpus = node_cpu_total v node; physical_memory = node_memory_total v node;
                  owned_cpus = (if 0 < physical_cpus then min (max 0 (nr_owned_cpus p)) physical_cpus else max 0 (nr_owned_cpus p));
                  owned_memory = (if 0 < physical_memory then min (max 0 (nr_owned_memory_mb p)) physical_memory else max 0 (nr_owned_memory_mb p));
                  cpu_capacity = truncate_rat (of_int owned_cpus * fc_node_requested_cpu_factor cfg)
              in if cpu_capacity \<le> 0 \<or> owned_memory \<le> 0 then Some 0
                 else Some (min (max 0 ((cpu_capacity - req_cpus) div task_cpus)) (max 0 ((owned_memory - req_memory) div task_memory))))))"

section \<open>Memory and ramp bounds\<close>

text \<open>What the constructor of the scheduler makes of its arguments.\<close>

definition fea_config_wf :: "fea_config \<Rightarrow> bool" where
  "fea_config_wf cfg = (0 \<le> fc_soft_memory_free_percent cfg \<and> 1 \<le> fc_shared_memory_min_estimate_mb cfg
     \<and> 1 \<le> fc_max_attach_per_loop cfg \<and> 1 \<le> fc_max_attach_per_node_per_loop cfg
     \<and> 1 \<le> fc_node_requested_cpu_factor cfg \<and> fc_node_requested_cpu_factor cfg \<le> 2
     \<and> 0 \<le> fc_adaptive_memory_margin_percent cfg)"

lemma truncate_nonneg: "0 \<le> q \<Longrightarrow> 0 \<le> truncate_rat q"
  by (simp add: truncate_rat_def)

lemma estimate_pos: "fea_config_wf cfg \<Longrightarrow> 1 \<le> fea_shared_memory_estimate_mb cfg t"
  by (auto simp: fea_shared_memory_estimate_mb_def fea_config_wf_def Let_def)

lemma soft_floor_nonneg: "fea_config_wf cfg \<Longrightarrow> 0 \<le> soft_floor_mb cfg n"
  unfolding soft_floor_mb_def by (intro truncate_nonneg mult_nonneg_nonneg) (auto simp: fea_config_wf_def)

lemma le_div_mult: "0 < (b::int) \<Longrightarrow> k \<le> a div b \<Longrightarrow> k * b \<le> a"
  using div_mult_le [of b a] mult_right_mono [of k "a div b" b] by linarith

lemma predicted_slots_fit:
  assumes wf: "fea_config_wf cfg" and k: "0 < k" "k \<le> predicted_memory_slots cfg v d n a t"
  shows "soft_floor_mb cfg n + k * fea_shared_memory_estimate_mb cfg t
       + truncate_rat (fo_memory_mb (fea_immature_footprint cfg v d (strip (a_node_name a)))) \<le> pn_free_memory_mb n"
proof -
  let ?e = "fea_shared_memory_estimate_mb cfg t" and ?f = "soft_floor_mb cfg n"
  let ?y = "truncate_rat (fo_memory_mb (fea_immature_footprint cfg v d (strip (a_node_name a))))"
  have e: "1 \<le> ?e" using wf by (rule estimate_pos)
  have "k * ?e \<le> max 0 (max 0 (pn_free_memory_mb n - ?y) - ?f)"
    using k(2) e by (intro le_div_mult) (simp_all add: predicted_memory_slots_def Let_def)
  moreover have "1 * 1 \<le> k * ?e" using k(1) e by (intro mult_mono) simp_all
  ultimately show ?thesis using soft_floor_nonneg [OF wf, of n] by (simp add: max_def split: if_splits)
qed

lemma adaptive_slots_fit:
  assumes "0 < k" and "k \<le> fea_adaptive_memory_slots cfg v node total_mb flr est ticks" and "1 \<le> est"
    and "s \<in> set (dict_get (fv_node_memory_history v) node [])"
  shows "flr + truncate_rat (of_int total_mb * (fc_adaptive_memory_margin_percent cfg / 100)) + k * est \<le> snd s"
proof -
  define h where "h = dict_get (fv_node_memory_history v) node []"
  define m where "m = truncate_rat (of_int total_mb * (fc_adaptive_memory_margin_percent cfg / 100))"
  have s: "s \<in> set h" using assms(4) by (simp only: h_def)
  then obtain f r where fr: "h = f # r" by (cases h) simp_all
  have "k \<le> (Min (set (map snd h)) - flr - m) div max 1 est"
    using assms(1,2) fr unfolding fea_adaptive_memory_slots_def h_def [symmetric] m_def [symmetric]
    by (auto simp: Let_def split: if_splits)
  then have "k * est \<le> Min (set (map snd h)) - flr - m" using assms(3) by (intro le_div_mult) (simp_all add: max_def)
  moreover have "Min (set (map snd h)) \<le> snd s" using s by (intro Min_le) auto
  ultimately show ?thesis by (simp add: m_def)
qed

lemma dynamic_slots_cases:
  assumes "fea_dynamic_extra_slots cfg v d a t = (k, adaptive)" and "0 < k" and "a_state a \<noteq> Pending"
  obtains n where "pestat_node_for_allocation cfg v a = Some n" "fea_allocation_accepts_task cfg v a"
    "snd (memory_slots_for cfg v d n a t) = adaptive" "k \<le> fst (memory_slots_for cfg v d n a t)"
    "k \<le> fc_max_attach_per_loop cfg" "k + tick_attaches v a \<le> max 2 (fc_max_attach_per_node_per_loop cfg)"
    "fea_allocation_baseline_slots_remaining d (fv_leases v) a t \<le> 0 \<Longrightarrow> k + tick_attaches v a \<le> 2"
  using assms unfolding fea_dynamic_extra_slots_def
  by (auto simp: Let_def split: if_splits option.splits prod.splits)

text \<open>C11. Memory safety of FEA admission: a positive attach budget on a running allocation rests on a fresh
  pestat row of its node without memory pressure and within the load target; and either the node's
  free memory, after reserving the growth of its young workers and the estimate of every admitted
  worker, stays above the soft floor, or (adaptive relaxation) every sample of the observed history
  does, with the margin.\<close>

theorem fea_admission_memory_floor:
  assumes "fea_config_wf cfg" and "fea_dynamic_extra_slots cfg v d a t = (k, adaptive)" and "0 < k" and "a_state a \<noteq> Pending"
  shows "\<exists>n. pestat_node_for_allocation cfg v a = Some n \<and> fea_memory_pressure_state cfg v a = PressureOk \<and> fea_node_load_ok cfg v a
    \<and> (if adaptive
       then \<forall>s \<in> set (dict_get (fv_node_memory_history v) (strip (a_node_name a)) []).
         soft_floor_mb cfg n + truncate_rat (of_int (max 1 (pn_memory_mb n)) * (fc_adaptive_memory_margin_percent cfg / 100))
           + k * fea_shared_memory_estimate_mb cfg t \<le> snd s
       else soft_floor_mb cfg n + k * fea_shared_memory_estimate_mb cfg t
         + truncate_rat (fo_memory_mb (fea_immature_footprint cfg v d (strip (a_node_name a)))) \<le> pn_free_memory_mb n)"
proof -
  obtain n where n: "pestat_node_for_allocation cfg v a = Some n" "fea_allocation_accepts_task cfg v a"
    "snd (memory_slots_for cfg v d n a t) = adaptive" "k \<le> fst (memory_slots_for cfg v d n a t)"
    using dynamic_slots_cases [OF assms(2-4)] by metis
  have acc: "fea_memory_pressure_state cfg v a = PressureOk" "fea_node_load_ok cfg v a"
    using n(2) by (auto simp: fea_allocation_accepts_task_def split: if_splits)
  show ?thesis
  proof (cases adaptive)
    case True
    have "k \<le> fea_adaptive_memory_slots cfg v (strip (a_node_name a)) (max 1 (pn_memory_mb n)) (soft_floor_mb cfg n)
        (fea_shared_memory_estimate_mb cfg t) (tick_attaches v a)"
      using n(3,4) True by (auto simp: memory_slots_for_def Let_def split: if_splits)
    from adaptive_slots_fit [OF assms(3) this estimate_pos [OF assms(1)]]
    show ?thesis using n(1) acc True by (intro exI [of _ n] conjI) (simp_all only: if_True, blast)
  next
    case False
    have "k \<le> predicted_memory_slots cfg v d n a t"
      using n(3,4) False by (auto simp: memory_slots_for_def Let_def split: if_splits)
    then show ?thesis using n(1) acc False predicted_slots_fit [OF assms(1,3)] by auto
  qed
qed

text \<open>One attach attempt of a tick: whoever attaches (any task, on any running allocation, whatever the
  database holds by then) goes through the budget.\<close>

fun tick_attach :: "fea_config \<Rightarrow> db \<times> alloc_row \<times> task_row \<Rightarrow> fea_view \<Rightarrow> fea_view" where
  "tick_attach cfg (d, a, t) v =
     (let (k, adaptive) = fea_dynamic_extra_slots cfg v d a t in
      if 0 < k \<and> a_state a \<noteq> Pending then record_attach_delta cfg a (note_adaptive adaptive a v) else v)"

definition node_attaches :: "fea_view \<Rightarrow> string \<Rightarrow> int" where
  "node_attaches v node = dict_get (fv_tick_attach_workers_by_node v) node 0"

lemma record_attach_count:
  "node_attaches (record_attach_delta cfg a v) node =
     node_attaches v node + (if strip (a_node_name a) = node \<and> node \<noteq> [] then 1 else 0)"
  by (auto simp: record_attach_delta_def node_attaches_def update_conv' Let_def)

lemma note_adaptive_count [simp]: "node_attaches (note_adaptive b a v) node = node_attaches v node"
  by (simp add: note_adaptive_def node_attaches_def)

lemma tick_attach_count:
  "node_attaches (tick_attach cfg (d, a, t) v) node = node_attaches v node
   \<or> (node_attaches (tick_attach cfg (d, a, t) v) node = node_attaches v node + 1
      \<and> node_attaches v node + 1 \<le> max 2 (fc_max_attach_per_node_per_loop cfg)
      \<and> (fea_allocation_baseline_slots_remaining d (fv_leases v) a t \<le> 0 \<longrightarrow> node_attaches v node + 1 \<le> 2))"
proof -
  obtain k adaptive where dyn: "fea_dynamic_extra_slots cfg v d a t = (k, adaptive)" by (cases "fea_dynamic_extra_slots cfg v d a t")
  show ?thesis
  proof (cases "0 < k \<and> a_state a \<noteq> Pending \<and> strip (a_node_name a) = node \<and> node \<noteq> []")
    case True
    then have "tick_attaches v a = node_attaches v node" by (simp add: tick_attaches_def node_attaches_def)
    moreover have "k + tick_attaches v a \<le> max 2 (fc_max_attach_per_node_per_loop cfg)"
      "fea_allocation_baseline_slots_remaining d (fv_leases v) a t \<le> 0 \<longrightarrow> k + tick_attaches v a \<le> 2"
      using dynamic_slots_cases [OF dyn] True by metis+
    ultimately show ?thesis using True dyn by (auto simp: record_attach_count)
  qed (auto simp: dyn record_attach_count)
qed


section \<open>A concrete node\<close>

definition demo_fea_config :: fea_config where
  "demo_fea_config = \<lparr>fc_poll_interval_seconds = 30, fc_cluster_refresh_interval_seconds = 60, fc_soft_memory_free_percent = 20,
     fc_hard_memory_free_percent = 10, fc_load_target = 1, fc_max_attach_per_loop = 8, fc_max_attach_per_node_per_loop = 4,
     fc_node_requested_cpu_factor = 2, fc_footprint_maturity_seconds = 3600, fc_cpu_footprint_maturity_seconds = 300,
     fc_shared_memory_estimate_fraction = 1 / 2, fc_shared_memory_min_estimate_mb = 1024, fc_adaptive_memory_relax_enabled = False,
     fc_adaptive_memory_window_seconds = 3600, fc_adaptive_memory_min_coverage_seconds = 600, fc_adaptive_memory_margin_percent = 5,
     fc_adaptive_memory_max_attach_per_tick = 1, fc_overload_scale_out_load_factor = 2, fc_overload_scale_out_seconds = 300,
     fc_alloc_util_enabled = False, fc_alloc_util_target = 1, fc_alloc_util_sample_interval_seconds = 60\<rparr>"

definition demo_view :: fea_view where
  "demo_view = \<lparr>fv_now = 10000000, fv_monotonic = 10, fv_pestat = [(\<lparr>pn_hostname = ''n1'', pn_partition = ''cpu'', pn_state = ''mix'',
       pn_cpu_used = 8, pn_cpu_total = 16, pn_cpu_load = 2, pn_memory_mb = 64000, pn_free_memory_mb = 30000\<rparr>, At 5000000)],
     fv_inventory = [], fv_leases = None, fv_last_tick_duration = None, fv_tick_attach_workers_by_node = [],
     fv_tick_adaptive_memory_nodes = [], fv_node_memory_history = [], fv_adaptive_memory_attaches = [], fv_alloc_cpu_util = [],
     fv_overload_since_by_node = []\<rparr>"

definition demo_pool_alloc :: alloc_row where
  "demo_pool_alloc = (alloc_row_of 0 7 ''acct'' ''cpu'' ''n1'' 8 65536 0 [] ''cpu'' False [] [])
     \<lparr>a_state := Warm, a_slurm_job_id := Some ''4711''\<rparr>"

definition demo_fea_db :: db where
  "demo_fea_db = empty_db\<lparr>db_allocations := [demo_pool_alloc]\<rparr>"

definition demo_fea_task :: "int \<Rightarrow> task_row" where
  "demo_fea_task i = (plain_task i ''sim'')\<lparr>t_scheduling_profile := ''fea_bursty'', t_cpus := 4, t_memory_mb := 8000\<rparr>"

text \<open>30000 MB are free, the soft floor is 12800 MB, a worker is estimated at 4000 MB: four fit in
  memory, two in the allocation's own CPUs.\<close>

theorem fea_admission_memory_floor_witness:
  "fea_dynamic_extra_slots demo_fea_config demo_view demo_fea_db demo_pool_alloc (demo_fea_task 1) = (2, False)
   \<and> (\<exists>n. pestat_node_for_allocation demo_fea_config demo_view demo_pool_alloc = Some n
        \<and> soft_floor_mb demo_fea_config n + 2 * fea_shared_memory_estimate_mb demo_fea_config (demo_fea_task 1)
          + truncate_rat (fo_memory_mb (fea_immature_footprint demo_fea_config demo_view demo_fea_db ''n1'')) \<le> pn_free_memory_mb n)"
proof -
  have wf: "fea_config_wf demo_fea_config" by code_simp
  have run: "fea_dynamic_extra_slots demo_fea_config demo_view demo_fea_db demo_pool_alloc (demo_fea_task 1) = (2, False)" by code_simp
  have st: "a_state demo_pool_alloc \<noteq> Pending" "strip (a_node_name demo_pool_alloc) = ''n1''" by code_simp+
  show ?thesis using fea_admission_memory_floor [OF wf run _ st(1)] run by (auto simp: st(2))
qed


end
