(* ===== verification/Placement.thy ===== *)
theory Placement
  imports Fea_Admission Attach
begin

text \<open>
  Placement in \<open>scheduler.py\<close>: which allocation a queued task may run on
  (\<open>allocation_matches_task_constraints\<close>, \<open>allocation_can_run_task\<close>), how many such tasks fit
  (\<open>fit_slots_for_allocation\<close>), which allocation is best (\<open>best_allocation_for_task\<close>), and the final
  check under the assignment lock that ends in the claim (\<open>reserve_task_on_allocation\<close>).

  \<open>place_env\<close> holds the configured accounts with their overlays, the storage readings of each
  account, and the verdict of the AEDT pool on a pooled task (\<open>pe_backend_blocked\<close>), which the pool
  service registers as a callback.
\<close>

section \<open>Accounts and storage\<close>

record account =
  ac_name :: string
  ac_capabilities :: "string list"
  ac_env_profiles :: "string list"
  ac_storage_quota_gb :: "rat option"

record env_overlay =
  ov_account :: string
  ov_capability :: string
  ov_env_profile :: string
  ov_env_setup :: string

datatype quota_probe =
    ProbeUnavailable
  | ProbeError string
  | ProbeGpfs "rat option option"
  | ProbeOther

record storage_reading =
  sr_probe :: quota_probe
  sr_used_gb :: "rat option"
  sr_total_projects :: int

record place_env =
  pe_accounts :: "account list"
  pe_overlays :: "env_overlay list"
  pe_storage :: "string \<Rightarrow> storage_reading"
  pe_storage_guard_min_free_gb :: rat
  pe_storage_per_project_gb :: rat
  pe_backend_blocked :: "task_row \<Rightarrow> bool"

definition account_by_name :: "place_env \<Rightarrow> string \<Rightarrow> account option" where
  "account_by_name env name = find (\<lambda>ac. ac_name ac = name) (pe_accounts env)"

definition account_supports :: "place_env \<Rightarrow> account option \<Rightarrow> string \<Rightarrow> string \<Rightarrow> bool" where
  "account_supports env account required_capability env_profile =
     (case account of None \<Rightarrow> False
      | Some ac \<Rightarrow>
          (let capability = strip required_capability; profile = strip env_profile;
               overlays = filter (\<lambda>ov. ov_account ov = ac_name ac) (pe_overlays env) in
           \<not> (capability \<noteq> [] \<and> capability \<notin> set (ac_capabilities ac) \<and> capability \<notin> set (map ov_capability overlays))
           \<and> \<not> (profile \<noteq> [] \<and> profile \<notin> set (ac_env_profiles ac) \<and> profile \<notin> set (map ov_env_profile overlays))))"

definition apply_dynamic_env_profile :: "place_env \<Rightarrow> account \<Rightarrow> task_row \<Rightarrow> task_row" where
  "apply_dynamic_env_profile env ac t =
     (let profile = strip (t_env_profile t) in
      if profile = [] \<or> profile \<in> set (ac_env_profiles ac) then t
      else (case find (\<lambda>ov. ov_account ov = ac_name ac \<and> ov_env_profile ov = profile) (pe_overlays env) of
          None \<Rightarrow> t
        | Some ov \<Rightarrow> (let setup = strip (ov_env_setup ov); existing = strip (t_env_setup t) in
            if setup = [] then t
            else t\<lparr>t_env_setup := (if existing = [] then setup else setup @ CHR 0x0A # existing)\<rparr>)))"

text \<open>\<open>_aedt_storage_growth_reservation\<close> and \<open>_storage_headroom_blocked\<close>: pooled projects that may still
  grow are charged against the observed free space.\<close>

definition storage_headroom_blocked :: "place_env \<Rightarrow> string \<Rightarrow> rat \<Rightarrow> int \<Rightarrow> bool" where
  "storage_headroom_blocked env name free_gb additional =
     (let per_project = pe_storage_per_project_gb env;
          projects = max 0 (sr_total_projects (pe_storage env name)) + max 0 additional;
          reserved_gb = (if per_project \<le> 0 then 0 else of_int projects * per_project)
      in \<not> pe_storage_guard_min_free_gb env \<le> free_gb - reserved_gb)"

definition used_storage_status :: "place_env \<Rightarrow> account \<Rightarrow> int \<Rightarrow> bool \<times> bool" where
  "used_storage_status env ac additional =
     (case (ac_storage_quota_gb ac, sr_used_gb (pe_storage env (ac_name ac))) of
        (Some quota, Some used) \<Rightarrow>
          if quota = 0 then (False, False)
          else (let b = storage_headroom_blocked env (ac_name ac) (quota - used) additional in (b, b))
      | _ \<Rightarrow> (False, False))"

definition account_storage_guard_status :: "place_env \<Rightarrow> account \<Rightarrow> bool \<Rightarrow> int \<Rightarrow> bool \<times> bool" where
  "account_storage_guard_status env ac for_fea additional =
     (if pe_storage_guard_min_free_gb env \<le> 0 then (False, False)
      else if \<not> for_fea then used_storage_status env ac additional
      else (case sr_probe (pe_storage env (ac_name ac)) of
          ProbeUnavailable \<Rightarrow> (True, False)
        | ProbeError e \<Rightarrow> if e \<noteq> [] then (True, False) else used_storage_status env ac additional
        | ProbeGpfs None \<Rightarrow> (True, False)
        | ProbeGpfs (Some None) \<Rightarrow> (False, False)
        | ProbeGpfs (Some (Some free_gb)) \<Rightarrow>
            (let b = storage_headroom_blocked env (ac_name ac) free_gb additional in (b, b))
        | ProbeOther \<Rightarrow> used_storage_status env ac additional))"

definition account_storage_blocked :: "place_env \<Rightarrow> account \<Rightarrow> bool \<Rightarrow> int \<Rightarrow> bool" where
  "account_storage_blocked env ac for_fea additional = fst (account_storage_guard_status env ac for_fea additional)"

section \<open>Live tasks of an allocation\<close>

definition live_tasks :: "db \<Rightarrow> task_row list" where
  "live_tasks d = list_tasks_by_statuses d [Attaching, Running] 5000"

definition active_task_allocation_sets :: "db \<Rightarrow> int set \<times> int set" where
  "active_task_allocation_sets d =
     (let ts = filter (\<lambda>t. allocation_of t \<noteq> 0) (live_tasks d)
      in (set (map allocation_of ts), set (map allocation_of (filter t_exclusive_node ts))))"

definition active_profile_allocation_sets :: "db \<Rightarrow> int set \<times> int set" where
  "active_profile_allocation_sets d =
     (let ts = filter (\<lambda>t. 0 < allocation_of t) (live_tasks d)
      in (set (map allocation_of (filter (\<lambda>t. task_allocation_profile t = ''fea'') ts)),
          set (map allocation_of (filter (\<lambda>t. task_allocation_profile t \<noteq> ''fea'') ts))))"

definition allocation_profile_conflicts :: "db \<Rightarrow> alloc_row \<Rightarrow> task_row \<Rightarrow> bool" where
  "allocation_profile_conflicts d a t =
     (let profile = task_allocation_profile t; (fea, standard) = active_profile_allocation_sets d in
      if a_reserved_scheduling_profile a \<noteq> [] \<and> a_reserved_scheduling_profile a \<noteq> profile then True
      else if allocation_demand_profile a \<noteq> [] \<and> allocation_demand_profile a \<noteq> profile then True
      else if profile = ''fea'' then a_id a \<in> standard else a_id a \<in> fea)"

definition allocation_worker_count :: "db \<Rightarrow> int \<Rightarrow> int" where
  "allocation_worker_count d aid = int (length (filter (\<lambda>t. allocation_of t = aid) (live_tasks d)))"

definition node_fea_worker_count :: "db \<Rightarrow> lease_row list option \<Rightarrow> string \<Rightarrow> int" where
  "node_fea_worker_count d leases node =
     int (length (filter (\<lambda>t. charged_fea_task d t \<and> node_of_allocation d (allocation_of t) = node) (live_tasks d)))
     + sum_list (map (\<lambda>(aid, u). if node_of_allocation d aid = node then lu_workers u else 0)
         (aedt_project_pressure_by_allocation d leases))"

definition annotate_fea_node_worker_counts :: "db \<Rightarrow> lease_row list option \<Rightarrow> alloc_row \<Rightarrow> alloc_row" where
  "annotate_fea_node_worker_counts d leases a =
     (if a_node_name a = [] then a else a\<lparr>a_node_worker_count := Some (node_fea_worker_count d leases (a_node_name a))\<rparr>)"

definition allocation_worker_count_for_task :: "db \<Rightarrow> lease_row list option \<Rightarrow> alloc_row \<Rightarrow> task_row \<Rightarrow> int" where
  "allocation_worker_count_for_task d leases a t =
     (if task_is_fea_bursty t \<and> a_node_name a \<noteq> []
      then (case a_node_worker_count a of Some n \<Rightarrow> n | None \<Rightarrow> node_fea_worker_count d leases (a_node_name a))
      else (case a_allocation_worker_count a of Some n \<Rightarrow> n | None \<Rightarrow> allocation_worker_count d (a_id a)))"

section \<open>Same-node requests\<close>

record same_node_target =
  sn_task_id :: int
  sn_allocation_id :: int
  sn_node_name :: string

definition same_node_target_for_task :: "db \<Rightarrow> task_row \<Rightarrow> same_node_target option" where
  "same_node_target_for_task d t =
     (let ref = same_node_as_task_id t in
      if ref \<le> 0 then None
      else (case get_task d ref of None \<Rightarrow> None
        | Some r \<Rightarrow>
            if t_status r \<notin> {Attaching, Running} \<or> allocation_of r \<le> 0 then None
            else (case get_allocation d (allocation_of r) of None \<Rightarrow> None
              | Some a \<Rightarrow>
                  if a_state a \<in> {Closed, AFailed} \<or> strip (a_node_name a) = [] then None
                  else Some \<lparr>sn_task_id = ref, sn_allocation_id = a_id a, sn_node_name = strip (a_node_name a)\<rparr>)))"

datatype wait_reason = NotFound int | NotRunning int | WaitingToAttach int | AllocationNotFound int int
  | AllocationEnded int int allocation_status | WaitingForNodeName int

definition same_node_wait_reason :: "db \<Rightarrow> task_row \<Rightarrow> wait_reason option" where
  "same_node_wait_reason d t =
     (let ref = same_node_as_task_id t in
      if ref \<le> 0 then None
      else (case get_task d ref of None \<Rightarrow> Some (NotFound ref)
        | Some r \<Rightarrow>
            if t_status r \<notin> {Attaching, Running} then Some (NotRunning ref)
            else if allocation_of r \<le> 0 then Some (WaitingToAttach ref)
            else (case get_allocation d (allocation_of r) of None \<Rightarrow> Some (AllocationNotFound ref (allocation_of r))
              | Some a \<Rightarrow>
                  if a_state a \<in> {Closed, AFailed} then Some (AllocationEnded ref (allocation_of r) (a_state a))
                  else if strip (a_node_name a) = [] then Some (WaitingForNodeName ref) else None)))"

section \<open>Fit\<close>

definition allocation_model_score :: "alloc_row \<Rightarrow> int" where
  "allocation_model_score a = gpu_priority (normalize_gpu_model (a_gpu_model a))"

definition borrowable_cpus :: "sched_config \<Rightarrow> alloc_row \<Rightarrow> int" where
  "borrowable_cpus cfg a =
     (if 0 < a_total_gpus a \<and> a_free_gpus a = a_total_gpus a then a_free_cpus a
      else max 0 (a_free_cpus a - a_free_gpus a * gpu_prewarm_cpu_reserve_per_free_gpu cfg))"

definition allocation_accepts_new_tasks :: "sched_config \<Rightarrow> int \<Rightarrow> alloc_row \<Rightarrow> bool" where
  "allocation_accepts_new_tasks cfg now a =
     (if allocation_drain_after_seconds cfg \<le> 0 then True
      else (let stop_before = max 0 (allocation_attach_stop_before_drain_seconds cfg);
                cutoff = max 0 (allocation_drain_after_seconds cfg - stop_before)
            in age_seconds now a < of_int cutoff))"

definition allocation_matches_task_constraints ::
  "fea_config \<Rightarrow> place_env \<Rightarrow> fea_view \<Rightarrow> db \<Rightarrow> alloc_row \<Rightarrow> task_row \<Rightarrow> bool \<Rightarrow> int set \<Rightarrow> int set \<Rightarrow> bool" where
  "allocation_matches_task_constraints fcfg env v d a t include_pending active active_exclusive =
     (if (if allocation_is_dedicated_aedt_pool a then \<not> task_can_share_dedicated_aedt_pool d a t
          else a_exclusive_node a \<noteq> t_exclusive_node t) then False
      else if task_requested_allocation_id t \<noteq> 0 \<and> a_id a \<noteq> task_requested_allocation_id t then False
      else if requested_accounts (task_requested_account_name t) \<noteq> []
          \<and> a_account_name a \<notin> set (requested_accounts (task_requested_account_name t)) then False
      else if same_node_as_task_id t \<noteq> 0 \<and> (case same_node_target_for_task d t of None \<Rightarrow> True
          | Some target \<Rightarrow> a_id a \<noteq> sn_allocation_id target) then False
      else if \<not> account_supports env (account_by_name env (a_account_name a)) (t_required_capability t) (t_env_profile t) then False
      else if task_is_fea_bursty t \<and> \<not> task_requires_gpu t \<and> allocation_has_gpu_pool a then False
      else if allocation_profile_conflicts d a t then False
      else if task_is_fea_bursty t \<and> (case account_by_name env (a_account_name a) of None \<Rightarrow> False
          | Some ac \<Rightarrow> account_storage_blocked env ac True 0) then False
      else if 0 < t_max_workers_per_node t \<and> \<not> include_pending
          \<and> (let workers = allocation_worker_count_for_task d (fv_leases v) a t in
             if task_is_fea_bursty t
             then fea_effective_worker_limit fcfg v d a t workers (t_max_workers_per_node t) \<le> workers
             else t_max_workers_per_node t \<le> workers) then False
      else if t_exclusive_node t \<and> ((\<not> include_pending \<and> a_id a \<in> active) \<or> a_free_cpus a \<noteq> a_total_cpus a
          \<or> a_free_memory_mb a \<noteq> a_total_memory_mb a \<or> a_free_gpus a \<noteq> a_total_gpus a) then False
      else if \<not> t_exclusive_node t \<and> \<not> include_pending \<and> a_id a \<in> active_exclusive then False
      else if (if t_partition t = [] then ''auto'' else t_partition t) \<noteq> ''auto''
          \<and> \<not> partition_spec_allows (t_partition t) (a_partition a) then False
      else if t_node_name t \<noteq> [] \<and> a_node_name a \<noteq> t_node_name t then False
      else True)"

definition allocation_gpu_matches_task :: "alloc_row \<Rightarrow> task_row \<Rightarrow> bool" where
  "allocation_gpu_matches_task a t =
     (task_requires_gpu t \<longrightarrow>
        (gpu_model_candidates (t_gpu_model t) = [] \<or> normalize_gpu_model (a_gpu_model a) \<in> set (gpu_model_candidates (t_gpu_model t)))
        \<and> t_gpus t \<le> a_free_gpus a)"

definition task_can_overlap_same_node_allocation :: "db \<Rightarrow> alloc_row \<Rightarrow> task_row \<Rightarrow> bool \<Rightarrow> bool" where
  "task_can_overlap_same_node_allocation d a t include_pending =
     (if include_pending \<or> same_node_as_task_id t = 0 \<or> task_requires_gpu t \<or> t_exclusive_node t \<or> 4 < t_cpus t then False
      else (case same_node_target_for_task d t of None \<Rightarrow> False | Some target \<Rightarrow> a_id a = sn_allocation_id target))"

definition allocation_can_run_task ::
  "sched_config \<Rightarrow> fea_config \<Rightarrow> place_env \<Rightarrow> fea_view \<Rightarrow> db \<Rightarrow> alloc_row \<Rightarrow> task_row \<Rightarrow> bool \<Rightarrow> int set \<Rightarrow> int set \<Rightarrow> bool" where
  "allocation_can_run_task cfg fcfg env v d a t include_pending active active_exclusive =
     (if \<not> allocation_matches_task_constraints fcfg env v d a t include_pending active active_exclusive then False
      else if task_is_fea_bursty t
      then (if \<not> allocation_gpu_matches_task a t then False
            else if task_is_fea_infra t then True
            else if task_uses_reserved_aedt_pool_capacity d a t then True
            else if include_pending then True
            else fea_allocation_accepts_task fcfg v a)
      else if task_can_overlap_same_node_allocation d a t include_pending then True
      else if a_free_memory_mb a < t_memory_mb t then False
      else if task_requires_gpu t then allocation_gpu_matches_task a t \<and> t_cpus t \<le> a_free_cpus a
      else if 0 < a_total_gpus a then t_cpus t \<le> borrowable_cpus cfg a
      else t_cpus t \<le> a_free_cpus a)"

definition fea_fit_slots :: "fea_config \<Rightarrow> fea_view \<Rightarrow> db \<Rightarrow> alloc_row list \<Rightarrow> alloc_row \<Rightarrow> task_row \<Rightarrow> int" where
  "fea_fit_slots fcfg v d reservations a t =
     (if task_is_fea_infra t then 1
      else if task_uses_reserved_aedt_pool_capacity d a t then 1
      else if a_state a \<noteq> Pending \<and> \<not> fea_allocation_accepts_task fcfg v a then 0
      else (let s0 = fc_max_attach_per_loop fcfg;
                s1 = (if a_state a = Pending \<and> resource_pool_or_cpu a = ''cpu'' \<and> 0 < fc_node_requested_cpu_factor fcfg
                  then min s0 (truncate_rat (of_int (a_total_cpus a) * min 1 (fc_node_requested_cpu_factor fcfg))
                         div max 1 (t_cpus t))
                  else s0);
                workers = allocation_worker_count_for_task d (fv_leases v) a t;
                s2 = (if a_node_name a \<noteq> []
                  then min (min s1 (max 0 (fea_effective_worker_limit fcfg v d a t workers (t_max_workers_per_node t) - workers
                         - reserved_fea_slots_for_node reservations (a_node_name a))))
                       (fst (fea_dynamic_extra_slots fcfg v d a t))
                  else if 0 < t_max_workers_per_node t
                  then min s1 (max 0 (t_max_workers_per_node t - allocation_worker_count d (a_id a)))
                  else s1);
                reserved = (if a_node_name a \<noteq> [] then 0 else a_reserved_fea_slots a);
                s3 = (if task_requires_gpu t then min s2 (a_free_gpus a div max 1 (t_gpus t)) else s2);
                s4 = (if task_aedt_backend t = Pooled
                  then min s3 (max 0 (a_total_cpus a div aedt_pool_project_cpus d - active_pooled_aedt_tasks d (a_id a)
                         - a_reserved_pooled_slots a))
                  else s3);
                s5 = (case fea_node_shadow_cap_remaining fcfg v d reservations a t of None \<Rightarrow> s4 | Some k \<Rightarrow> min s4 k)
            in max 0 (s5 - reserved)))"

definition standard_fit_slots :: "sched_config \<Rightarrow> db \<Rightarrow> alloc_row \<Rightarrow> task_row \<Rightarrow> int" where
  "standard_fit_slots cfg d a t =
     (let memory_slots = a_free_memory_mb a div max 1 (t_memory_mb t) in
      if task_requires_gpu t
      then (let gpu_slots = a_free_gpus a div max 1 (t_gpus t);
                cpu_slots = (if t_cpus t \<le> 4 \<and> 0 < gpu_slots then gpu_slots
                  else a_free_cpus a div max 1 (t_cpus t))
            in max 0 (min (min memory_slots gpu_slots) cpu_slots))
      else if task_can_overlap_same_node_allocation d a t (a_state a = Pending) then 1
      else max 0 (min memory_slots (borrowable_cpus cfg a div max 1 (t_cpus t))))"

definition fit_slots_for_allocation :: "sched_config \<Rightarrow> fea_config \<Rightarrow> fea_view \<Rightarrow> db \<Rightarrow> alloc_row list \<Rightarrow> alloc_row \<Rightarrow> task_row \<Rightarrow> int" where
  "fit_slots_for_allocation cfg fcfg v d reservations a t =
     (if task_is_fea_bursty t then fea_fit_slots fcfg v d reservations a t else standard_fit_slots cfg d a t)"

section \<open>The best allocation\<close>

text \<open>The candidates of the selection loop with their fit (1 for standard tasks, whose fit is not
  consulted here).\<close>

definition candidate_fit ::
  "sched_config \<Rightarrow> fea_config \<Rightarrow> place_env \<Rightarrow> fea_view \<Rightarrow> db \<Rightarrow> task_row \<Rightarrow> alloc_row \<Rightarrow> (alloc_row \<times> int) option" where
  "candidate_fit cfg fcfg env v d t a0 =
     (let is_fea = task_is_fea_bursty t;
          a = (if is_fea then annotate_fea_node_worker_counts d (fv_leases v) a0 else a0);
          (active, active_exclusive) = active_task_allocation_sets d in
      if a_state a \<notin> {Warm, Active} then None
      else if \<not> allocation_accepts_new_tasks cfg (fv_now v) a then None
      else if opt_text (a_slurm_job_id a) = [] then None
      else if is_fea \<and> (case account_by_name env (a_account_name a) of None \<Rightarrow> True
          | Some ac \<Rightarrow> account_storage_blocked env ac True 0) then None
      else if \<not> allocation_can_run_task cfg fcfg env v d a t False active active_exclusive then None
      else if \<not> is_fea then Some (a, 1)
      else if (case fea_node_cpu_cap_remaining fcfg d (fv_leases v) a t of None \<Rightarrow> False | Some k \<Rightarrow> k \<le> 0) then None
      else (let fit = fit_slots_for_allocation cfg fcfg v d [] a t in if fit \<le> 0 then None else Some (a, fit)))"

definition placement_candidates ::
  "sched_config \<Rightarrow> fea_config \<Rightarrow> place_env \<Rightarrow> fea_view \<Rightarrow> db \<Rightarrow> task_row \<Rightarrow> (alloc_row \<times> int) list" where
  "placement_candidates cfg fcfg env v d t =
     (let all = List.map_filter (candidate_fit cfg fcfg env v d t) (list_allocations_with_live d 500 5000);
          gpu = filter (\<lambda>c. task_requires_gpu t \<or> 0 < a_total_gpus (fst c)) all;
          cpu = filter (\<lambda>c. \<not> (task_requires_gpu t \<or> 0 < a_total_gpus (fst c))) all
      in if task_requires_gpu t then gpu else if cpu \<noteq> [] then cpu else gpu)"

text \<open>\<open>electronics_desktop\<close> headroom of the license admission, if it is enabled and known.\<close>

definition fea_license_admit_headroom :: "license_config \<Rightarrow> fea_view \<Rightarrow> license_state \<Rightarrow> int option" where
  "fea_license_admit_headroom lcfg v lst =
     (if \<not> license_admission_enabled lcfg then None
      else map_option fs_admit_headroom (find (\<lambda>f. fs_feature f = ''electronics_desktop'')
        (dg_features (license_admission_diagnostics lcfg (fv_monotonic v) (fv_last_tick_duration v) lst [] False))))"

definition free_percent_or_zero :: "fea_config \<Rightarrow> fea_view \<Rightarrow> alloc_row \<Rightarrow> rat" where
  "free_percent_or_zero fcfg v a = (case fea_memory_free_percent fcfg v a of None \<Rightarrow> 0 | Some p \<Rightarrow> p)"

definition baseline_key :: "fea_config \<Rightarrow> fea_view \<Rightarrow> db \<Rightarrow> rat \<Rightarrow> alloc_row \<times> int \<Rightarrow> rat \<times> int \<times> rat \<times> int" where
  "baseline_key fcfg v d direction c =
     (direction * fea_baseline_ratio d (fv_leases v) (fst c), - snd c, - free_percent_or_zero fcfg v (fst c), - a_free_memory_mb (fst c))"

definition spread_key :: "fea_config \<Rightarrow> fea_view \<Rightarrow> db \<Rightarrow> task_row \<Rightarrow> alloc_row \<times> int \<Rightarrow> int \<times> int \<times> rat \<times> int" where
  "spread_key fcfg v d t c =
     (- allocation_worker_count_for_task d (fv_leases v) (fst c) t, snd c, free_percent_or_zero fcfg v (fst c), a_free_memory_mb (fst c))"

definition standard_key :: "sched_config \<Rightarrow> task_row \<Rightarrow> alloc_row \<times> int \<Rightarrow> int \<times> int \<times> int \<times> int" where
  "standard_key cfg t c =
     (allocation_model_score (fst c), a_free_gpus (fst c),
      if task_requires_gpu t then a_free_cpus (fst c) else borrowable_cpus cfg (fst c), a_free_memory_mb (fst c))"

definition best_allocation_for_effective_task ::
  "sched_config \<Rightarrow> fea_config \<Rightarrow> license_config \<Rightarrow> place_env \<Rightarrow> fea_view \<Rightarrow> sched_state \<Rightarrow> task_row \<Rightarrow> bool \<Rightarrow> alloc_row option" where
  "best_allocation_for_effective_task cfg fcfg lcfg env v s t fea_baseline_only =
     (let d = ss_db s; candidates = placement_candidates cfg fcfg env v d t in
      if candidates = [] then None
      else if task_is_fea_bursty t
      then (let under = filter (\<lambda>c. fea_baseline_ratio d (fv_leases v) (fst c) < 1) candidates in
            if under \<noteq> []
            then (let fill_first = (case fea_license_admit_headroom lcfg v (ss_license s) of None \<Rightarrow> False
                        | Some h \<Rightarrow> h < int (length under));
                      direction = (if fill_first then - 1 else 1)
                  in map_option fst (py_min (baseline_key fcfg v d direction) under))
            else if fea_baseline_only then None
            else map_option fst (py_max (spread_key fcfg v d t) candidates))
      else map_option fst (py_max (standard_key cfg t) candidates))"

definition best_allocation_for_task ::
  "sched_config \<Rightarrow> fea_config \<Rightarrow> license_config \<Rightarrow> place_env \<Rightarrow> fea_view \<Rightarrow> sched_state \<Rightarrow> task_row \<Rightarrow> bool \<Rightarrow> alloc_row option" where
  "best_allocation_for_task cfg fcfg lcfg env v s t fea_baseline_only =
     (case best_allocation_for_effective_task cfg fcfg lcfg env v s t fea_baseline_only of
        Some a \<Rightarrow> Some a
      | None \<Rightarrow> if \<not> task_can_relax_preferred_node cfg t then None
          else best_allocation_for_effective_task cfg fcfg lcfg env v s (relaxed_preferred_node_task cfg t) fea_baseline_only)"

section \<open>The claim under the assignment lock\<close>

definition validation_task :: "sched_config \<Rightarrow> alloc_row \<Rightarrow> task_row \<Rightarrow> task_row" where
  "validation_task cfg a t =
     (if task_can_relax_preferred_node cfg t \<and> a_node_name a \<noteq> t_node_name t then relaxed_preferred_node_task cfg t else t)"

definition reserve_guards ::
  "sched_config \<Rightarrow> fea_config \<Rightarrow> place_env \<Rightarrow> fea_view \<Rightarrow> db \<Rightarrow> account \<Rightarrow> alloc_row \<Rightarrow> task_row \<Rightarrow> bool" where
  "reserve_guards cfg fcfg env v d ac a t =
     (if pe_backend_blocked env t then False
      else if standalone_aedt_running_cap_reached cfg d t then False
      else if allocation_profile_conflicts d a t then False
      else if a_state a \<notin> {Warm, Active} then False
      else if opt_text (a_slurm_job_id a) = [] \<or> \<not> allocation_accepts_new_tasks cfg (fv_now v) a then False
      else (let (active, active_exclusive) = active_task_allocation_sets d in
        if \<not> allocation_can_run_task cfg fcfg env v d a (validation_task cfg a t) False active active_exclusive then False
        else if task_is_fea_bursty t
          \<and> fit_slots_for_allocation cfg fcfg v d [] (annotate_fea_node_worker_counts d (fv_leases v) a) t \<le> 0 then False
        else if task_is_fea_bursty t
          \<and> account_storage_blocked env ac True (if task_is_fea_infra t then 0 else 1) then False
        else True))"

text \<open>Whether the fit of the claim rests on the adaptive memory relaxation, which the budget notes on the
  node (marks left by the evaluation of other candidates are part of the view).\<close>

definition relaxed_memory_used :: "fea_config \<Rightarrow> fea_view \<Rightarrow> db \<Rightarrow> alloc_row \<Rightarrow> task_row \<Rightarrow> bool" where
  "relaxed_memory_used fcfg v d a t =
     (task_is_fea_bursty t \<and> \<not> task_is_fea_infra t \<and> \<not> task_uses_reserved_aedt_pool_capacity d a t
      \<and> a_node_name a \<noteq> [] \<and> snd (fea_dynamic_extra_slots fcfg v d a t))"

text \<open>The rows are read again under the lock; a lost claim or a failed guard changes nothing but the
  memo of the last license block. The account is the configured one of the allocation.\<close>

definition reserve_task_on_allocation ::
  "sched_config \<Rightarrow> fea_config \<Rightarrow> license_config \<Rightarrow> place_env \<Rightarrow> int \<Rightarrow> int \<Rightarrow> string \<Rightarrow> fea_view \<times> attach_world \<Rightarrow> fea_view \<times> attach_world" where
  "reserve_task_on_allocation cfg fcfg lcfg env tid aid token vw =
     (let (v, w) = vw; d = world_db w in
      case (get_task d tid, get_allocation d aid) of
        (Some t, Some a) \<Rightarrow>
          (case account_by_name env (a_account_name a) of
             None \<Rightarrow> (v, w)
           | Some ac \<Rightarrow>
               if t_status t \<noteq> Queued \<or> \<not> reserve_guards cfg fcfg env v d ac a t then (v, w)
               else (let (admitted, lst) = license_task_admitted lcfg (fv_monotonic v) (fv_last_tick_duration v) t (ss_license (aw_state w));
                         w1 = on_state (\<lambda>s. s\<lparr>ss_license := lst\<rparr>) w in
                 if \<not> fst admitted then (v, w1)
                 else (let w2 = claim_task lcfg (fv_now v) (apply_dynamic_env_profile env ac t) a token w1 in
                   if length (aw_threads w2) = length (aw_threads w1) then (v, w2)
                   else (record_attach_delta fcfg a (note_adaptive (relaxed_memory_used fcfg v d a t) a v), w2))))
      | _ \<Rightarrow> (v, w))"


section \<open>A placement honours the request\<close>

definition placement_honours :: "sched_config \<Rightarrow> db \<Rightarrow> alloc_row \<Rightarrow> task_row \<Rightarrow> bool" where
  "placement_honours cfg d a t =
     ((task_requested_allocation_id t \<noteq> 0 \<longrightarrow> a_id a = task_requested_allocation_id t)
      \<and> (requested_accounts (task_requested_account_name t) \<noteq> [] \<longrightarrow>
           a_account_name a \<in> set (requested_accounts (task_requested_account_name t)))
      \<and> (t_node_name t \<noteq> [] \<longrightarrow> a_node_name a = t_node_name t)
      \<and> (t_partition t \<notin> {[], ''auto''} \<longrightarrow> partition_spec_allows (t_partition t) (a_partition a))
      \<and> (if allocation_is_dedicated_aedt_pool a then task_can_share_dedicated_aedt_pool d a t
         else a_exclusive_node a = t_exclusive_node t)
      \<and> \<not> allocation_profile_conflicts d a t
      \<and> (t_exclusive_node t \<longrightarrow> a_id a \<notin> fst (active_task_allocation_sets d))
      \<and> (\<not> t_exclusive_node t \<longrightarrow> a_id a \<notin> snd (active_task_allocation_sets d))
      \<and> (task_requires_gpu t \<longrightarrow> t_gpus t \<le> a_free_gpus a)
      \<and> (\<not> task_is_fea_bursty t \<and> \<not> task_can_overlap_same_node_allocation d a t False \<longrightarrow>
           t_memory_mb t \<le> a_free_memory_mb a \<and> t_cpus t \<le> max 0 (a_free_cpus a)))"

lemma if_False_iff: "(if c then False else b) = (\<not> c \<and> b)"
  by simp

lemma constraints_honoured:
  assumes "allocation_matches_task_constraints fcfg env v d a t False active active_ex"
  shows "task_requested_allocation_id t \<noteq> 0 \<longrightarrow> a_id a = task_requested_allocation_id t"
    "requested_accounts (task_requested_account_name t) \<noteq> [] \<longrightarrow> a_account_name a \<in> set (requested_accounts (task_requested_account_name t))"
    "t_node_name t \<noteq> [] \<longrightarrow> a_node_name a = t_node_name t"
    "t_partition t \<notin> {[], ''auto''} \<longrightarrow> partition_spec_allows (t_partition t) (a_partition a)"
    "if allocation_is_dedicated_aedt_pool a then task_can_share_dedicated_aedt_pool d a t else a_exclusive_node a = t_exclusive_node t"
    "\<not> allocation_profile_conflicts d a t"
    "t_exclusive_node t \<longrightarrow> a_id a \<notin> active" "\<not> t_exclusive_node t \<longrightarrow> a_id a \<notin> active_ex"
  using assms unfolding allocation_matches_task_constraints_def
  by (simp_all only: if_False_iff) (auto split: if_splits)

lemma borrowable_le:
  assumes "0 \<le> gpu_prewarm_cpu_reserve_per_free_gpu cfg" and "0 \<le> a_free_gpus a"
  shows "borrowable_cpus cfg a \<le> max 0 (a_free_cpus a)"
proof -
  have "0 \<le> a_free_gpus a * gpu_prewarm_cpu_reserve_per_free_gpu cfg" using assms(2,1) by (rule mult_nonneg_nonneg)
  then show ?thesis unfolding borrowable_cpus_def by (simp only: split: if_split) linarith
qed

lemma can_run_honours:
  assumes "allocation_can_run_task cfg fcfg env v d a t False (fst (active_task_allocation_sets d)) (snd (active_task_allocation_sets d))"
    and "0 \<le> gpu_prewarm_cpu_reserve_per_free_gpu cfg" and "0 \<le> a_free_gpus a"
  shows "placement_honours cfg d a t"
proof -
  have m: "allocation_matches_task_constraints fcfg env v d a t False (fst (active_task_allocation_sets d)) (snd (active_task_allocation_sets d))"
    using assms(1) by (simp add: allocation_can_run_task_def split: if_splits)
  have gpu: "task_requires_gpu t \<longrightarrow> t_gpus t \<le> a_free_gpus a"
    using assms(1) by (auto simp: allocation_can_run_task_def allocation_gpu_matches_task_def
        task_can_overlap_same_node_allocation_def split: if_splits)
  have std: "t_memory_mb t \<le> a_free_memory_mb a \<and> t_cpus t \<le> max 0 (a_free_cpus a)"
    if "\<not> task_is_fea_bursty t" "\<not> task_can_overlap_same_node_allocation d a t False"
    using assms(1) that borrowable_le [OF assms(2,3)] by (auto simp: allocation_can_run_task_def split: if_splits)
  show ?thesis unfolding placement_honours_def using constraints_honoured [OF m] gpu std by blast
qed

lemma alist_fold_rows:
  "\<lbrakk>\<forall>x \<in> set xs \<union> snd ` set acc. \<forall>y \<in> set xs \<union> snd ` set acc. a_id x = a_id y \<longrightarrow> x = y;
    \<forall>(k, r) \<in> set acc. k = a_id r\<rbrakk>
   \<Longrightarrow> snd ` set (fold (\<lambda>a by_id. AList.update (a_id a) a by_id) xs acc) = set xs \<union> snd ` set acc"
proof (induction xs arbitrary: acc)
  case (Cons x xs)
  let ?acc = "AList.update (a_id x) x acc"
  have keys: "\<forall>(k, r) \<in> set ?acc. k = a_id r" using Cons.prems(2) set_update_subset [of "a_id x" x acc] by auto
  have vals: "snd ` set ?acc = insert x (snd ` set acc)"
  proof (intro equalityI subsetI)
    fix r assume r: "r \<in> insert x (snd ` set acc)"
    have "map_of ?acc (a_id x) = Some x" by (simp add: update_conv')
    then have "x \<in> snd ` set ?acc" by (force dest: map_of_SomeD)
    moreover have "r \<in> snd ` set ?acc" if r: "r \<in> snd ` set acc" "r \<noteq> x"
    proof -
      have "a_id r \<noteq> a_id x" using Cons.prems(1) r by auto
      obtain k where "(k, r) \<in> set acc" using r(1) by auto
      then have "(a_id r, r) \<in> set acc" using Cons.prems(2) by auto
      then have "(a_id r, r) \<in> set ?acc" using \<open>a_id r \<noteq> a_id x\<close> by (induction acc) auto
      then show ?thesis by force
    qed
    ultimately show "r \<in> snd ` set ?acc" using r by auto
  next
    fix r assume "r \<in> snd ` set ?acc"
    then show "r \<in> insert x (snd ` set acc)" using set_update_subset [of "a_id x" x acc] by auto
  qed
  have "snd ` set (fold (\<lambda>a by_id. AList.update (a_id a) a by_id) xs ?acc) = set xs \<union> snd ` set ?acc"
    using Cons.prems(1) keys by (intro Cons.IH) (auto simp: vals)
  then show ?case by (auto simp: vals)
qed simp

lemma with_live_set:
  assumes "allocations_wf d"
  shows "set (list_allocations_with_live d m n) = set (take m (sort_desc a_id (db_allocations d)))
    \<union> set (take n (filter (\<lambda>a. a_state a \<in> live_allocation_states) (sort_desc a_id (db_allocations d))))"
proof -
  let ?rows = "sort_desc a_id (db_allocations d)"
  have sub: "set (take m ?rows @ take n (filter (\<lambda>a. a_state a \<in> live_allocation_states) ?rows)) \<subseteq> set (db_allocations d)"
    by (auto dest: in_set_takeD)
  have inj: "x = y" if "x \<in> set (db_allocations d)" "y \<in> set (db_allocations d)" "a_id x = a_id y" for x y
    using assms that unfolding allocations_wf_def by (metis distinct_map inj_onD)
  let ?xs = "take m ?rows @ take n (filter (\<lambda>a. a_state a \<in> live_allocation_states) ?rows)"
  have "\<forall>x \<in> set ?xs. \<forall>y \<in> set ?xs. a_id x = a_id y \<longrightarrow> x = y" using sub inj by blast
  then have "snd ` set (fold (\<lambda>a by_id. AList.update (a_id a) a by_id) ?xs []) = set ?xs"
    using alist_fold_rows [of ?xs "[]"] by simp
  then show ?thesis by (simp add: list_allocations_with_live_def Let_def)
qed

lemma with_live_subset: "allocations_wf d \<Longrightarrow> set (list_allocations_with_live d m n) \<subseteq> set (db_allocations d)"
  by (auto simp: with_live_set dest: in_set_takeD)

lemma annotate_fields [simp]:
  "a_id (annotate_fea_node_worker_counts d l a) = a_id a" "a_free_gpus (annotate_fea_node_worker_counts d l a) = a_free_gpus a"
  "a_state (annotate_fea_node_worker_counts d l a) = a_state a" "a_node_name (annotate_fea_node_worker_counts d l a) = a_node_name a"
  "a_slurm_job_id (annotate_fea_node_worker_counts d l a) = a_slurm_job_id a"
  by (simp_all add: annotate_fea_node_worker_counts_def)

lemma candidate_fit_run:
  assumes "candidate_fit cfg fcfg env v d t a0 = Some (a, fit)"
  shows "a = (if task_is_fea_bursty t then annotate_fea_node_worker_counts d (fv_leases v) a0 else a0)"
    "a_state a \<in> {Warm, Active}" "opt_text (a_slurm_job_id a) \<noteq> []" "allocation_accepts_new_tasks cfg (fv_now v) a"
    "allocation_can_run_task cfg fcfg env v d a t False (fst (active_task_allocation_sets d)) (snd (active_task_allocation_sets d))"
    "task_is_fea_bursty t \<longrightarrow> 0 < fit"
  using assms unfolding candidate_fit_def Let_def
  by (auto split: if_splits prod.splits option.splits simp: Let_def)

lemma candidates_from:
  assumes "c \<in> set (placement_candidates cfg fcfg env v d t)"
  shows "\<exists>a0 \<in> set (list_allocations_with_live d 500 5000). candidate_fit cfg fcfg env v d t a0 = Some c"
  using assms by (auto simp: placement_candidates_def Let_def map_filter_def split: if_splits)

lemma effective_candidate:
  assumes "best_allocation_for_effective_task cfg fcfg lcfg env v s t b = Some a"
  shows "\<exists>fit. (a, fit) \<in> set (placement_candidates cfg fcfg env v (ss_db s) t)"
proof -
  let ?c = "placement_candidates cfg fcfg env v (ss_db s) t"
  have "a \<in> fst ` set ?c"
    using assms unfolding best_allocation_for_effective_task_def Let_def
    by (auto split: if_splits dest!: py_min_Some_in py_max_Some_in intro: rev_image_eqI)
  then show ?thesis by auto
qed


lemma effective_standard_best:
  assumes "best_allocation_for_effective_task cfg fcfg lcfg env v s t b = Some a" and "\<not> task_is_fea_bursty t"
    and "c \<in> set (placement_candidates cfg fcfg env v (ss_db s) t)"
  shows "standard_key cfg t c \<le> standard_key cfg t (a, 1)"
proof -
  obtain f where m: "py_max (standard_key cfg t) (placement_candidates cfg fcfg env v (ss_db s) t) = Some (a, f)"
    using assms(1,2) by (auto simp: best_allocation_for_effective_task_def Let_def split: if_splits)
  have "standard_key cfg t (a, f) = standard_key cfg t (a, 1)" by (simp add: standard_key_def)
  then show ?thesis using py_max_Some_ge [OF m assms(3)] by simp
qed


definition profiles_apart :: "db \<Rightarrow> bool" where
  "profiles_apart d = list_all (\<lambda>t. list_all (\<lambda>u. t_status t \<in> live_statuses \<and> t_status u \<in> live_statuses
      \<and> 0 < allocation_of t \<and> allocation_of u = allocation_of t
      \<longrightarrow> task_allocation_profile u = task_allocation_profile t) (db_tasks d)) (db_tasks d)"

lemma where_rows:
  "r \<in> set (db_tasks (fst (update_tasks_where now d i P cols))) \<Longrightarrow>
   r \<in> set (db_tasks d) \<or> (\<exists>t0 \<in> set (db_tasks d). t_id t0 = i \<and> r = touch_task now (assign cols t0))"
  by (auto simp: update_tasks_where_def split: if_splits)

lemma claim_rows:
  assumes "r \<in> set (db_tasks (world_db (claim_task lcfg now t a token w)))"
  shows "r \<in> set (db_tasks (world_db w))
    \<or> (\<exists>t0 \<in> set (db_tasks (world_db w)). t_id t0 = t_id t \<and> r = touch_task now (assign (claim_fields now a token) t0))"
  using claim_task_db [of lcfg now t a token w]
proof
  assume "db_tasks (world_db (claim_task lcfg now t a token w)) = db_tasks (world_db w)"
  then show ?thesis using assms by simp
next
  assume "\<exists>Q. db_tasks (world_db (claim_task lcfg now t a token w))
      = db_tasks (fst (update_tasks_where now (world_db w) (t_id t) (\<lambda>r. t_status r = Queued \<and> Q r) (claim_fields now a token)))"
  then obtain Q where "r \<in> set (db_tasks (fst (update_tasks_where now (world_db w) (t_id t)
      (\<lambda>r. t_status r = Queued \<and> Q r) (claim_fields now a token))))" using assms by auto
  then show ?thesis by (rule where_rows)
qed

lemma claimed_row_profile:
  "t_status (touch_task now (assign (claim_fields now a token) t)) = Attaching"
  "allocation_of (touch_task now (assign (claim_fields now a token) t)) = a_id a"
  "task_allocation_profile (touch_task now (assign (claim_fields now a token) t)) = task_allocation_profile t"
  by (simp_all add: claim_fields_def allocation_of_def task_allocation_profile_def task_is_fea_bursty_def task_scheduling_profile_def)

lemma reserve_world:
  fixes cfg fcfg lcfg env tid aid token v w
  defines "w' \<equiv> snd (reserve_task_on_allocation cfg fcfg lcfg env tid aid token (v, w))"
  shows "world_db w' = world_db w
   \<or> (\<exists>t a w1 t1. get_task (world_db w) tid = Some t \<and> get_allocation (world_db w) aid = Some a
        \<and> \<not> allocation_profile_conflicts (world_db w) a t \<and> t_id t1 = t_id t \<and> world_db w1 = world_db w
        \<and> w' = claim_task lcfg (fv_now v) t1 a token w1)"
proof (cases "get_task (world_db w) tid")
  case t: (Some t)
  show ?thesis
  proof (cases "get_allocation (world_db w) aid")
    case a: (Some a)
    show ?thesis
    proof (cases "account_by_name env (a_account_name a)")
      case ac: (Some ac)
      obtain adm lst where adm: "license_task_admitted lcfg (fv_monotonic v) (fv_last_tick_duration v) t (ss_license (aw_state w)) = (adm, lst)"
        by fastforce
      let ?w1 = "on_state (\<lambda>s. s\<lparr>ss_license := lst\<rparr>) w" and ?t1 = "apply_dynamic_env_profile env ac t"
      have "t_id ?t1 = t_id t" by (simp add: apply_dynamic_env_profile_def Let_def split: option.split)
      moreover have "world_db ?w1 = world_db w" by simp
      moreover have "\<not> allocation_profile_conflicts (world_db w) a t" if "reserve_guards cfg fcfg env v (world_db w) ac a t"
        using that by (simp add: reserve_guards_def split: if_splits)
      moreover have "w' = w \<or> reserve_guards cfg fcfg env v (world_db w) ac a t \<and> w' \<in> {?w1, claim_task lcfg (fv_now v) ?t1 a token ?w1}"
        by (simp add: w'_def reserve_task_on_allocation_def t a ac adm Let_def)
      ultimately show ?thesis using t a by (metis insertE singletonD)
    qed (simp add: w'_def reserve_task_on_allocation_def t a)
  qed (simp add: w'_def reserve_task_on_allocation_def t)
qed (simp add: w'_def reserve_task_on_allocation_def)

lemma no_conflict_profile:
  assumes few: "length (filter (\<lambda>t. t_status t \<in> live_statuses) (db_tasks d)) \<le> 5000"
    and "\<not> allocation_profile_conflicts d a t" and u: "u \<in> set (db_tasks d)" "t_status u \<in> live_statuses"
    "allocation_of u = a_id a" "0 < a_id a"
  shows "task_allocation_profile u = task_allocation_profile t"
proof -
  have "u \<in> set (live_tasks d)"
    using few u(1,2) list_tasks_by_statuses_all [of "[Attaching, Running]" d 5000] by (simp add: live_tasks_def live_statuses_def)
  then show ?thesis using assms(2) u(3,4)
    by (auto simp: allocation_profile_conflicts_def active_profile_allocation_sets_def Let_def task_allocation_profile_def image_iff split: if_splits)
qed

text \<open>C10. FEA and standard work never share an allocation: if no allocation has live tasks of both
  profiles, then none has after a reservation, whichever task and allocation it names and whether or
  not it wins (as long as the live tasks fit in the page of 5000 that the profile check reads).\<close>

theorem reserve_keeps_profiles_apart:
  assumes "tasks_wf (world_db w)" and "profiles_apart (world_db w)"
    and "length (filter (\<lambda>t. t_status t \<in> live_statuses) (db_tasks (world_db w))) \<le> 5000"
  shows "profiles_apart (world_db (snd (reserve_task_on_allocation cfg fcfg lcfg env tid aid token (v, w))))"
proof (cases "world_db (snd (reserve_task_on_allocation cfg fcfg lcfg env tid aid token (v, w))) = world_db w")
  case False
  let ?d = "world_db w"
  obtain t a w1 t1 where t: "get_task ?d tid = Some t" and nc: "\<not> allocation_profile_conflicts ?d a t" and t1: "t_id t1 = t_id t"
    and w1: "world_db w1 = ?d" and w': "snd (reserve_task_on_allocation cfg fcfg lcfg env tid aid token (v, w)) = claim_task lcfg (fv_now v) t1 a token w1"
    using reserve_world [of cfg fcfg lcfg env tid aid token v w] False by metis
  have uniq: "t0 = t" if "t0 \<in> set (db_tasks ?d)" "t_id t0 = t_id t1" for t0
    using get_task_mem [OF assms(1)] that t t1 by (metis get_task_def option.inject tbl_get_key)
  have rows: "r \<in> set (db_tasks ?d) \<or> r = touch_task (fv_now v) (assign (claim_fields (fv_now v) a token) t)"
    if "r \<in> set (db_tasks (world_db (claim_task lcfg (fv_now v) t1 a token w1)))" for r
    using claim_rows [OF that] uniq unfolding w1 by blast
  have old: "task_allocation_profile r = task_allocation_profile t"
    if "r \<in> set (db_tasks ?d)" "t_status r \<in> live_statuses" "allocation_of r = a_id a" "0 < a_id a" for r
    by (rule no_conflict_profile [OF assms(3) nc that])
  have pair: "task_allocation_profile u = task_allocation_profile r"
    if "r \<in> set (db_tasks ?d)" "u \<in> set (db_tasks ?d)" "t_status r \<in> live_statuses" "t_status u \<in> live_statuses"
      "0 < allocation_of r" "allocation_of u = allocation_of r" for r u
    using assms(2) that unfolding profiles_apart_def list_all_iff by blast
  let ?new = "touch_task (fv_now v) (assign (claim_fields (fv_now v) a token) t)"
  have new: "allocation_of ?new = a_id a" "task_allocation_profile ?new = task_allocation_profile t" by (rule claimed_row_profile)+
  show ?thesis unfolding w' profiles_apart_def list_all_iff
  proof (intro ballI impI, elim conjE)
    fix r u assume mem: "r \<in> set (db_tasks (world_db (claim_task lcfg (fv_now v) t1 a token w1)))"
      "u \<in> set (db_tasks (world_db (claim_task lcfg (fv_now v) t1 a token w1)))"
      and live: "t_status r \<in> live_statuses" "t_status u \<in> live_statuses" and al: "0 < allocation_of r" "allocation_of u = allocation_of r"
    consider "r \<in> set (db_tasks ?d)" "u \<in> set (db_tasks ?d)" | "r = ?new" "u \<in> set (db_tasks ?d)" | "r \<in> set (db_tasks ?d)" "u = ?new" | "r = u"
      using rows [OF mem(1)] rows [OF mem(2)] by fast
    then show "task_allocation_profile u = task_allocation_profile r"
    proof cases
      case 1
      then show ?thesis using pair live al by blast
    next
      case 2
      then show ?thesis using old [of u] live(2) al new by simp
    next
      case 3
      then show ?thesis using old [of r] live(1) al new by simp
    qed simp
  qed
qed (use assms(2) in simp)

section \<open>A concrete placement\<close>

definition demo_place_env :: place_env where
  "demo_place_env = \<lparr>pe_accounts = [\<lparr>ac_name = ''acct'', ac_capabilities = [], ac_env_profiles = [], ac_storage_quota_gb = None\<rparr>],
     pe_overlays = [], pe_storage = (\<lambda>_. \<lparr>sr_probe = ProbeOther, sr_used_gb = None, sr_total_projects = 0\<rparr>),
     pe_storage_guard_min_free_gb = 0, pe_storage_per_project_gb = 0, pe_backend_blocked = (\<lambda>_. False)\<rparr>"

definition demo_place_state :: sched_state where
  "demo_place_state = demo_state\<lparr>ss_db := demo_fea_db\<lparr>db_tasks := [(plain_task 1 ''a'')\<lparr>t_cpus := 2, t_memory_mb := 1000\<rparr>, (demo_fea_task 2)\<lparr>t_project := ''p''\<rparr>]\<rparr>\<rparr>"

definition demo_reserve :: "int \<Rightarrow> string \<Rightarrow> fea_view \<times> attach_world \<Rightarrow> fea_view \<times> attach_world" where
  "demo_reserve tid token = reserve_task_on_allocation demo_config demo_fea_config demo_license_config demo_place_env tid 7 token"


text \<open>The standard task wins its reservation; where it already runs, the FEA task is turned away.\<close>

definition demo_busy_state :: sched_state where
  "demo_busy_state = demo_place_state\<lparr>ss_db := (ss_db demo_place_state)\<lparr>db_tasks := [(plain_task 1 ''a'')\<lparr>t_cpus := 2,
     t_memory_mb := 1000, t_status := Running, t_allocation_id := Some 7\<rparr>, (demo_fea_task 2)\<lparr>t_project := ''p''\<rparr>]\<rparr>\<rparr>"

theorem reserve_keeps_profiles_apart_witness:
  "map t_status (db_tasks (world_db (snd (demo_reserve 1 ''k'' (demo_view, fresh_world demo_place_state))))) = [Attaching, Queued]
   \<and> profiles_apart (world_db (snd (demo_reserve 1 ''k'' (demo_view, fresh_world demo_place_state))))
   \<and> map t_status (db_tasks (world_db (snd (demo_reserve 2 ''k'' (demo_view, fresh_world demo_busy_state))))) = [Running, Queued]
   \<and> profiles_apart (world_db (snd (demo_reserve 2 ''k'' (demo_view, fresh_world demo_busy_state))))"
proof (intro conjI)
  show "map t_status (db_tasks (world_db (snd (demo_reserve 1 ''k'' (demo_view, fresh_world demo_place_state))))) = [Attaching, Queued]"
    by code_simp
  show "map t_status (db_tasks (world_db (snd (demo_reserve 2 ''k'' (demo_view, fresh_world demo_busy_state))))) = [Running, Queued]"
    by code_simp
  have "tasks_wf (world_db (fresh_world demo_place_state))" "profiles_apart (world_db (fresh_world demo_place_state))"
    "length (filter (\<lambda>t. t_status t \<in> live_statuses) (db_tasks (world_db (fresh_world demo_place_state)))) \<le> 5000" by code_simp+
  from reserve_keeps_profiles_apart [OF this] show "profiles_apart (world_db (snd (demo_reserve 1 ''k'' (demo_view, fresh_world demo_place_state))))"
    unfolding demo_reserve_def .
  have "tasks_wf (world_db (fresh_world demo_busy_state))" "profiles_apart (world_db (fresh_world demo_busy_state))"
    "length (filter (\<lambda>t. t_status t \<in> live_statuses) (db_tasks (world_db (fresh_world demo_busy_state)))) \<le> 5000" by code_simp+
  from reserve_keeps_profiles_apart [OF this] show "profiles_apart (world_db (snd (demo_reserve 2 ''k'' (demo_view, fresh_world demo_busy_state))))"
    unfolding demo_reserve_def .
qed

end
