(* ===== verification/Reclaim.thy ===== *)
theory Reclaim
  imports Placement Pressure_Episode
begin

text \<open>
  Writers of \<open>scheduler.py\<close> that take work away from a task: the reclaim of one FEA worker per
  memory-pressure episode of a node (\<open>handle_fea_memory_pressure\<close>), the operator's cancellation
  (\<open>request_cancel_task\<close>, \<open>cancel_tasks\<close>), the retry of a strict-placement cancellation, and the
  tasks whose reference task or requested allocation is gone (\<open>fail_stale_same_node_tasks\<close>,
  \<open>fail_stale_requested_allocation_tasks\<close>).
\<close>

section \<open>Memory pressure\<close>

text \<open>The episodes are the durable settings of the nodes. \<open>rc_cancelled\<close> logs the remote cancellations
  and \<open>rc_reclaims\<close> the reclaims with their nodes.\<close>

record reclaim_state =
  rc_state :: sched_state
  rc_episodes :: "(string \<times> stored_episode) list"
  rc_cancelled :: "int list"
  rc_reclaims :: "(string \<times> int) list"

text \<open>Timestamp texts sort like the times they denote, after the empty text.\<close>

fun stamp_rank :: "stamp \<Rightarrow> int \<times> int" where
  "stamp_rank Blank = (0, 0)"
| "stamp_rank Garbled = (1, 0)"
| "stamp_rank (At t) = (2, t)"

definition pestat_observed_at :: "fea_view \<Rightarrow> string \<Rightarrow> stamp" where
  "pestat_observed_at v node =
     (case find (\<lambda>r. pn_hostname (fst r) = strip node) (rev (fv_pestat v)) of None \<Rightarrow> Blank | Some (row, observed) \<Rightarrow> observed)"

definition fea_memory_pressure_observation :: "fea_config \<Rightarrow> fea_view \<Rightarrow> alloc_row \<Rightarrow> pressure_sample option" where
  "fea_memory_pressure_observation cfg v a =
     (case pestat_node_for_allocation cfg v a of None \<Rightarrow> None
      | Some n \<Rightarrow>
          if pn_memory_mb n \<le> 0 \<or> pestat_observed_at v (a_node_name a) = Blank then None
          else Some \<lparr>ps_observed_at = pestat_observed_at v (a_node_name a), ps_total_memory_mb = pn_memory_mb n,
            ps_free_memory_mb = pn_free_memory_mb n,
            ps_hard_pressure = (of_int (pn_free_memory_mb n) / of_int (pn_memory_mb n) * 100 < fc_hard_memory_free_percent cfg)\<rparr>)"

definition newest_key :: "task_row \<Rightarrow> (int \<times> int) \<times> int" where
  "newest_key t = (stamp_rank (stamp_or (t_attached_at t) (stamp_or (t_started_at t) (t_created_at t))), t_id t)"

definition reclaimable :: "task_row \<Rightarrow> bool" where
  "reclaimable t = (t_status t = Running \<and> task_is_fea_bursty t \<and> \<not> task_is_fea_infra t \<and> task_aedt_backend t \<noteq> Pooled)"

definition newest_running_fea_task :: "db \<Rightarrow> int \<Rightarrow> task_row option" where
  "newest_running_fea_task d aid =
     py_max newest_key (filter (\<lambda>t. allocation_of t = aid \<and> reclaimable t) (list_tasks_by_statuses d [Running] 5000))"

type_synonym pressure_groups = "(string \<times> pressure_sample \<times> alloc_row list) list"

definition add_pressure :: "fea_config \<Rightarrow> fea_view \<Rightarrow> alloc_row \<Rightarrow> pressure_groups \<Rightarrow> pressure_groups" where
  "add_pressure cfg v a groups =
     (if \<not> live_capacity_state a then groups
      else (case fea_memory_pressure_observation cfg v a of None \<Rightarrow> groups
        | Some obs \<Rightarrow>
            if a_node_name a = [] then groups
            else (case map_of groups (a_node_name a) of
                None \<Rightarrow> AList.update (a_node_name a) (obs, [a]) groups
              | Some (p, as) \<Rightarrow> AList.update (a_node_name a)
                  (if stamp_rank (ps_observed_at p) < stamp_rank (ps_observed_at obs) then obs else p, as @ [a]) groups)))"

definition pressured_allocations_by_node :: "fea_config \<Rightarrow> fea_view \<Rightarrow> db \<Rightarrow> pressure_groups" where
  "pressured_allocations_by_node cfg v d = fold (add_pressure cfg v) (list_allocations_with_live d 500 5000) []"

definition pressure_requeue_fields :: "task_row \<Rightarrow> task_field list" where
  "pressure_requeue_fields t = t_attempt_count_update (\<lambda>_. t_attempt_count t + 1) # requeue_fields t"

definition pressure_failed_fields :: "int \<Rightarrow> task_row \<Rightarrow> task_field list" where
  "pressure_failed_fields now t =
     t_attempt_count_update (\<lambda>_. t_attempt_count t + 1)
     # failed_fields now (''memory pressure hard limit after '' @ show_int (t_attempt_count t + 1) @ '' attempts'')"

definition requeue_pressure_killed_task :: "license_config \<Rightarrow> int \<Rightarrow> int \<Rightarrow> task_row \<Rightarrow> sched_state \<Rightarrow> sched_state" where
  "requeue_pressure_killed_task lcfg max_attempts now t s =
     (let attempts = t_attempt_count t + 1 in
      if max_attempts \<le> attempts
      then on_task_terminal lcfg t (on_db (\<lambda>d. update_task now d (t_id t) (pressure_failed_fields now t)) s)
      else (let s1 = on_db (\<lambda>d. record_event d ''task_requeued'' ''task'' (t_id t)) s;
                s2 = s1\<lparr>ss_license := license_mark_terminal lcfg t (ss_license s1)\<rparr>
            in on_db (\<lambda>d. update_task now d (t_id t) (pressure_requeue_fields t)) s2))"

definition episode_of :: "reclaim_state \<Rightarrow> string \<Rightarrow> stored_episode" where
  "episode_of st node = dict_get (rc_episodes st) node NoValue"

definition reclaim_task ::
  "sched_config \<Rightarrow> license_config \<Rightarrow> int \<Rightarrow> int \<Rightarrow> string \<Rightarrow> alloc_row list \<Rightarrow> task_row \<Rightarrow> reclaim_state \<Rightarrow> reclaim_state" where
  "reclaim_task cfg lcfg max_attempts now node as t st =
     (let alloc_name = (case find (\<lambda>a. a_id a = allocation_of t) as of None \<Rightarrow> [] | Some a \<Rightarrow> a_account_name a);
          name = (if t_account_name t \<noteq> [] then t_account_name t else alloc_name) in
      st\<lparr>rc_state := requeue_pressure_killed_task lcfg max_attempts now t (rc_state st),
         rc_cancelled := (if name \<in> set (config_accounts cfg) then rc_cancelled st @ [t_id t] else rc_cancelled st),
         rc_reclaims := rc_reclaims st @ [(node, t_id t)]\<rparr>)"

definition reclaim_node ::
  "sched_config \<Rightarrow> license_config \<Rightarrow> int \<Rightarrow> int \<Rightarrow> string \<times> pressure_sample \<times> alloc_row list \<Rightarrow> reclaim_state \<Rightarrow> reclaim_state" where
  "reclaim_node cfg lcfg max_attempts now g st =
     (case g of (node, p, as) \<Rightarrow>
        let (ep, claimed) = claim_fea_pressure_episode 300 (episode_of st node) p;
            st1 = st\<lparr>rc_episodes := AList.update node ep (rc_episodes st)\<rparr>
        in if \<not> ps_hard_pressure p then st1
           else (case py_max newest_key (List.map_filter (newest_running_fea_task (ss_db (rc_state st))) (map a_id as)) of
               None \<Rightarrow> st
             | Some t \<Rightarrow> if \<not> claimed then st1 else reclaim_task cfg lcfg max_attempts now node as t st1))"

definition handle_fea_memory_pressure ::
  "sched_config \<Rightarrow> fea_config \<Rightarrow> license_config \<Rightarrow> int \<Rightarrow> fea_view \<Rightarrow> reclaim_state \<Rightarrow> reclaim_state" where
  "handle_fea_memory_pressure cfg fcfg lcfg max_attempts v st =
     (let st1 = fold (reclaim_node cfg lcfg max_attempts (fv_now v))
            (pressured_allocations_by_node fcfg v (ss_db (rc_state st))) st
      in if rc_reclaims st1 = rc_reclaims st then st1
         else st1\<lparr>rc_state := on_db (recalculate_allocation_capacity (fv_now v) None) (rc_state st1)\<rparr>)"

section \<open>Cancellation\<close>

datatype cancel_result = CancelWon task_status | StatusMismatch task_status | ConcurrentTransition task_status

definition cancellable :: "task_status list" where
  "cancellable = [Queued, Attaching, Running]"

text \<open>\<open>others n\<close> is what other threads do between the read and the conditional write of a round, with
  \<open>n\<close> rounds left.\<close>

fun cancel_rounds ::
  "license_config \<Rightarrow> (nat \<Rightarrow> sched_state \<Rightarrow> sched_state) \<Rightarrow> int \<Rightarrow> int \<Rightarrow> task_status list \<Rightarrow> nat \<Rightarrow> sched_state
     \<Rightarrow> sched_state \<times> cancel_result result" where
  "cancel_rounds lcfg others now tid wanted 0 s =
     (case get_task (ss_db s) tid of None \<Rightarrow> (s, Inl (ValueError ''task not found''))
      | Some t \<Rightarrow> (s, Inr (ConcurrentTransition (t_status t))))"
| "cancel_rounds lcfg others now tid wanted (Suc n) s =
     (case get_task (ss_db s) tid of None \<Rightarrow> (s, Inl (ValueError ''task not found''))
      | Some t \<Rightarrow>
          if t_status t \<notin> set cancellable \<or> t_status t \<notin> set wanted then (s, Inr (StatusMismatch (t_status t)))
          else (let (s1, won) = cancel_attempt lcfg now t (others n s) in
            if won then (s1, Inr (CancelWon (t_status t)))
            else cancel_rounds lcfg others now tid wanted n s1))"

definition request_cancel_task ::
  "license_config \<Rightarrow> (nat \<Rightarrow> sched_state \<Rightarrow> sched_state) \<Rightarrow> int \<Rightarrow> int \<Rightarrow> task_status list option \<Rightarrow> sched_state
     \<Rightarrow> sched_state \<times> cancel_result result" where
  "request_cancel_task lcfg others now tid expected s =
     cancel_rounds lcfg others now tid (case expected of None \<Rightarrow> cancellable | Some ss \<Rightarrow> ss) 4 s"

definition cancel_tasks ::
  "license_config \<Rightarrow> (int \<Rightarrow> nat \<Rightarrow> sched_state \<Rightarrow> sched_state) \<Rightarrow> int \<Rightarrow> string \<Rightarrow> task_status list \<Rightarrow> nat \<Rightarrow> sched_state
     \<Rightarrow> sched_state \<times> int list" where
  "cancel_tasks lcfg others now name_contains statuses limit s =
     (let wanted = (if statuses = [] then cancellable else statuses); needle = lower (strip name_contains);
          rows = filter (\<lambda>t. t_status t \<in> set wanted \<and> (needle = [] \<or> contains needle (lower (t_name t))))
                   (list_tasks (ss_db s) limit None);
          step = (\<lambda>t (s, ids). case request_cancel_task lcfg (others (t_id t)) now (t_id t) (Some wanted) s of
                     (s1, Inr (CancelWon st)) \<Rightarrow> (s1, t_id t # ids) | (s1, _) \<Rightarrow> (s1, ids));
          (s1, ids) = fold step rows (s, [])
      in (s1, sort ids))"

definition cancel_task :: "license_config \<Rightarrow> int \<Rightarrow> int \<Rightarrow> sched_state \<Rightarrow> sched_state result" where
  "cancel_task lcfg now tid s =
     (case get_task (ss_db s) tid of None \<Rightarrow> Inl (ValueError ''task not found'')
      | Some t \<Rightarrow>
          if t_status t \<in> terminal_statuses then Inr s
          else (let s1 = on_task_terminal lcfg t (on_db (\<lambda>d. update_task now d tid (cancelled_fields now)) s) in
            Inr (if allocation_of t = 0 then s1 else on_db (recalculate_allocation_capacity now None) s1)))"

section \<open>Tasks whose reference is gone\<close>

definition stale_reference :: "db \<Rightarrow> task_row \<Rightarrow> string option" where
  "stale_reference d t =
     (let ref = same_node_as_task_id t in
      if ref \<le> 0 then None
      else (case get_task d ref of
          None \<Rightarrow> Some (''same_node_as task '' @ show_int ref @ '' not found'')
        | Some r \<Rightarrow> if t_status r \<in> terminal_statuses
            then Some (''same_node_as task '' @ show_int ref @ '' is '' @ task_status_value (t_status r)) else None))"

definition fail_stale_same_node_task :: "license_config \<Rightarrow> int \<Rightarrow> task_row \<Rightarrow> sched_state \<Rightarrow> sched_state" where
  "fail_stale_same_node_task lcfg now t s =
     (case stale_reference (ss_db s) t of None \<Rightarrow> s
      | Some message \<Rightarrow>
          (let s1 = on_task_terminal lcfg t (on_db (\<lambda>d. update_task now d (t_id t) (failed_fields now message)) s)
           in if allocation_of t = 0 then s1 else on_db (recalculate_allocation_capacity now None) s1))"

definition fail_stale_same_node_tasks :: "license_config \<Rightarrow> int \<Rightarrow> sched_state \<Rightarrow> sched_state" where
  "fail_stale_same_node_tasks lcfg now s =
     fold (fail_stale_same_node_task lcfg now) (list_tasks_by_statuses (ss_db s) [Queued, Attaching, Running] 5000) s"

definition requested_allocation_lost :: "db \<Rightarrow> task_row \<Rightarrow> string option" where
  "requested_allocation_lost d t =
     (let requested = task_requested_allocation_id t in
      if requested \<le> 0 then None
      else (case get_allocation d requested of
          None \<Rightarrow> Some (''requested allocation '' @ show_int requested @ '' is not found'')
        | Some a \<Rightarrow> if a_state a \<in> {Draining, Closing, Closed, AFailed}
            then Some (''requested allocation '' @ show_int requested @ '' is '' @ allocation_status_value (a_state a)) else None))"

definition fail_stale_requested_allocation_tasks :: "license_config \<Rightarrow> int \<Rightarrow> sched_state \<Rightarrow> sched_state" where
  "fail_stale_requested_allocation_tasks lcfg now s =
     fold (\<lambda>t s. case requested_allocation_lost (ss_db s) t of None \<Rightarrow> s
         | Some message \<Rightarrow>
             if task_aedt_backend t = Pooled \<and> task_has_auto_aedt_reservation (ss_db s) (t_id t) then s
             else on_task_terminal lcfg t (on_db (\<lambda>d. update_task now d (t_id t) (failed_fields now message)) s))
       (list_tasks_by_statuses (ss_db s) [Queued] 5000) s"

section \<open>One worker per node and episode\<close>

definition killed_row :: "int \<Rightarrow> task_row \<Rightarrow> task_row \<Rightarrow> bool" where
  "killed_row max_attempts t u =
     (t_attempt_count u = t_attempt_count t + 1 \<and> t_status u = (if max_attempts \<le> t_attempt_count t + 1 then Failed else Queued))"

lemma get_task_requeue_killed:
  "get_task (ss_db (requeue_pressure_killed_task lcfg m now t s)) i =
     map_option (\<lambda>r. if t_id r = t_id t then touch_task now (assign
        (if m \<le> t_attempt_count t + 1
         then pressure_failed_fields now t
         else pressure_requeue_fields t) r) else r) (get_task (ss_db s) i)"
proof -
  have ids: "t_id (assign (pressure_requeue_fields t) r) = t_id r"
    "t_id (assign (pressure_failed_fields now t) r) = t_id r" for r
    by (simp_all add: pressure_requeue_fields_def pressure_failed_fields_def field_defs)
  have upd: "get_task (update_task now d j cols) i = map_option (\<lambda>r. if t_id r = j then touch_task now (assign cols r) else r) (get_task d i)"
    if "cols \<noteq> []" "\<And>r. t_id (assign cols r) = t_id r" for d j cols
    using that get_task_where [of cols now d j "\<lambda>_. True" i] by (simp add: update_task_where)
  have ev: "get_task (record_event d a b c) = get_task d" for d a b c
    by (simp add: fun_eq_iff get_task_def record_event_def)
  have ne: "pressure_requeue_fields t \<noteq> []" "pressure_failed_fields now t \<noteq> []"
    by (simp_all add: pressure_requeue_fields_def pressure_failed_fields_def)
  show ?thesis
    by (cases "m \<le> t_attempt_count t + 1")
      (simp_all add: requeue_pressure_killed_task_def Let_def upd ids ne ev)
qed

lemma killed_requeue:
  assumes "get_task (ss_db s) (t_id t) = Some t"
  shows "\<exists>u. get_task (ss_db (requeue_pressure_killed_task lcfg m now t s)) (t_id t) = Some u \<and> killed_row m t u"
    "i \<noteq> t_id t \<Longrightarrow> get_task (ss_db (requeue_pressure_killed_task lcfg m now t s)) i = get_task (ss_db s) i"
proof -
  show "\<exists>u. get_task (ss_db (requeue_pressure_killed_task lcfg m now t s)) (t_id t) = Some u \<and> killed_row m t u"
    using assms by (simp add: get_task_requeue_killed killed_row_def pressure_requeue_fields_def pressure_failed_fields_def field_defs)
  show "i \<noteq> t_id t \<Longrightarrow> get_task (ss_db (requeue_pressure_killed_task lcfg m now t s)) i = get_task (ss_db s) i"
    by (cases "get_task (ss_db s) i") (auto simp: get_task_requeue_killed dest: get_task_key)
qed

lemma newest_reclaimable:
  assumes "newest_running_fea_task d aid = Some t"
  shows "t \<in> set (db_tasks d)" "allocation_of t = aid" "reclaimable t"
  using py_max_Some_in [OF assms [unfolded newest_running_fea_task_def]]
  by (auto simp: list_tasks_by_statuses_def dest: in_set_takeD)

lemma reclaim_choice:
  assumes "py_max newest_key (List.map_filter (newest_running_fea_task d) (map a_id as)) = Some t"
  shows "t \<in> set (db_tasks d) \<and> reclaimable t \<and> (\<exists>a \<in> set as. a_id a = allocation_of t)"
  using py_max_Some_in [OF assms] newest_reclaimable by (fastforce simp: map_filter_def split: option.splits)

text \<open>The groups hold the live allocations of their node and the node's observation.\<close>

definition group_ok :: "fea_config \<Rightarrow> fea_view \<Rightarrow> alloc_row list \<Rightarrow> string \<times> pressure_sample \<times> alloc_row list \<Rightarrow> bool" where
  "group_ok cfg v rows g = (case g of (node, p, as) \<Rightarrow> as \<noteq> [] \<and> (\<forall>a \<in> set as. a \<in> set rows \<and> live_capacity_state a
     \<and> a_node_name a = node \<and> fea_memory_pressure_observation cfg v a = Some p))"

definition groups_wf :: "fea_config \<Rightarrow> fea_view \<Rightarrow> alloc_row list \<Rightarrow> pressure_groups \<Rightarrow> bool" where
  "groups_wf cfg v rows gs \<longleftrightarrow> distinct (map fst gs) \<and> (\<forall>g \<in> set gs. group_ok cfg v rows g)"

lemma groups_update:
  "groups_wf cfg v rows gs \<Longrightarrow> group_ok cfg v rows (k, x) \<Longrightarrow> groups_wf cfg v rows (AList.update k x gs)"
  using set_update_subset [of k x gs] unfolding groups_wf_def by (auto simp: distinct_update)

lemma observation_node:
  "a_node_name a = a_node_name b \<Longrightarrow> fea_memory_pressure_observation cfg v a = fea_memory_pressure_observation cfg v b"
  by (simp add: fea_memory_pressure_observation_def pestat_node_for_allocation_def split: option.split)

lemma add_pressure_wf:
  assumes wf: "groups_wf cfg v rows gs" and a: "a \<in> set rows"
  shows "groups_wf cfg v rows (add_pressure cfg v a gs)"
proof (cases "live_capacity_state a \<and> a_node_name a \<noteq> [] \<and> fea_memory_pressure_observation cfg v a \<noteq> None")
  case True
  then obtain obs where obs: "fea_memory_pressure_observation cfg v a = Some obs" by auto
  show ?thesis
  proof (cases "map_of gs (a_node_name a)")
    case None
    have "group_ok cfg v rows (a_node_name a, obs, [a])" using True a obs by (simp add: group_ok_def)
    then show ?thesis using groups_update [OF wf] True None obs by (simp add: add_pressure_def)
  next
    case (Some g)
    obtain p as where g: "g = (p, as)" by (cases g)
    have ok: "group_ok cfg v rows (a_node_name a, p, as)" using Some g wf by (auto simp: groups_wf_def dest: map_of_SomeD)
    then obtain b where "a_node_name b = a_node_name a" "fea_memory_pressure_observation cfg v b = Some p"
      by (cases as) (auto simp: group_ok_def)
    then have p: "obs = p" using observation_node [of a b cfg v] obs by simp
    have "group_ok cfg v rows (a_node_name a, p, as @ [a])" using ok True a obs p by (auto simp: group_ok_def)
    then show ?thesis using groups_update [OF wf] True Some g obs p by (simp add: add_pressure_def)
  qed
qed (use wf in \<open>auto simp: add_pressure_def split: option.splits\<close>)

lemma pressured_groups_wf: "groups_wf cfg v (list_allocations_with_live d 500 5000) (pressured_allocations_by_node cfg v d)"
proof -
  have "groups_wf cfg v rows (fold (add_pressure cfg v) xs gs)"
    if "groups_wf cfg v rows gs" "set xs \<subseteq> set rows" for rows xs gs
    using that by (induction xs arbitrary: gs) (simp_all add: add_pressure_wf)
  from this [of _ "[]"] show ?thesis by (simp add: pressured_allocations_by_node_def groups_wf_def [of _ _ _ "[]"])
qed

text \<open>What the reclaims of some groups did to a state.\<close>

definition reclaim_ok ::
  "int \<Rightarrow> (string \<Rightarrow> pressure_sample \<Rightarrow> alloc_row \<Rightarrow> bool) \<Rightarrow> reclaim_state \<Rightarrow> reclaim_state \<Rightarrow> string \<Rightarrow> int \<Rightarrow> bool" where
  "reclaim_ok m hard st st' node i \<longleftrightarrow> (\<exists>t u p a. get_task (ss_db (rc_state st)) i = Some t \<and> reclaimable t
     \<and> hard node p a \<and> a_id a = allocation_of t \<and> snd (claim_fea_pressure_episode 300 (episode_of st node) p)
     \<and> get_task (ss_db (rc_state st')) i = Some u \<and> killed_row m t u)"

definition reclaimed_from ::
  "int \<Rightarrow> string list \<Rightarrow> (string \<Rightarrow> pressure_sample \<Rightarrow> alloc_row \<Rightarrow> bool) \<Rightarrow> reclaim_state \<Rightarrow> reclaim_state \<Rightarrow> (string \<times> int) list \<Rightarrow> bool" where
  "reclaimed_from m nodes hard st st' new \<longleftrightarrow> tasks_wf (ss_db (rc_state st'))
     \<and> rc_reclaims st' = rc_reclaims st @ new \<and> distinct (map fst new) \<and> distinct (map snd new) \<and> fst ` set new \<subseteq> set nodes
     \<and> (\<forall>i. i \<notin> snd ` set new \<longrightarrow> get_task (ss_db (rc_state st')) i = get_task (ss_db (rc_state st)) i)
     \<and> (\<forall>x \<in> set new. reclaim_ok m hard st st' (fst x) (snd x))
     \<and> (\<forall>node. node \<notin> set nodes \<longrightarrow> episode_of st' node = episode_of st node)"

lemma requeue_killed_wf:
  assumes "tasks_wf (ss_db s)"
  shows "tasks_wf (ss_db (requeue_pressure_killed_task lcfg m now t s))"
proof -
  have ids: "t_id (assign (pressure_requeue_fields t) r) = t_id r" "t_id (assign (pressure_failed_fields now t) r) = t_id r" for r
    by (simp_all add: pressure_requeue_fields_def pressure_failed_fields_def field_defs)
  have ev: "tasks_wf (record_event (ss_db s) a b c)" for a b c using assms by (simp add: tasks_wf_def record_event_def)
  show ?thesis using assms ev ids
    by (simp add: requeue_pressure_killed_task_def Let_def update_task_where update_tasks_where_wf)
qed

lemma reclaim_ok_running:
  "reclaim_ok m hard st st' node (t_id t) \<Longrightarrow> get_task (ss_db (rc_state st')) (t_id t) = Some t \<Longrightarrow> \<not> reclaimable t"
  by (auto simp: reclaim_ok_def killed_row_def reclaimable_def split: if_splits)

lemma reclaim_won:
  fixes lcfg now as cfg ep
  assumes r: "reclaimed_from m nodes hard st st' new" and fresh: "node \<notin> set nodes"
    and row: "get_task (ss_db (rc_state st')) (t_id t) = Some t" and t: "reclaimable t" and a: "a_id a = allocation_of t"
    and h: "hard node p a" and claimed: "snd (claim_fea_pressure_episode 300 (episode_of st' node) p)"
  defines "st'' \<equiv> reclaim_task cfg lcfg m now node as t (st'\<lparr>rc_episodes := AList.update node ep (rc_episodes st')\<rparr>)"
  shows "reclaimed_from m (nodes @ [node]) hard st st'' (new @ [(node, t_id t)])"
proof -
  note r' = r [unfolded reclaimed_from_def]
  have log: "rc_reclaims st' = rc_reclaims st @ new" using r' by (elim conjE)
  have state: "rc_state st'' = requeue_pressure_killed_task lcfg m now t (rc_state st')"
    "rc_reclaims st'' = rc_reclaims st @ (new @ [(node, t_id t)])"
    unfolding st''_def reclaim_task_def Let_def using log by simp_all
  have okall: "\<forall>x \<in> set new. reclaim_ok m hard st st' (fst x) (snd x)" using r' by (elim conjE)
  have notin: "t_id t \<notin> snd ` set new"
  proof
    assume "t_id t \<in> snd ` set new"
    then obtain x where "x \<in> set new" "snd x = t_id t" by (metis imageE)
    then have "reclaim_ok m hard st st' (fst x) (t_id t)" using okall by metis
    from reclaim_ok_running [OF this row] t show False by simp
  qed
  note kr = killed_requeue [OF row, where lcfg = lcfg and m = m and now = now]
  have other: "get_task (ss_db (rc_state st'')) i = get_task (ss_db (rc_state st')) i" if "i \<noteq> t_id t" for i
    unfolding state(1) by (rule kr(2) [OF that])
  have first: "get_task (ss_db (rc_state st)) (t_id t) = Some t" using r' notin row by metis
  have ep: "episode_of st'' n = episode_of st' n" if "n \<noteq> node" for n
    using that by (simp add: st''_def reclaim_task_def Let_def episode_of_def update_conv')
  have same: "episode_of st' node = episode_of st node" using r' fresh by blast
  have won: "reclaim_ok m hard st st'' node (t_id t)"
    unfolding reclaim_ok_def using first t h a claimed same kr(1) state(1) by auto
  have old: "reclaim_ok m hard st st'' (fst x) (snd x)" if "x \<in> set new" for x
  proof -
    have "snd x \<noteq> t_id t" using that notin by force
    then show ?thesis using okall [rule_format, OF that] other unfolding reclaim_ok_def by metis
  qed
  show ?thesis unfolding reclaimed_from_def
  proof (intro conjI allI impI ballI)
    show "tasks_wf (ss_db (rc_state st''))" unfolding state(1) using r' by (intro requeue_killed_wf) blast
    show "rc_reclaims st'' = rc_reclaims st @ (new @ [(node, t_id t)])" by (rule state(2))
    show "distinct (map fst (new @ [(node, t_id t)]))" using r' fresh by auto
    show "distinct (map snd (new @ [(node, t_id t)]))" using r' notin by auto
    show "fst ` set (new @ [(node, t_id t)]) \<subseteq> set (nodes @ [node])" using r' by auto
    show "get_task (ss_db (rc_state st'')) i = get_task (ss_db (rc_state st)) i"
      if "i \<notin> snd ` set (new @ [(node, t_id t)])" for i using that other r' by simp
    show "reclaim_ok m hard st st'' (fst x) (snd x)" if "x \<in> set (new @ [(node, t_id t)])" for x
      using that won old by auto
    show "episode_of st'' n = episode_of st n" if "n \<notin> set (nodes @ [node])" for n
      using that ep r' by simp
  qed
qed

lemma reclaim_node_step:
  assumes r: "reclaimed_from m nodes hard st st' new" and fresh: "node \<notin> set nodes"
    and ok: "ps_hard_pressure p \<Longrightarrow> \<forall>a \<in> set as. hard node p a"
  shows "\<exists>new'. reclaimed_from m (nodes @ [node]) hard st (reclaim_node cfg lcfg m now (node, p, as) st') new'"
proof -
  let ?st = "reclaim_node cfg lcfg m now (node, p, as) st'"
  obtain ep claimed where c: "claim_fea_pressure_episode 300 (episode_of st' node) p = (ep, claimed)" by fastforce
  define st1 where "st1 = st'\<lparr>rc_episodes := AList.update node ep (rc_episodes st')\<rparr>"
  have "episode_of st1 n = episode_of st' n" if "n \<noteq> node" for n
    using that by (simp add: st1_def episode_of_def update_conv')
  moreover have "reclaim_ok m hard st st1 = reclaim_ok m hard st st'" by (simp add: fun_eq_iff reclaim_ok_def st1_def)
  ultimately have quiet: "reclaimed_from m (nodes @ [node]) hard st x new" if "x = st' \<or> x = st1" for x
    using that r by (auto simp: reclaimed_from_def st1_def)
  show ?thesis
  proof (cases "ps_hard_pressure p \<and> claimed
      \<and> py_max newest_key (List.map_filter (newest_running_fea_task (ss_db (rc_state st'))) (map a_id as)) \<noteq> None")
    case False
    then have "?st = st' \<or> ?st = st1" by (auto simp: reclaim_node_def c st1_def Let_def simp del: py_max_None split: option.splits)
    then show ?thesis using quiet by blast
  next
    case True
    then obtain t where t: "py_max newest_key (List.map_filter (newest_running_fea_task (ss_db (rc_state st'))) (map a_id as)) = Some t"
      by blast
    have st: "?st = reclaim_task cfg lcfg m now node as t (st'\<lparr>rc_episodes := AList.update node ep (rc_episodes st')\<rparr>)"
      using True t by (simp add: reclaim_node_def c Let_def)
    obtain a where row: "t \<in> set (db_tasks (ss_db (rc_state st')))" "reclaimable t" and a: "a \<in> set as" "a_id a = allocation_of t"
      using reclaim_choice [OF t] by blast
    have "get_task (ss_db (rc_state st')) (t_id t) = Some t" using r row(1) by (simp add: reclaimed_from_def get_task_mem)
    from reclaim_won [OF r fresh this row(2) a(2)] show ?thesis unfolding st using ok a(1) True c by fastforce
  qed
qed

lemma reclaim_fold:
  assumes "reclaimed_from m nodes hard st st' new" and "distinct (nodes @ map fst gs)"
    and "\<forall>(node, p, as) \<in> set gs. ps_hard_pressure p \<longrightarrow> (\<forall>a \<in> set as. hard node p a)"
  shows "\<exists>new'. reclaimed_from m (nodes @ map fst gs) hard st (fold (reclaim_node cfg lcfg m now) gs st') new'"
  using assms
proof (induction gs arbitrary: nodes st' new)
  case (Cons g gs)
  obtain node p as where g: "g = (node, p, as)" by (cases g)
  obtain new' where "reclaimed_from m (nodes @ [node]) hard st (reclaim_node cfg lcfg m now g st') new'"
    using reclaim_node_step [OF Cons.prems(1), of node p as cfg lcfg now] Cons.prems(2,3) g by auto
  from Cons.IH [OF this] show ?case using Cons.prems(2,3) g by simp
qed auto

lemma handle_reclaims:
  assumes "tasks_wf (ss_db (rc_state st))"
  shows "\<exists>new. reclaimed_from m (map fst (pressured_allocations_by_node fcfg v (ss_db (rc_state st))))
    (\<lambda>node p a. ps_hard_pressure p \<and> a \<in> set (list_allocations_with_live (ss_db (rc_state st)) 500 5000) \<and> live_capacity_state a
       \<and> a_node_name a = node \<and> fea_memory_pressure_observation fcfg v a = Some p)
    st (handle_fea_memory_pressure cfg fcfg lcfg m v st) new"
proof -
  let ?gs = "pressured_allocations_by_node fcfg v (ss_db (rc_state st))"
  let ?hard = "\<lambda>node p a. ps_hard_pressure p \<and> a \<in> set (list_allocations_with_live (ss_db (rc_state st)) 500 5000)
    \<and> live_capacity_state a \<and> a_node_name a = node \<and> fea_memory_pressure_observation fcfg v a = Some p"
  have wf: "groups_wf fcfg v (list_allocations_with_live (ss_db (rc_state st)) 500 5000) ?gs" by (rule pressured_groups_wf)
  have start: "reclaimed_from m [] ?hard st st []" using assms by (simp add: reclaimed_from_def)
  have "\<exists>new. reclaimed_from m ([] @ map fst ?gs) ?hard st (fold (reclaim_node cfg lcfg m (fv_now v)) ?gs st) new"
    by (rule reclaim_fold [OF start]) (use wf in \<open>auto simp: groups_wf_def group_ok_def\<close>)
  then obtain new where r: "reclaimed_from m (map fst ?gs) ?hard st (fold (reclaim_node cfg lcfg m (fv_now v)) ?gs st) new" by auto
  define st1 where "st1 = fold (reclaim_node cfg lcfg m (fv_now v)) ?gs st"
  let ?st2 = "st1\<lparr>rc_state := on_db (recalculate_allocation_capacity (fv_now v) None) (rc_state st1)\<rparr>"
  have get: "get_task (ss_db (rc_state ?st2)) = get_task (ss_db (rc_state st1))" by (simp add: fun_eq_iff get_task_def)
  have twf: "tasks_wf (ss_db (rc_state ?st2)) = tasks_wf (ss_db (rc_state st1))" by (simp add: tasks_wf_def)
  have ok: "reclaim_ok m ?hard st ?st2 = reclaim_ok m ?hard st st1" unfolding fun_eq_iff reclaim_ok_def get by simp
  have ep: "episode_of ?st2 = episode_of st1" by (simp add: fun_eq_iff episode_of_def)
  have lg: "rc_reclaims ?st2 = rc_reclaims st1" by simp
  have "reclaimed_from m (map fst ?gs) ?hard st ?st2 new"
    using r unfolding st1_def [symmetric] reclaimed_from_def get twf ok ep lg .
  moreover have "handle_fea_memory_pressure cfg fcfg lcfg m v st = st1 \<or> handle_fea_memory_pressure cfg fcfg lcfg m v st = ?st2"
    by (simp add: handle_fea_memory_pressure_def Let_def st1_def)
  ultimately show ?thesis using r unfolding st1_def [symmetric] by fastforce
qed


text \<open>A history of ticks: before each one the rest of the system changes the state by \<open>others\<close>.\<close>

definition pressure_history ::
  "sched_config \<Rightarrow> fea_config \<Rightarrow> license_config \<Rightarrow> int \<Rightarrow> ((reclaim_state \<Rightarrow> reclaim_state) \<times> fea_view) list \<Rightarrow> reclaim_state \<Rightarrow> reclaim_state" where
  "pressure_history cfg fcfg lcfg m ticks st =
     fold (\<lambda>(others, v) st. handle_fea_memory_pressure cfg fcfg lcfg m v (others st)) ticks st"

text \<open>The rest of the system keeps the attempts of a task and its failure.\<close>

definition keeps_attempts :: "int \<Rightarrow> (reclaim_state \<Rightarrow> reclaim_state) \<Rightarrow> bool" where
  "keeps_attempts i others \<longleftrightarrow> (\<forall>st. (tasks_wf (ss_db (rc_state st)) \<longrightarrow> tasks_wf (ss_db (rc_state (others st))))
     \<and> rc_reclaims (others st) = rc_reclaims st
     \<and> (\<forall>t. get_task (ss_db (rc_state st)) i = Some t \<longrightarrow> (\<exists>u. get_task (ss_db (rc_state (others st))) i = Some u
          \<and> t_attempt_count u = t_attempt_count t \<and> (t_status t = Failed \<longrightarrow> t_status u = Failed))))"

definition kills_of :: "int \<Rightarrow> reclaim_state \<Rightarrow> int" where
  "kills_of i st = int (length (filter (\<lambda>x. snd x = i) (rc_reclaims st)))"

definition kill_budget :: "int \<Rightarrow> int \<Rightarrow> int \<Rightarrow> int \<Rightarrow> reclaim_state \<Rightarrow> bool" where
  "kill_budget m a0 k0 i st \<longleftrightarrow> tasks_wf (ss_db (rc_state st)) \<and> (\<exists>t. get_task (ss_db (rc_state st)) i = Some t
     \<and> t_attempt_count t = a0 + (kills_of i st - k0) \<and> k0 \<le> kills_of i st \<and> kills_of i st - k0 \<le> max 1 (m - a0)
     \<and> (k0 < kills_of i st \<and> m \<le> t_attempt_count t \<longrightarrow> t_status t = Failed))"

lemma kill_budget_others: "kill_budget m a0 k0 i st \<Longrightarrow> keeps_attempts i others \<Longrightarrow> kill_budget m a0 k0 i (others st)"
  unfolding kill_budget_def keeps_attempts_def kills_of_def by (smt (verit))

lemma filter_snd_distinct: "distinct (map snd xs) \<Longrightarrow> i \<in> snd ` set xs \<Longrightarrow> length (filter (\<lambda>x. snd x = i) xs) = 1"
  by (induction xs) (auto simp: filter_empty_conv image_iff)

lemma kill_budget_handle:
  assumes "kill_budget m a0 k0 i st"
  shows "kill_budget m a0 k0 i (handle_fea_memory_pressure cfg fcfg lcfg m v st)"
proof -
  let ?st = "handle_fea_memory_pressure cfg fcfg lcfg m v st"
  have wf: "tasks_wf (ss_db (rc_state st))" using assms by (simp add: kill_budget_def)
  obtain nodes hard new where r: "reclaimed_from m nodes hard st ?st new" using handle_reclaims [OF wf] by blast
  obtain t where t: "get_task (ss_db (rc_state st)) i = Some t" "t_attempt_count t = a0 + (kills_of i st - k0)" "k0 \<le> kills_of i st"
    "kills_of i st - k0 \<le> max 1 (m - a0)" "k0 < kills_of i st \<and> m \<le> t_attempt_count t \<longrightarrow> t_status t = Failed"
    using assms unfolding kill_budget_def by blast
  have r': "tasks_wf (ss_db (rc_state ?st))" "rc_reclaims ?st = rc_reclaims st @ new" "distinct (map snd new)"
    "i \<notin> snd ` set new \<Longrightarrow> get_task (ss_db (rc_state ?st)) i = get_task (ss_db (rc_state st)) i"
    and each: "\<And>x. x \<in> set new \<Longrightarrow> reclaim_ok m hard st ?st (fst x) (snd x)"
    using r unfolding reclaimed_from_def by auto
  show ?thesis
  proof (cases "i \<in> snd ` set new")
    case False
    then have "filter (\<lambda>x. snd x = i) new = []" by (auto simp: filter_empty_conv)
    then have "kills_of i ?st = kills_of i st" using r'(2) by (simp add: kills_of_def)
    then show ?thesis using t r'(1) r'(4) [OF False] unfolding kill_budget_def by auto
  next
    case True
    have k: "kills_of i ?st = kills_of i st + 1" using r'(2) filter_snd_distinct [OF r'(3) True] by (simp add: kills_of_def)
    obtain x where "x \<in> set new" "snd x = i" using True by auto
    then obtain u where u: "get_task (ss_db (rc_state ?st)) i = Some u" "killed_row m t u" "reclaimable t"
      using each [of x] t(1) unfolding reclaim_ok_def by auto
    then have "\<not> (k0 < kills_of i st \<and> m \<le> t_attempt_count t)" using t(5) by (auto simp: reclaimable_def)
    then show ?thesis unfolding kill_budget_def using r'(1) u k t(2-4) by (auto simp: killed_row_def)
  qed
qed

text \<open>C13. Pressure kills come to an end: over any history of ticks, interleaved with whatever the rest of
  the system does as long as it keeps the attempts of the task and its failure, one task is killed for
  memory pressure at most as often as the attempts allow (and at most once when they are already used
  up); once the limit is reached it is failed.\<close>

theorem pressure_kills_bounded:
  assumes "tasks_wf (ss_db (rc_state st))" and "get_task (ss_db (rc_state st)) i = Some t"
    and "list_all (keeps_attempts i \<circ> fst) ticks"
  shows "kills_of i (pressure_history cfg fcfg lcfg m ticks st) - kills_of i st \<le> max 1 (m - t_attempt_count t)
    \<and> (\<exists>u. get_task (ss_db (rc_state (pressure_history cfg fcfg lcfg m ticks st))) i = Some u
        \<and> (kills_of i st < kills_of i (pressure_history cfg fcfg lcfg m ticks st) \<and> m \<le> t_attempt_count u \<longrightarrow> t_status u = Failed))"
proof -
  have "kill_budget m (t_attempt_count t) (kills_of i st) i st" using assms(1,2) by (simp add: kill_budget_def)
  moreover have "kill_budget m a0 k0 i s \<Longrightarrow> kill_budget m a0 k0 i (pressure_history cfg fcfg lcfg m ticks s)" for a0 k0 s
    using assms(3) unfolding pressure_history_def
    by (induction ticks arbitrary: s) (auto simp: kill_budget_handle kill_budget_others)
  ultimately have "kill_budget m (t_attempt_count t) (kills_of i st) i (pressure_history cfg fcfg lcfg m ticks st)" by blast
  then show ?thesis unfolding kill_budget_def by blast
qed

section \<open>Cancellation is exact\<close>

lemma cancel_attempt_lost: "\<not> snd (cancel_attempt lcfg now t s) \<Longrightarrow> fst (cancel_attempt lcfg now t s) = s"
  by (auto simp: cancel_attempt_def update_task_if_status_def cancelled_fields_def Let_def update_tasks_where_def
      split: if_splits option.splits prod.splits)

lemma cancel_attempt_won:
  assumes "tasks_wf (ss_db s)" and "snd (cancel_attempt lcfg now t s)"
  shows "\<exists>r u. get_task (ss_db s) (t_id t) = Some r \<and> t_status r = t_status t
    \<and> get_task (ss_db (fst (cancel_attempt lcfg now t s))) (t_id t) = Some u \<and> t_status u = Cancelled"
    "i \<noteq> t_id t \<Longrightarrow> get_task (ss_db (fst (cancel_attempt lcfg now t s))) i = get_task (ss_db s) i"
proof -
  let ?P = "\<lambda>r. t_status r \<in> set [t_status t]"
  let ?u = "update_tasks_where now (ss_db s) (t_id t) ?P (cancelled_fields now)"
  have won: "snd ?u" "db_tasks (ss_db (fst (cancel_attempt lcfg now t s))) = db_tasks (fst ?u)"
    using assms(2) by (auto simp: cancel_attempt_def update_task_if_status_def cancelled_fields_def Let_def
        split: if_splits option.splits prod.splits)
  have id: "t_id (assign (cancelled_fields now) r) = t_id r" for r by (simp add: field_defs)
  have get: "get_task (ss_db (fst (cancel_attempt lcfg now t s))) j =
      map_option (\<lambda>r. if t_id r = t_id t \<and> ?P r then touch_task now (assign (cancelled_fields now) r) else r) (get_task (ss_db s) j)" for j
    using won(2) get_task_where [OF id, of now "ss_db s" "t_id t" ?P j] by (simp add: get_task_def)
  obtain r where r: "get_task (ss_db s) (t_id t) = Some r" "t_status r = t_status t"
    using won(1) update_tasks_where_snd [OF assms(1)] by auto
  show "\<exists>r u. get_task (ss_db s) (t_id t) = Some r \<and> t_status r = t_status t
    \<and> get_task (ss_db (fst (cancel_attempt lcfg now t s))) (t_id t) = Some u \<and> t_status u = Cancelled"
    using r get_task_key [OF r(1)] by (simp add: get field_defs)
  show "get_task (ss_db (fst (cancel_attempt lcfg now t s))) i = get_task (ss_db s) i" if "i \<noteq> t_id t"
    using that by (cases "get_task (ss_db s) i") (auto simp: get dest: get_task_key)
qed

definition cancel_outcome ::
  "(nat \<Rightarrow> sched_state \<Rightarrow> sched_state) \<Rightarrow> int \<Rightarrow> task_status list \<Rightarrow> nat \<Rightarrow> sched_state \<Rightarrow> sched_state \<times> cancel_result result \<Rightarrow> bool" where
  "cancel_outcome others tid wanted n s out \<longleftrightarrow>
     (case snd out of
        Inr (CancelWon st) \<Rightarrow> \<exists>k<n. \<exists>r u. st \<in> set cancellable \<and> st \<in> set wanted
          \<and> get_task (ss_db (fold others (rev [k..<n]) s)) tid = Some r \<and> t_status r = st
          \<and> get_task (ss_db (fst out)) tid = Some u \<and> t_status u = Cancelled
          \<and> (\<forall>i. i \<noteq> tid \<longrightarrow> get_task (ss_db (fst out)) i = get_task (ss_db (fold others (rev [k..<n]) s)) i)
      | _ \<Rightarrow> \<exists>k\<le>n. fst out = fold others (rev [k..<n]) s)"

lemma cancel_outcome_stop:
  "(\<And>st. snd out \<noteq> Inr (CancelWon st)) \<Longrightarrow> fst out = s \<Longrightarrow> cancel_outcome others tid wanted n s out"
  by (auto simp: cancel_outcome_def split: sum.splits cancel_result.splits intro!: exI [of _ n])

lemma cancel_outcome_later:
  assumes "cancel_outcome others tid wanted n (others n s) out"
  shows "cancel_outcome others tid wanted (Suc n) s out"
proof -
  have later: "fold others (rev [k..<n]) (others n s) = fold others (rev [k..<Suc n]) s" if "k \<le> n" for k using that by simp
  show ?thesis
  proof (cases "\<exists>st. snd out = Inr (CancelWon st)")
    case True
    then obtain st where won: "snd out = Inr (CancelWon st)" by blast
    obtain k r u where k: "k < n" and out: "st \<in> set cancellable \<and> st \<in> set wanted
      \<and> get_task (ss_db (fold others (rev [k..<n]) (others n s))) tid = Some r \<and> t_status r = st
      \<and> get_task (ss_db (fst out)) tid = Some u \<and> t_status u = Cancelled
      \<and> (\<forall>i. i \<noteq> tid \<longrightarrow> get_task (ss_db (fst out)) i = get_task (ss_db (fold others (rev [k..<n]) (others n s))) i)"
      using assms unfolding cancel_outcome_def won sum.case cancel_result.case by blast
    show ?thesis unfolding cancel_outcome_def won sum.case cancel_result.case
      using out k unfolding later [OF less_imp_le [OF k]] by (intro exI [of _ k] exI [of _ r] exI [of _ u]) (simp del: upt_Suc)
  next
    case False
    then obtain k where "k \<le> n" "fst out = fold others (rev [k..<n]) (others n s)"
      using assms by (auto simp: cancel_outcome_def split: sum.splits cancel_result.splits)
    then have "\<exists>k\<le>Suc n. fst out = fold others (rev [k..<Suc n]) s" using later [of k] by (intro exI [of _ k]) (simp del: upt_Suc)
    then show ?thesis using False unfolding cancel_outcome_def by (auto split: sum.splits cancel_result.splits simp del: upt_Suc)
  qed
qed

lemma cancel_rounds_outcome:
  assumes "tasks_wf (ss_db s)" and "\<forall>k s. tasks_wf (ss_db s) \<longrightarrow> tasks_wf (ss_db (others k s))"
  shows "cancel_outcome others tid wanted n s (cancel_rounds lcfg others now tid wanted n s)"
  using assms(1)
proof (induction n arbitrary: s)
  case 0
  show ?case by (rule cancel_outcome_stop) (auto split: option.splits)
next
  case (Suc n)
  show ?case
  proof (cases "get_task (ss_db s) tid")
    case (Some t)
    have tid: "t_id t = tid" by (rule get_task_key [OF Some])
    show ?thesis
    proof (cases "t_status t \<in> set cancellable \<and> t_status t \<in> set wanted")
      case ok: True
      have wf: "tasks_wf (ss_db (others n s))" using assms(2) Suc.prems by blast
      show ?thesis
      proof (cases "snd (cancel_attempt lcfg now t (others n s))")
        case True
        then have out: "cancel_rounds lcfg others now tid wanted (Suc n) s
            = (fst (cancel_attempt lcfg now t (others n s)), Inr (CancelWon (t_status t)))"
          using Some ok by (simp add: split_beta)
        show ?thesis unfolding out cancel_outcome_def using cancel_attempt_won [OF wf True] tid ok
          by (auto intro!: exI [of _ n])
      next
        case False
        then have "cancel_rounds lcfg others now tid wanted (Suc n) s = cancel_rounds lcfg others now tid wanted n (others n s)"
          using Some ok cancel_attempt_lost [OF False] by (simp add: split_beta)
        then show ?thesis using cancel_outcome_later Suc.IH [OF wf] by simp
      qed
    qed (rule cancel_outcome_stop, use Some in auto)
  qed (rule cancel_outcome_stop, auto)
qed

text \<open>C14. Cancellation is exact: whatever other threads do between the reads and the conditional writes,
  a request reports a cancellation only if at the moment of its one write the row had a cancellable
  status among the ones the caller asked for, and then exactly that row becomes cancelled; in every
  other outcome (missing task, mismatch, four lost races) the request itself writes nothing.\<close>

theorem request_cancel_exact:
  assumes "tasks_wf (ss_db s)" and "\<forall>k s. tasks_wf (ss_db s) \<longrightarrow> tasks_wf (ss_db (others k s))"
  shows "case snd (request_cancel_task lcfg others now tid (Some wanted) s) of
      Inr (CancelWon st) \<Rightarrow> \<exists>k<4. \<exists>r u. st \<in> set cancellable \<and> st \<in> set wanted
        \<and> get_task (ss_db (fold others (rev [k..<4]) s)) tid = Some r \<and> t_status r = st
        \<and> get_task (ss_db (fst (request_cancel_task lcfg others now tid (Some wanted) s))) tid = Some u \<and> t_status u = Cancelled
        \<and> (\<forall>i. i \<noteq> tid \<longrightarrow> get_task (ss_db (fst (request_cancel_task lcfg others now tid (Some wanted) s))) i
             = get_task (ss_db (fold others (rev [k..<4]) s)) i)
    | _ \<Rightarrow> \<exists>k\<le>4. fst (request_cancel_task lcfg others now tid (Some wanted) s) = fold others (rev [k..<4]) s"
  using cancel_rounds_outcome [OF assms, of tid wanted 4 lcfg now]
  unfolding cancel_outcome_def request_cancel_task_def option.case .

text \<open>Progress: the status a round reads is the one it writes against.\<close>

definition status_of :: "sched_state \<Rightarrow> int \<Rightarrow> task_status option" where
  "status_of s i = map_option t_status (get_task (ss_db s) i)"

lemma cancel_attempt_wins:
  assumes "tasks_wf (ss_db s)" and "status_of s (t_id t) = Some (t_status t)" and "t_status t \<in> set cancellable"
  shows "snd (cancel_attempt lcfg now t s)"
proof -
  have "snd (update_tasks_where now (ss_db s) (t_id t) (\<lambda>r. t_status r \<in> set [t_status t]) (cancelled_fields now))"
    using assms(1,2) by (auto simp: update_tasks_where_snd status_of_def)
  then show ?thesis using assms(3)
    by (auto simp: cancel_attempt_def update_task_if_status_def cancelled_fields_def cancellable_def Let_def
        split: prod.splits option.splits)
qed

lemma cancel_rounds_progress:
  assumes "tasks_wf (ss_db s)" and "\<forall>k s. tasks_wf (ss_db s) \<longrightarrow> tasks_wf (ss_db (others k s))"
    and "k < n" and "status_of (fold others (rev [k..<n]) s) tid = status_of (fold others (rev [Suc k..<n]) s) tid"
    and "\<forall>j. k < j \<and> j \<le> n \<longrightarrow> (\<exists>st. status_of (fold others (rev [j..<n]) s) tid = Some st \<and> st \<in> set cancellable \<and> st \<in> set wanted)"
  shows "\<exists>st. snd (cancel_rounds lcfg others now tid wanted n s) = Inr (CancelWon st)"
  using assms(1,3-5)
proof (induction n arbitrary: s)
  case (Suc n)
  have wf: "tasks_wf (ss_db (others n s))" using assms(2) Suc.prems(1) by blast
  obtain t where t: "get_task (ss_db s) tid = Some t" "t_status t \<in> set cancellable" "t_status t \<in> set wanted"
    using Suc.prems(2) spec [OF Suc.prems(4), of "Suc n"] by (auto simp: status_of_def)
  show ?case
  proof (cases "snd (cancel_attempt lcfg now t (others n s))")
    case True
    then show ?thesis using t by (simp add: split_beta)
  next
    case False
    have "k \<noteq> n"
    proof
      assume "k = n"
      then have "status_of (others n s) tid = Some (t_status t)" using Suc.prems(3) t(1) by (simp add: status_of_def)
      then show False using cancel_attempt_wins [OF wf, of t] t(2) get_task_key [OF t(1)] False by simp
    qed
    then have k: "k < n" using Suc.prems(2) by simp
    have "\<exists>st. snd (cancel_rounds lcfg others now tid wanted n (others n s)) = Inr (CancelWon st)"
    proof (rule Suc.IH [OF wf k])
      show "status_of (fold others (rev [k..<n]) (others n s)) tid = status_of (fold others (rev [Suc k..<n]) (others n s)) tid"
        using Suc.prems(3) k by simp
      show "\<forall>j. k < j \<and> j \<le> n \<longrightarrow> (\<exists>st. status_of (fold others (rev [j..<n]) (others n s)) tid = Some st
          \<and> st \<in> set cancellable \<and> st \<in> set wanted)" using Suc.prems(4) by (auto dest: spec)
    qed
    then show ?thesis using t False cancel_attempt_lost [OF False] by (simp add: split_beta)
  qed
qed simp


section \<open>Lost references\<close>

lemma get_update_task:
  assumes "cols \<noteq> []" and "\<And>r. t_id (assign cols r) = t_id r"
  shows "get_task (update_task now d j cols) i = map_option (\<lambda>r. if t_id r = j then touch_task now (assign cols r) else r) (get_task d i)"
  using assms get_task_where [of cols now d j "\<lambda>_. True" i] by (simp add: update_task_where)

lemma get_failed:
  "get_task (update_task now d j (failed_fields now msg)) i =
     map_option (\<lambda>r. if t_id r = j then touch_task now (assign (failed_fields now msg) r) else r) (get_task d i)"
  by (rule get_update_task) (simp_all add: field_defs)

lemma same_node_step:
  "get_task (ss_db (fail_stale_same_node_task lcfg now t s)) i =
     (case stale_reference (ss_db s) t of None \<Rightarrow> get_task (ss_db s) i
      | Some msg \<Rightarrow> map_option (\<lambda>r. if t_id r = t_id t then touch_task now (assign (failed_fields now msg) r) else r) (get_task (ss_db s) i))"
  by (simp add: fail_stale_same_node_task_def Let_def get_failed get_task_def split: option.split)
    (simp add: get_failed [unfolded get_task_def])

lemma same_node_frame:
  "i \<notin> t_id ` set ts \<Longrightarrow> get_task (ss_db (fold (fail_stale_same_node_task lcfg now) ts s)) i = get_task (ss_db s) i"
proof (induction ts arbitrary: s)
  case (Cons t ts)
  have "get_task (ss_db (fail_stale_same_node_task lcfg now t s)) i = get_task (ss_db s) i"
    using Cons.prems by (cases "get_task (ss_db s) i") (auto simp: same_node_step dest: get_task_key split: option.split)
  then show ?case using Cons by simp
qed simp

lemma nonterminal_listed:
  assumes "length (filter (\<lambda>t. t_status t \<in> {Queued, Attaching, Running}) (db_tasks d)) \<le> 5000"
  shows "set (list_tasks_by_statuses d [Queued, Attaching, Running] 5000) = {t \<in> set (db_tasks d). t_status t \<notin> terminal_statuses}"
    "distinct (map t_id (db_tasks d)) \<Longrightarrow> distinct (map t_id (list_tasks_by_statuses d [Queued, Attaching, Running] 5000))"
proof -
  have all: "list_tasks_by_statuses d [Queued, Attaching, Running] 5000
      = filter (\<lambda>t. t_status t \<in> set [Queued, Attaching, Running]) (sort_desc t_id (db_tasks d))"
    by (rule list_tasks_by_statuses_all) (use assms in simp)
  have "(st \<in> set [Queued, Attaching, Running]) = (st \<notin> terminal_statuses)" for st
    by (cases st) (simp_all add: terminal_statuses_def)
  then show "set (list_tasks_by_statuses d [Queued, Attaching, Running] 5000) = {t \<in> set (db_tasks d). t_status t \<notin> terminal_statuses}"
    unfolding all by auto
  show "distinct (map t_id (list_tasks_by_statuses d [Queued, Attaching, Running] 5000))" if "distinct (map t_id (db_tasks d))"
    unfolding all using that by (intro distinct_map_filter) (simp add: distinct_map_sort_desc)
qed


section \<open>Concrete runs\<close>

text \<open>A node with 5000 of 64000 MB free is under the hard limit of 10 percent; the rescue sample has
  half of the memory free.\<close>

definition pressure_view :: "int \<Rightarrow> int \<Rightarrow> fea_view" where
  "pressure_view now free = demo_view\<lparr>fv_now := now, fv_pestat := [(\<lparr>pn_hostname = ''n1'', pn_partition = ''cpu'', pn_state = ''mix'',
     pn_cpu_used = 8, pn_cpu_total = 16, pn_cpu_load = 2, pn_memory_mb = 64000, pn_free_memory_mb = free\<rparr>, At now)]\<rparr>"

definition pressure_state :: reclaim_state where
  "pressure_state = \<lparr>rc_state = demo_place_state\<lparr>ss_db := (ss_db demo_place_state)\<lparr>db_tasks :=
     [(demo_fea_task 1)\<lparr>t_status := Running, t_allocation_id := Some 7, t_attached_at := At 5\<rparr>,
      (demo_fea_task 2)\<lparr>t_status := Running, t_allocation_id := Some 7, t_attached_at := At 6\<rparr>]\<rparr>\<rparr>,
     rc_episodes = [], rc_cancelled = [], rc_reclaims = []\<rparr>"


theorem pressure_kills_bounded_witness:
  "kills_of 2 (pressure_history demo_config demo_fea_config demo_license_config 1
      [(\<lambda>s. s, pressure_view 10000000 5000), (\<lambda>s. s, pressure_view 20000000 4000)] pressure_state) = 1
   \<and> kills_of 2 (pressure_history demo_config demo_fea_config demo_license_config 1
      [(\<lambda>s. s, pressure_view 10000000 5000), (\<lambda>s. s, pressure_view 20000000 4000)] pressure_state) - kills_of 2 pressure_state \<le> max 1 (1 - 0)"
proof -
  let ?ticks = "[(\<lambda>s. s, pressure_view 10000000 5000), (\<lambda>s. s, pressure_view 20000000 4000)]"
  have run: "kills_of 2 (pressure_history demo_config demo_fea_config demo_license_config 1 ?ticks pressure_state) = 1" by code_simp
  have wf: "tasks_wf (ss_db (rc_state pressure_state))" by code_simp
  have "map_option t_attempt_count (get_task (ss_db (rc_state pressure_state)) 2) = Some 0" by code_simp
  then obtain t where t: "get_task (ss_db (rc_state pressure_state)) 2 = Some t" "t_attempt_count t = 0" by auto
  have keeps: "list_all (keeps_attempts 2 \<circ> fst) ?ticks" by (simp add: keeps_attempts_def)
  from pressure_kills_bounded [OF wf t(1) keeps, of demo_config demo_fea_config demo_license_config 1] t(2) run
  show ?thesis by auto
qed

text \<open>A claim slips in between the first read and its write; the second round cancels the attaching task.\<close>

definition racing_claim :: "nat \<Rightarrow> sched_state \<Rightarrow> sched_state" where
  "racing_claim k s = (if k = 3 then on_db (\<lambda>d. update_task 5 d 1 [t_status_update (\<lambda>_. Attaching)]) s else s)"

lemma racing_claim_wf: "\<forall>k s. tasks_wf (ss_db s) \<longrightarrow> tasks_wf (ss_db (racing_claim k s))"
  by (simp add: racing_claim_def update_task_where update_tasks_where_wf)

theorem request_cancel_exact_witness:
  "snd (request_cancel_task demo_license_config racing_claim 9 1 (Some [Queued, Attaching]) one_task_state) = Inr (CancelWon Attaching)
   \<and> (\<exists>u. get_task (ss_db (fst (request_cancel_task demo_license_config racing_claim 9 1 (Some [Queued, Attaching]) one_task_state))) 1
        = Some u \<and> t_status u = Cancelled)
   \<and> snd (request_cancel_task demo_license_config racing_claim 9 1 (Some [Queued]) one_task_state) = Inr (StatusMismatch Attaching)"
proof -
  have wf: "tasks_wf (ss_db one_task_state)" using one_task_unclaimed by (simp add: unclaimed_def)
  have won: "snd (request_cancel_task demo_license_config racing_claim 9 1 (Some [Queued, Attaching]) one_task_state) = Inr (CancelWon Attaching)"
    "snd (request_cancel_task demo_license_config racing_claim 9 1 (Some [Queued]) one_task_state) = Inr (StatusMismatch Attaching)"
    by code_simp+
  show ?thesis using request_cancel_exact [OF wf racing_claim_wf, of demo_license_config 9 1 "[Queued, Attaching]"] won by auto
qed



end
