(* ===== verification/Launch_Spec.thy ===== *)
theory Launch_Spec
  imports Attach
begin

text \<open>
  What the attach protocol promises, as a small abstract machine: a task is idle, reserved under a
  token that was never used before, started under that token, or over. Crossing from reserved to
  started may grant one permit to launch, and a launch uses a permit up. The attach world of
  \<open>Attach\<close> refines this machine: every action is matched by steps of the machine.
\<close>

section \<open>The abstract machine\<close>

datatype phase = Idle | Reserved string | Started string | Over

record protocol =
  pr_used :: "string set"
  pr_phase :: "int \<Rightarrow> phase option"
  pr_permits :: "(int \<times> string) set"
  pr_launched :: "(int \<times> string) list"

definition phase_settles :: "phase \<Rightarrow> phase \<Rightarrow> bool" where
  "phase_settles p q = (p = q \<or> (p \<noteq> Over \<and> (q = Idle \<or> q = Over \<or> (\<exists>k. p = Reserved k \<and> q = Started k))))"

inductive protocol_step :: "protocol \<Rightarrow> protocol \<Rightarrow> bool" where
  burn: "k \<notin> pr_used s \<Longrightarrow> protocol_step s (s\<lparr>pr_used := insert k (pr_used s)\<rparr>)"
| reserve: "k \<notin> pr_used s \<Longrightarrow> pr_phase s i = Some p \<Longrightarrow> p \<noteq> Over \<Longrightarrow>
    protocol_step s (s\<lparr>pr_used := insert k (pr_used s), pr_phase := (pr_phase s)(i \<mapsto> Reserved k)\<rparr>)"
| grant: "pr_phase s i = Some (Reserved k) \<Longrightarrow>
    protocol_step s (s\<lparr>pr_phase := (pr_phase s)(i \<mapsto> Started k), pr_permits := insert (i, k) (pr_permits s)\<rparr>)"
| launch: "x \<in> pr_permits s \<Longrightarrow>
    protocol_step s (s\<lparr>pr_permits := pr_permits s - {x}, pr_launched := pr_launched s @ [x]\<rparr>)"
| settle: "(\<And>i. rel_option phase_settles (pr_phase s i) (f i)) \<Longrightarrow> protocol_step s (s\<lparr>pr_phase := f\<rparr>)"
| crash: "protocol_step s (s\<lparr>pr_permits := {}\<rparr>)"

definition protocol_inv :: "protocol \<Rightarrow> bool" where
  "protocol_inv s = (distinct (pr_launched s) \<and> pr_permits s \<inter> set (pr_launched s) = {}
     \<and> (\<forall>x \<in> pr_permits s \<union> set (pr_launched s). snd x \<in> pr_used s \<and> pr_phase s (fst x) \<noteq> Some (Reserved (snd x)))
     \<and> (\<forall>i k. pr_phase s i = Some (Reserved k) \<longrightarrow> k \<in> pr_used s))"

lemma settles_reserved: "rel_option phase_settles p (Some (Reserved k)) \<Longrightarrow> p = Some (Reserved k)"
  by (cases p) (auto simp: phase_settles_def)

lemma protocol_inv_step: "protocol_step s s' \<Longrightarrow> protocol_inv s \<Longrightarrow> protocol_inv s'"
proof (induction rule: protocol_step.induct)
  case (settle s f)
  have keep: "f i = Some (Reserved k) \<Longrightarrow> pr_phase s i = Some (Reserved k)" for i k
    using settle.hyps [of i] settles_reserved by metis
  show ?case using settle.prems keep unfolding protocol_inv_def by simp blast
next
  case (grant s i k)
  then have "(i, k) \<notin> pr_permits s \<union> set (pr_launched s)" by (force simp: protocol_inv_def)
  then show ?case using grant by (auto simp: protocol_inv_def)
qed (auto simp: protocol_inv_def split: if_splits)

lemma protocol_inv_run: "protocol_step\<^sup>*\<^sup>* s s' \<Longrightarrow> protocol_inv s \<Longrightarrow> protocol_inv s'"
  by (induction rule: rtranclp_induct) (auto intro: protocol_inv_step)

section \<open>The abstraction\<close>

definition phase_of :: "task_row \<Rightarrow> phase" where
  "phase_of t = (if t_status t \<in> terminal_statuses then Over
     else if t_attach_token t = [] then Idle
     else if t_launch_started_at t = Blank then Reserved (t_attach_token t) else Started (t_attach_token t))"

definition protocol_of :: "attach_world \<Rightarrow> protocol" where
  "protocol_of w = \<lparr>pr_used = set (aw_tokens w), pr_phase = (\<lambda>i. map_option phase_of (get_task (world_db w) i)),
     pr_permits = set (map thread_pair (filter (\<lambda>th. at_pc th = PcLaunch) (aw_threads w))), pr_launched = aw_launched w\<rparr>"

interpretation settles: row_relation "\<lambda>t u. phase_settles (phase_of t) (phase_of u)"
proof unfold_locales
  show "phase_settles (phase_of t) (phase_of t)" for t by (simp add: phase_settles_def)
  show "phase_settles (phase_of t) (phase_of u) \<Longrightarrow> phase_settles (phase_of u) (phase_of v) \<Longrightarrow> phase_settles (phase_of t) (phase_of v)" for t u v
    by (auto simp: phase_settles_def)
  show "t_status t \<notin> terminal_statuses \<Longrightarrow> safe_change t u \<Longrightarrow> phase_settles (phase_of t) (phase_of u)" for t u
    by (auto simp: phase_settles_def phase_of_def safe_change_def)
qed

lemma settle_world:
  assumes "rel_db (\<lambda>t u. phase_settles (phase_of t) (phase_of u)) (world_db w) (world_db w')"
    and "aw_tokens w' = aw_tokens w" "aw_launched w' = aw_launched w"
    and "pr_permits (protocol_of w') = pr_permits (protocol_of w)"
  shows "protocol_step (protocol_of w) (protocol_of w')"
proof -
  have "protocol_of w' = (protocol_of w)\<lparr>pr_phase := pr_phase (protocol_of w')\<rparr>" using assms(2-4) by (simp add: protocol_of_def)
  moreover have "rel_option phase_settles (pr_phase (protocol_of w) i) (pr_phase (protocol_of w') i)" for i
    using assms(1) by (simp add: rel_db_def protocol_of_def option.rel_map)
  ultimately show ?thesis using protocol_step.settle by metis
qed

lemma grant_world:
  assumes "get_task (world_db w) i = Some t" "phase_of t = Reserved k" "get_task (world_db w') i = Some u" "phase_of u = Started k"
    and "\<And>j. j \<noteq> i \<Longrightarrow> get_task (world_db w') j = get_task (world_db w) j"
    and "aw_tokens w' = aw_tokens w" "aw_launched w' = aw_launched w"
    and "pr_permits (protocol_of w') = insert (i, k) (pr_permits (protocol_of w))"
  shows "protocol_step (protocol_of w) (protocol_of w')"
proof -
  have "protocol_of w' = (protocol_of w)\<lparr>pr_phase := (pr_phase (protocol_of w))(i \<mapsto> Started k),
      pr_permits := insert (i, k) (pr_permits (protocol_of w))\<rparr>"
    using assms by (auto simp: protocol_of_def fun_eq_iff)
  then show ?thesis using assms(1,2) protocol_step.grant [of "protocol_of w" i k] by (simp add: protocol_of_def)
qed

lemma reserve_simulated:
  assumes "k \<notin> set (aw_tokens w)" "get_task (world_db w) i = Some t" "phase_of t \<noteq> Over"
    and "get_task (world_db w') i = Some u" "phase_of u = Reserved k"
    and "\<And>j. j \<noteq> i \<Longrightarrow> get_task (world_db w') j = get_task (world_db w) j"
    and "aw_tokens w' = k # aw_tokens w" "aw_launched w' = aw_launched w" "pr_permits (protocol_of w') = pr_permits (protocol_of w)"
  shows "protocol_step (protocol_of w) (protocol_of w')"
proof -
  have "protocol_of w' = (protocol_of w)\<lparr>pr_used := insert k (pr_used (protocol_of w)),
      pr_phase := (pr_phase (protocol_of w))(i \<mapsto> Reserved k)\<rparr>"
    using assms by (auto simp: protocol_of_def fun_eq_iff)
  then show ?thesis using assms(1-3) protocol_step.reserve [of k "protocol_of w" i "phase_of t"] by (simp add: protocol_of_def)
qed

section \<open>Simulation\<close>

lemma claim_simulated:
  assumes wf: "tasks_wf (world_db w)"
  shows "protocol_step\<^sup>*\<^sup>* (protocol_of w) (protocol_of (claim_task lcfg now t a token w))"
proof (cases "token = [] \<or> token \<in> set (aw_tokens w)")
  case False
  let ?w = "claim_task lcfg now t a token w"
  note fr = claim_task_frame [OF wf False, of lcfg now t a]
  have fresh: "token \<notin> set (aw_tokens w)" "token \<noteq> []" using False by auto
  have permits: "pr_permits (protocol_of ?w) = pr_permits (protocol_of w)"
    using fr(4) by (auto simp: protocol_of_def)
  have burn: "protocol_step (protocol_of w) (protocol_of ?w)" if same: "\<And>j. get_task (world_db ?w) j = get_task (world_db w) j"
  proof -
    have "protocol_of ?w = (protocol_of w)\<lparr>pr_used := insert token (pr_used (protocol_of w))\<rparr>"
      using fr(1,2) permits same by (simp add: protocol_of_def)
    then show ?thesis using protocol_step.burn [of token "protocol_of w"] fresh by (simp add: protocol_of_def)
  qed
  consider "db_tasks (world_db ?w) = db_tasks (world_db w)"
    | Q where "db_tasks (world_db ?w) = db_tasks (fst (update_tasks_where now (world_db w) (t_id t) (\<lambda>r. t_status r = Queued \<and> Q r) (claim_fields now a token)))"
    using claim_task_db [of lcfg now t a token w] by blast
  then have "protocol_step (protocol_of w) (protocol_of ?w)"
  proof cases
    case 1
    then show ?thesis by (intro burn) (simp add: get_task_def)
  next
    case (2 Q)
    have get: "get_task (world_db ?w) j = map_option (\<lambda>r. if t_id r = t_id t \<and> t_status r = Queued \<and> Q r
        then touch_task now (assign (claim_fields now a token) r) else r) (get_task (world_db w) j)" for j
      using 2 get_task_where [of "claim_fields now a token" now "world_db w" "t_id t" "\<lambda>r. t_status r = Queued \<and> Q r" j]
      by (simp add: get_task_def)
    have other: "get_task (world_db ?w) j = get_task (world_db w) j" if "j \<noteq> t_id t" for j
      using that by (cases "get_task (world_db w) j") (auto simp: get dest: get_task_key)
    show ?thesis
    proof (cases "\<exists>r. get_task (world_db w) (t_id t) = Some r \<and> t_status r = Queued \<and> Q r")
      case True
      then obtain r where r: "get_task (world_db w) (t_id t) = Some r" "t_status r = Queued" "Q r" by blast
      have "t_id r = t_id t" using r(1) by (rule get_task_key)
      then have u: "get_task (world_db ?w) (t_id t) = Some (touch_task now (assign (claim_fields now a token) r))" using r by (simp add: get)
      show ?thesis
        by (rule reserve_simulated [OF fresh(1) r(1) _ u _ other fr(1,2) permits])
          (use r(2) fresh(2) in \<open>simp_all add: phase_of_def terminal_statuses_def field_defs\<close>)
    next
      case False
      have "get_task (world_db ?w) j = get_task (world_db w) j" for j
      proof (cases "j = t_id t")
        case True
        then show ?thesis using False by (cases "get_task (world_db w) j") (auto simp: get)
      qed (rule other)
      then show ?thesis by (rule burn)
    qed
  qed
  then show ?thesis by (rule r_into_rtranclp)
qed (auto simp: claim_task_def)

lemma permit_used:
  assumes "mset xs + {#x#} = mset ys" and "distinct ys"
  shows "x \<in> set ys" "set xs = set ys - {x}"
proof -
  have m: "mset ys = mset (x # xs)" using assms(1) by simp
  then have "distinct (x # xs)" using assms(2) mset_eq_imp_distinct_iff by blast
  moreover have "set ys = set (x # xs)" using m by (rule mset_eq_setD)
  ultimately show "x \<in> set ys" "set xs = set ys - {x}" by auto
qed

lemma boundary_simulated:
  assumes inv: "attach_inv w" and i: "i < length (aw_threads w)" and pc: "at_pc (aw_threads w ! i) \<noteq> PcLaunch"
    and run: "thread_boundary lcfg r err current (aw_threads w ! i) w = (th, w1)" and won: "at_pc th = PcLaunch"
  shows "protocol_step (protocol_of w) (protocol_of (w1\<lparr>aw_threads := (aw_threads w1)[i := th]\<rparr>))"
proof -
  let ?th0 = "aw_threads w ! i" and ?w = "w1\<lparr>aw_threads := (aw_threads w1)[i := th]\<rparr>"
  let ?tid = "t_id (at_task ?th0)" and ?k = "t_attach_token (at_task ?th0)"
  let ?cols = "[t_launch_started_at_update (\<lambda>_. current_timestamp (rm_now r))]"
  let ?P = "\<lambda>t. t_status t = Attaching \<and> t_attach_token t = ?k \<and> t_launch_started_at t = Blank"
  note bw = thread_boundary_won [OF run won]
  have wf: "tasks_wf (world_db w)" using inv by (simp add: attach_inv_def)
  have "?k \<in> set (aw_tokens w)" "[] \<notin> set (aw_tokens w)" using inv nth_mem [OF i] by (auto simp: attach_inv_def)
  then have k: "?k \<noteq> []" by auto
  have cas: "update_tasks_where (rm_now r) (world_db w) ?tid ?P ?cols = (world_db w1, True)"
    using bw(1) k by (auto simp: claim_cas_where)
  obtain t where t: "get_task (world_db w) ?tid = Some t" "?P t"
    using update_tasks_where_snd [OF wf, of "rm_now r" ?tid ?P ?cols] cas by auto
  have get: "get_task (world_db w1) j = map_option (\<lambda>t. if t_id t = ?tid \<and> ?P t
      then touch_task (rm_now r) (assign ?cols t) else t) (get_task (world_db w) j)" for j
    using get_task_where [of ?cols "rm_now r" "world_db w" ?tid ?P j] cas by simp
  have "t_id t = ?tid" using t(1) by (rule get_task_key)
  then have u: "get_task (world_db ?w) ?tid = Some (touch_task (rm_now r) (assign ?cols t))" using t by (simp add: get)
  have other: "get_task (world_db ?w) j = get_task (world_db w) j" if "j \<noteq> ?tid" for j
    using that by (cases "get_task (world_db w) j") (auto simp: get dest: get_task_key)
  have "mset (map thread_pair (filter (\<lambda>th. at_pc th = PcLaunch) ((aw_threads w)[i := th])))
      = mset ((?tid, ?k) # map thread_pair (filter (\<lambda>th. at_pc th = PcLaunch) (aw_threads w)))"
    using launch_pairs_update [OF i, of th] pc won bw(5) by simp
  then have permits: "pr_permits (protocol_of ?w) = insert (?tid, ?k) (pr_permits (protocol_of w))"
    using bw(4) mset_eq_setD by (fastforce simp: protocol_of_def)
  show ?thesis
    by (rule grant_world [OF t(1) _ u _ other _ _ permits])
      (use t(2) k bw(2,3) in \<open>simp_all add: phase_of_def terminal_statuses_def current_timestamp_def\<close>)
qed

lemma step_simulated:
  assumes inv: "attach_inv w"
  shows "protocol_step\<^sup>*\<^sup>* (protocol_of w) (protocol_of (attach_exec cfg lcfg (Step i r) w))"
proof (cases "i < length (aw_threads w)")
  case True
  let ?th0 = "aw_threads w ! i"
  obtain th w1 where step: "thread_step lcfg r ?th0 w = (th, w1)" by (cases "thread_step lcfg r ?th0 w")
  let ?w = "w1\<lparr>aw_threads := (aw_threads w1)[i := th]\<rparr>"
  have exec: "attach_exec cfg lcfg (Step i r) w = ?w" using True step by simp
  have wf: "tasks_wf (world_db w)" using inv by (simp add: attach_inv_def)
  note quiet = settles.any_step [OF step wf]
  consider "at_pc ?th0 = PcLaunch" | "at_pc ?th0 \<noteq> PcLaunch" "at_pc th \<noteq> PcLaunch"
    | err current where "at_pc ?th0 = PcBoundary err current" "at_pc th = PcLaunch"
    using thread_step_frame(5) [OF step] by (metis attach_pc.distinct)
  then have "protocol_step (protocol_of w) (protocol_of ?w)"
  proof cases
    case 1
    have th: "at_pc th \<noteq> PcLaunch" and w1: "aw_state w1 = aw_state w" "aw_tokens w1 = aw_tokens w" "aw_threads w1 = aw_threads w"
        "aw_launched w1 = aw_launched w @ [thread_pair ?th0]"
      using step 1 by (auto simp: thread_step_def thread_launch_def Let_def split: attach_outcome.splits)
    have m: "mset (map thread_pair (filter (\<lambda>th. at_pc th = PcLaunch) ((aw_threads w)[i := th]))) + {#thread_pair ?th0#}
        = mset (map thread_pair (filter (\<lambda>th. at_pc th = PcLaunch) (aw_threads w)))"
      using launch_pairs_update [OF True, of th] 1 th by simp
    have "distinct (map thread_pair (filter (\<lambda>th. at_pc th = PcLaunch) (aw_threads w)))"
      using inv by (simp add: attach_inv_def launch_pairs_def)
    then have permits: "thread_pair ?th0 \<in> pr_permits (protocol_of w)" "pr_permits (protocol_of ?w) = pr_permits (protocol_of w) - {thread_pair ?th0}"
      using permit_used [OF m] w1(3) by (simp_all add: protocol_of_def)
    have "protocol_of ?w = (protocol_of w)\<lparr>pr_permits := pr_permits (protocol_of w) - {thread_pair ?th0},
        pr_launched := pr_launched (protocol_of w) @ [thread_pair ?th0]\<rparr>"
      using permits(2) w1 by (simp add: protocol_of_def)
    then show ?thesis using protocol_step.launch [OF permits(1)] by simp
  next
    case 2
    have "mset (map thread_pair (filter (\<lambda>th. at_pc th = PcLaunch) ((aw_threads w)[i := th])))
        = mset (map thread_pair (filter (\<lambda>th. at_pc th = PcLaunch) (aw_threads w)))"
      using launch_pairs_update [OF True, of th] 2 by simp
    note same = mset_eq_setD [OF this]
    have "aw_threads ?w = (aw_threads w)[i := th]" using thread_step_frame(3) [OF step 2(1)] by simp
    then have "pr_permits (protocol_of ?w) = pr_permits (protocol_of w)" using same by (simp only: protocol_of_def protocol.simps)
    then show ?thesis using quiet thread_step_frame(1,2) [OF step 2(1)] by (intro settle_world) simp_all
  next
    case (3 err current)
    then have run: "thread_boundary lcfg r err current ?th0 w = (th, w1)" using step by (simp add: thread_step_def)
    show ?thesis by (rule boundary_simulated [OF inv True _ run 3(2)]) (simp add: 3(1))
  qed
  then show ?thesis unfolding exec by (rule r_into_rtranclp)
qed simp

lemma exec_simulated:
  assumes inv: "attach_inv w" and "conditional_action act"
  shows "protocol_step\<^sup>*\<^sup>* (protocol_of w) (protocol_of (attach_exec cfg lcfg act w))"
proof -
  have wf: "tasks_wf (world_db w)" using inv by (simp add: attach_inv_def)
  have state: "protocol_step\<^sup>*\<^sup>* (protocol_of w) (protocol_of (w\<lparr>aw_state := s\<rparr>))"
    if "rel_db (\<lambda>t u. phase_settles (phase_of t) (phase_of u)) (world_db w) (ss_db s)" for s
    using settle_world [of w "w\<lparr>aw_state := s\<rparr>"] that by (intro r_into_rtranclp) (simp add: protocol_of_def)
  show ?thesis
  proof (cases act)
    case (Claim now t a token)
    then show ?thesis using claim_simulated [OF wf] by simp
  next
    case (Respawn i)
    then have "protocol_of (attach_exec cfg lcfg act w) = protocol_of w" by (auto simp: protocol_of_def)
    then show ?thesis by simp
  next
    case (Step i r)
    then show ?thesis using step_simulated [OF inv] by simp
  next
    case (Restart now)
    let ?s = "fold (recover_attaching_task lcfg now) (list_tasks_by_statuses (world_db w) [Attaching] 5000) (aw_state w)"
    have "protocol_step\<^sup>*\<^sup>* (protocol_of w) (protocol_of (w\<lparr>aw_state := ?s\<rparr>))"
      by (rule state) (use wf in \<open>simp add: settles.recover_all\<close>)
    moreover have "protocol_of (attach_exec cfg lcfg act w) = (protocol_of (w\<lparr>aw_state := ?s\<rparr>))\<lparr>pr_permits := {}\<rparr>"
      using Restart by (simp add: restart_world_def protocol_of_def)
    ultimately show ?thesis using protocol_step.crash by (metis rtranclp.rtrancl_into_rtrancl)
  qed (use assms(2) wf state in \<open>simp_all add: settles.cancel settles.finalize\<close>)
qed

lemma run_simulated:
  "attach_inv w \<Longrightarrow> list_all conditional_action acts \<Longrightarrow> protocol_step\<^sup>*\<^sup>* (protocol_of w) (protocol_of (attach_run cfg lcfg acts w))"
proof (induction acts arbitrary: w)
  case (Cons act acts)
  have one: "protocol_step\<^sup>*\<^sup>* (protocol_of w) (protocol_of (attach_exec cfg lcfg act w))"
    using Cons.prems by (simp add: exec_simulated)
  show ?case using rtranclp_trans [OF one Cons.IH [OF attach_inv_exec [OF Cons.prems(1)]]] Cons.prems(2) by simp
qed simp



end
