(* ===== verification/Aedt_Pool.thy ===== *)
theory Aedt_Pool
  imports Store
begin

text \<open>
  \<open>slurm_scheduler/aedt_pool.py\<close>: the durable control plane of the pooled AEDT sessions. A session is
  one Desktop process with a fixed number of project slots; a lease is the claim of one project on a
  slot. This theory has the five tables (leases, sessions, exact-session reservations, mixed canary
  admissions and their slots), the configuration, and the helpers that every endpoint shares: the
  refresh of a session, the failing and expiring of exact cohorts, the refresh of reservations and
  canaries, the granting of solve permits and the placement of queued leases.

  Every endpoint runs in one \<open>BEGIN IMMEDIATE\<close> transaction, so an operation is an atomic function on
  the tables. \<open>now\<close> is the clock as \<open>_sql_time\<close> writes it, rounded down to a second and counted in
  microseconds; adding whole seconds commutes with the rounding. A blank stamp is NULL. The tables
  \<open>tasks\<close> and \<open>allocations\<close> are those of the store.
\<close>

section \<open>Tables\<close>

datatype lease_state =
    LQueued | LOffered | LLeased | LAttaching | LActive | LReleasing
  | LReleased | LFailed | LCancelled | LExpired

datatype session_state = SStarting | SReady | SBusy | SDraining | SUnhealthy | SFailed | SClosed

datatype reservation_state = RReserved | RClaimed | RConsumed | RReleased | RFailed | RExpired

datatype canary_state = COpen | CFilled | CAborting | CAborted | CClosed

record lease =
  ls_id :: int
  ls_request_key :: string
  ls_project_name :: string
  ls_placement_group :: string
  ls_workload_family :: string
  ls_session_profile :: string
  ls_project_namespace :: string
  ls_isolation_policy :: string
  ls_workspace_path :: string
  ls_protocol_version :: int
  ls_task_id :: int
  ls_requested_allocation_id :: int
  ls_requested_node_name :: string
  ls_requested_session_id :: int
  ls_requested_session_generation :: int
  ls_exact_session_reservation_id :: int
  ls_exclusive_session :: bool
  ls_session_id :: "int option"
  ls_slot_index :: "nat option"
  ls_state :: lease_state
  ls_client_token_hash :: string
  ls_failure_message :: string
  ls_requested_at :: stamp
  ls_offered_at :: stamp
  ls_offer_expires_at :: stamp
  ls_accepted_at :: stamp
  ls_activated_at :: stamp
  ls_solve_permit_at :: stamp
  ls_solve_permit_generation :: int
  ls_native_pipeline_completed_at :: stamp
  ls_native_pipeline_session_id :: int
  ls_native_pipeline_generation :: int
  ls_client_deadline_at :: stamp
  ls_acquired_at :: stamp
  ls_last_heartbeat_at :: stamp
  ls_expires_at :: stamp
  ls_release_requested_at :: stamp
  ls_finished_at :: stamp
  ls_fault_phase :: string
  ls_fault_kind :: string
  ls_mixed_canary_admission_id :: int
  ls_mixed_canary_session_id :: int
  ls_updated_at :: stamp

record aedt_session =
  d_id :: int
  d_allocation_id :: int
  d_account_name :: string
  d_node_name :: string
  d_host_id :: string
  d_host_task_id :: int
  d_host_process_id :: string
  d_host_slurm_job_id :: string
  d_actual_node_name :: string
  d_start_claimed_at :: stamp
  d_endpoint :: string
  d_process_id :: string
  d_session_profile :: string
  d_host_token_hash :: string
  d_slots_total :: nat
  d_state :: session_state
  d_generation :: int
  d_failure_message :: string
  d_created_at :: stamp
  d_started_at :: stamp
  d_last_heartbeat_at :: stamp
  d_last_fault_at :: stamp
  d_reuse_blocked_at :: stamp
  d_idle_since :: stamp
  d_drain_requested_at :: stamp
  d_quarantine_until :: stamp
  d_quarantine_reason :: string
  d_solve_batch_sealed_at :: stamp
  d_solve_batch_generation :: int
  d_closed_at :: stamp
  d_updated_at :: stamp

record exact_reservation =
  x_id :: int
  x_reservation_key :: string
  x_task_id :: int
  x_session_id :: int
  x_session_generation :: int
  x_session_profile :: string
  x_workload_family :: string
  x_isolation_policy :: string
  x_state :: reservation_state
  x_lease_id :: "int option"
  x_failure_message :: string
  x_expires_at :: stamp
  x_claimed_at :: stamp
  x_consumed_at :: stamp
  x_finished_at :: stamp
  x_updated_at :: stamp

record canary_admission =
  ca_id :: int
  ca_session_id :: int
  ca_placement_group :: string
  ca_session_profile :: string
  ca_expected_projects :: int
  ca_state :: canary_state
  ca_expires_at :: stamp
  ca_filled_at :: stamp
  ca_finished_at :: stamp
  ca_updated_at :: stamp

record canary_slot =
  cs_id :: int
  cs_admission_id :: int
  cs_dedupe_key :: string
  cs_workload_family :: string
  cs_project_namespace :: string
  cs_lease_id :: "int option"
  cs_admitted_at :: stamp
  cs_updated_at :: stamp

record pool =
  leases :: "lease list"
  lease_seq :: int
  sessions :: "aedt_session list"
  session_seq :: int
  reservations :: "exact_reservation list"
  reservation_seq :: int
  canaries :: "canary_admission list"
  canary_seq :: int
  canary_slots :: "canary_slot list"
  canary_slot_seq :: int
  pool_base :: db
  placement_cursor :: int

record pool_config =
  pc_enabled :: bool
  pc_adapter_ready :: bool
  pc_validation_passed :: bool
  pc_target_projects :: int
  pc_projects_per_session :: int
  pc_project_cpus :: int
  pc_project_memory_mb :: int
  pc_lease_ttl_seconds :: int
  pc_queued_stale_seconds :: int
  pc_offer_ack_seconds :: int
  pc_admission_deadline_seconds :: int
  pc_session_heartbeat_timeout_seconds :: int
  pc_unhealthy_recycle_grace_seconds :: int
  pc_session_start_timeout_seconds :: int
  pc_allocation_max_age_seconds :: int

definition operational :: "pool_config \<Rightarrow> bool" where
  "operational c = (pc_enabled c \<and> pc_adapter_ready c \<and> pc_validation_passed c)"

text \<open>Raised errors: \<open>KeyError\<close>, \<open>PermissionError\<close>, \<open>ValueError\<close>, \<open>RuntimeError\<close> and the
  \<open>StopIteration\<close> of an exhausted \<open>next\<close>.\<close>

datatype pool_error = Unknown_Row | Bad_Token | Rejected string | Internal string | No_Free_Slot

definition second :: int where "second = 1000000"

abbreviation later :: "int \<Rightarrow> int \<Rightarrow> stamp" where
  "later now k \<equiv> At (now + k * second)"

definition earlier :: "int \<Rightarrow> int \<Rightarrow> int" where
  "earlier now k = now - k * second"

text \<open>SQL's \<open>column < cutoff\<close>, which NULL fails, and Python's \<open>str(column or '') < cutoff\<close>, which it passes.\<close>

fun stamp_before :: "stamp \<Rightarrow> int \<Rightarrow> bool" where
  "stamp_before (At t) cutoff = (t < cutoff)"
| "stamp_before s cutoff = False"

definition text_before :: "stamp \<Rightarrow> int \<Rightarrow> bool" where
  "text_before s cutoff = (s = Blank \<or> stamp_before s cutoff)"

definition text_until :: "stamp \<Rightarrow> int \<Rightarrow> bool" where
  "text_until s now = (s = Blank \<or> stamp_until s now)"

definition slot_states :: "lease_state set" where
  "slot_states = {LOffered, LLeased, LAttaching, LActive, LReleasing}"

definition lease_live_states :: "lease_state set" where
  "lease_live_states = insert LQueued slot_states"

definition lease_terminal_states :: "lease_state set" where
  "lease_terminal_states = {LReleased, LFailed, LCancelled, LExpired}"

definition active_reservation_states :: "reservation_state set" where
  "active_reservation_states = {RReserved, RClaimed, RConsumed}"

text \<open>\<open>UPDATE ... SET f WHERE P\<close>.\<close>

definition sql_update :: "('r \<Rightarrow> bool) \<Rightarrow> ('r \<Rightarrow> 'r) \<Rightarrow> 'r list \<Rightarrow> 'r list" where
  "sql_update P f rows = map (\<lambda>r. if P r then f r else r) rows"

definition update_leases :: "(lease \<Rightarrow> bool) \<Rightarrow> (lease \<Rightarrow> lease) \<Rightarrow> pool \<Rightarrow> pool" where
  "update_leases P f p = p\<lparr>leases := sql_update P f (leases p)\<rparr>"

definition update_sessions :: "(aedt_session \<Rightarrow> bool) \<Rightarrow> (aedt_session \<Rightarrow> aedt_session) \<Rightarrow> pool \<Rightarrow> pool" where
  "update_sessions P f p = p\<lparr>sessions := sql_update P f (sessions p)\<rparr>"

definition update_reservations :: "(exact_reservation \<Rightarrow> bool) \<Rightarrow> (exact_reservation \<Rightarrow> exact_reservation) \<Rightarrow> pool \<Rightarrow> pool" where
  "update_reservations P f p = p\<lparr>reservations := sql_update P f (reservations p)\<rparr>"

definition update_canaries :: "(canary_admission \<Rightarrow> bool) \<Rightarrow> (canary_admission \<Rightarrow> canary_admission) \<Rightarrow> pool \<Rightarrow> pool" where
  "update_canaries P f p = p\<lparr>canaries := sql_update P f (canaries p)\<rparr>"

definition update_pool_allocations :: "(alloc_row \<Rightarrow> bool) \<Rightarrow> (alloc_row \<Rightarrow> alloc_row) \<Rightarrow> pool \<Rightarrow> pool" where
  "update_pool_allocations P f p =
     p\<lparr>pool_base := (pool_base p)\<lparr>db_allocations := sql_update P f (db_allocations (pool_base p))\<rparr>\<rparr>"

definition find_lease :: "pool \<Rightarrow> int \<Rightarrow> lease option" where
  "find_lease p i = tbl_get ls_id (leases p) i"

definition get_session :: "pool \<Rightarrow> int \<Rightarrow> aedt_session option" where
  "get_session p i = tbl_get d_id (sessions p) i"

definition find_reservation :: "pool \<Rightarrow> int \<Rightarrow> exact_reservation option" where
  "find_reservation p i = tbl_get x_id (reservations p) i"

definition occupies :: "int \<Rightarrow> lease \<Rightarrow> bool" where
  "occupies sid l = (ls_session_id l = Some sid \<and> ls_state l \<in> slot_states)"

definition occupants :: "pool \<Rightarrow> int \<Rightarrow> lease list" where
  "occupants p sid = filter (occupies sid) (leases p)"

definition task_terminal :: "pool \<Rightarrow> int \<Rightarrow> bool" where
  "task_terminal p i = (case get_task (pool_base p) i of None \<Rightarrow> False | Some t \<Rightarrow> t_status t \<in> terminal_statuses)"

definition allocation_state_of :: "pool \<Rightarrow> int \<Rightarrow> allocation_status option" where
  "allocation_state_of p i = map_option a_state (get_allocation (pool_base p) i)"

section \<open>Sessions\<close>

definition refresh_session_state :: "int \<Rightarrow> int \<Rightarrow> pool \<Rightarrow> pool" where
  "refresh_session_state now sid p =
     (case get_session p sid of None \<Rightarrow> p
      | Some s \<Rightarrow>
          if d_state s \<in> {SDraining, SUnhealthy, SClosed, SFailed} then p
          else
            (let live = length (occupants p sid);
                 graceful_drain_pending = (d_drain_requested_at s \<noteq> Blank);
                 next_state = (if graceful_drain_pending \<and> live = 0 then SDraining
                               else if live \<noteq> 0 then SBusy else SReady) in
             update_sessions (\<lambda>r. d_id r = sid)
               (\<lambda>r. r\<lparr>d_state := next_state,
                      d_idle_since := (if live \<noteq> 0 \<or> graceful_drain_pending then Blank else At now),
                      d_solve_batch_sealed_at := (if live = 0 then Blank else d_solve_batch_sealed_at r),
                      d_updated_at := At now\<rparr>) p))"

definition refresh_zero_owner_draining_sessions :: "int \<Rightarrow> pool \<Rightarrow> pool" where
  "refresh_zero_owner_draining_sessions now p =
     fold (refresh_session_state now)
       (sort (map d_id (filter (\<lambda>s. d_state s = SBusy \<and> d_drain_requested_at s \<noteq> Blank
                                  \<and> occupants p (d_id s) = []) (sessions p)))) p"

definition block_reuse :: "int \<Rightarrow> (aedt_session \<Rightarrow> bool) \<Rightarrow> pool \<Rightarrow> pool" where
  "block_reuse now P p =
     update_sessions (\<lambda>s. P s \<and> d_state s \<notin> {SClosed, SFailed})
       (\<lambda>s. s\<lparr>d_reuse_blocked_at := stamp_or (d_reuse_blocked_at s) (At now), d_updated_at := At now\<rparr>) p"

definition request_sessions_drain :: "int \<Rightarrow> string \<Rightarrow> int list option \<Rightarrow> pool \<Rightarrow> pool" where
  "request_sessions_drain now reason allocation_ids p =
     (if allocation_ids = Some [] then p
      else update_sessions
        (\<lambda>s. (d_state s \<in> {SReady, SBusy}
              \<or> (d_state s = SUnhealthy \<and> d_failure_message s = ''session heartbeat expired'' \<and> d_quarantine_reason s = []))
           \<and> (case allocation_ids of None \<Rightarrow> True | Some ids \<Rightarrow> d_allocation_id s \<in> set ids))
        (\<lambda>s. s\<lparr>d_state := SDraining, d_failure_message := reason,
               d_drain_requested_at := stamp_or (d_drain_requested_at s) (At now), d_updated_at := At now\<rparr>) p)"

section \<open>Exact-session cohorts\<close>

definition cohort_ids :: "pool \<Rightarrow> string \<Rightarrow> int list" where
  "cohort_ids p key = map x_id (filter (\<lambda>x. x_reservation_key x = key) (reservations p))"

definition in_cohort :: "pool \<Rightarrow> string \<Rightarrow> lease \<Rightarrow> bool" where
  "in_cohort p key l = (ls_exact_session_reservation_id l \<in> set (cohort_ids p key))"

definition releasing_sessions :: "pool \<Rightarrow> string \<Rightarrow> int list" where
  "releasing_sessions p key =
     List.map_filter ls_session_id (filter (\<lambda>l. in_cohort p key l \<and> ls_state l = LReleasing) (leases p))"

definition releasing_lease :: "int \<Rightarrow> string \<Rightarrow> lease \<Rightarrow> lease" where
  "releasing_lease now reason l =
     l\<lparr>ls_state := LReleasing, ls_failure_message := reason,
       ls_release_requested_at := stamp_or (ls_release_requested_at l) (At now), ls_updated_at := At now\<rparr>"

definition finished_lease :: "int \<Rightarrow> lease_state \<Rightarrow> string \<Rightarrow> lease \<Rightarrow> lease" where
  "finished_lease now st reason l =
     l\<lparr>ls_state := st, ls_failure_message := reason, ls_finished_at := At now, ls_updated_at := At now\<rparr>"

definition vacated_lease :: "int \<Rightarrow> lease_state \<Rightarrow> string \<Rightarrow> lease \<Rightarrow> lease" where
  "vacated_lease now st reason l = (finished_lease now st reason l)\<lparr>ls_session_id := None, ls_slot_index := None\<rparr>"

definition finished_reservation :: "int \<Rightarrow> reservation_state \<Rightarrow> string \<Rightarrow> exact_reservation \<Rightarrow> exact_reservation" where
  "finished_reservation now st reason x =
     x\<lparr>x_state := st, x_failure_message := reason, x_finished_at := At now, x_updated_at := At now\<rparr>"

definition fail_exact_session_reservation_cohort :: "int \<Rightarrow> string \<Rightarrow> string \<Rightarrow> bool \<Rightarrow> pool \<Rightarrow> pool" where
  "fail_exact_session_reservation_cohort now key message settle_project_owners p =
     (let reason = (if strip message = [] then ''exact-session reservation target became unavailable'' else strip message);
          p1 = (if settle_project_owners
                then (let q = update_leases (\<lambda>l. in_cohort p key l \<and> ls_state l \<in> {LAttaching, LActive, LReleasing})
                                (releasing_lease now reason) p in
                      block_reuse now (\<lambda>s. d_id s \<in> set (releasing_sessions q key)) q)
                else p);
          terminal_states = (if settle_project_owners then {LQueued, LOffered, LLeased}
                             else {LQueued, LOffered, LLeased, LAttaching, LActive, LReleasing});
          p2 = update_leases (\<lambda>l. in_cohort p1 key l \<and> ls_state l \<in> terminal_states) (finished_lease now LFailed reason) p1 in
      update_reservations (\<lambda>x. x_reservation_key x = key \<and> x_state x \<in> active_reservation_states)
        (finished_reservation now RFailed reason) p2)"

definition permitted :: "lease \<Rightarrow> bool" where
  "permitted l = (ls_solve_permit_at l \<noteq> Blank)"

definition lease_permitted :: "pool \<Rightarrow> int option \<Rightarrow> bool" where
  "lease_permitted p i = (case i of None \<Rightarrow> False | Some j \<Rightarrow> (case find_lease p j of None \<Rightarrow> False | Some l \<Rightarrow> permitted l))"

definition expire_exact_session_reservation_cohort :: "int \<Rightarrow> string \<Rightarrow> pool \<Rightarrow> pool" where
  "expire_exact_session_reservation_cohort now key p =
     (let reason = ''exact-session reservation cohort expired before solve permit'';
          p1 = update_leases (\<lambda>l. in_cohort p key l \<and> ls_state l \<in> {LAttaching, LActive, LReleasing} \<and> \<not> permitted l)
                 (releasing_lease now reason) p;
          p2 = block_reuse now (\<lambda>s. d_id s \<in> set (releasing_sessions p1 key)) p1;
          p3 = update_leases (\<lambda>l. in_cohort p2 key l \<and> ls_state l \<in> {LQueued, LOffered, LLeased} \<and> \<not> permitted l)
                 (finished_lease now LExpired reason) p2 in
      update_reservations (\<lambda>x. x_reservation_key x = key \<and> x_state x \<in> active_reservation_states
                              \<and> \<not> lease_permitted p3 (x_lease_id x))
        (finished_reservation now RExpired reason) p3)"

definition lease_in_states :: "pool \<Rightarrow> int option \<Rightarrow> lease_state set \<Rightarrow> bool" where
  "lease_in_states p i S = (case i of None \<Rightarrow> False | Some j \<Rightarrow> (case find_lease p j of None \<Rightarrow> False | Some l \<Rightarrow> ls_state l \<in> S))"

definition fail_exact_session_reservations_for_target :: "int \<Rightarrow> int \<Rightarrow> string \<Rightarrow> pool \<Rightarrow> pool" where
  "fail_exact_session_reservations_for_target now sid message p =
     fold (\<lambda>key. fail_exact_session_reservation_cohort now key message False)
       (sorted_set (map x_reservation_key (filter (\<lambda>x. x_session_id x = sid
          \<and> (x_state x \<in> active_reservation_states \<or> lease_in_states p (x_lease_id x) lease_live_states)) (reservations p)))) p"

definition session_unsealed :: "pool \<Rightarrow> int \<Rightarrow> bool" where
  "session_unsealed p sid = (case get_session p sid of None \<Rightarrow> True | Some s \<Rightarrow> d_solve_batch_sealed_at s = Blank)"

definition terminal_sibling :: "pool \<Rightarrow> exact_reservation \<Rightarrow> bool" where
  "terminal_sibling p x = (x_state x \<in> active_reservation_states \<and> task_terminal p (x_task_id x)
     \<and> session_unsealed p (x_session_id x)
     \<and> list_ex (\<lambda>y. x_reservation_key y = x_reservation_key x \<and> x_id y \<noteq> x_id x
                   \<and> x_state y \<in> active_reservation_states) (reservations p))"

definition sibling_message :: "pool \<Rightarrow> exact_reservation \<Rightarrow> string" where
  "sibling_message p x = ''exact-session reservation sibling task '' @ show_int (x_task_id x) @ '' became ''
     @ (case get_task (pool_base p) (x_task_id x) of None \<Rightarrow> [] | Some t \<Rightarrow> task_status_value (t_status t)) @ '' before solve permit''"

fun first_of_each :: "string list \<Rightarrow> exact_reservation list \<Rightarrow> exact_reservation list" where
  "first_of_each seen [] = []"
| "first_of_each seen (x # xs) =
     (if x_reservation_key x \<in> set seen then first_of_each seen xs
      else x # first_of_each (x_reservation_key x # seen) xs)"

definition fail_terminal_siblings :: "int \<Rightarrow> pool \<Rightarrow> pool" where
  "fail_terminal_siblings now p =
     fold (\<lambda>x. fail_exact_session_reservation_cohort now (x_reservation_key x) (sibling_message p x) True)
       (first_of_each [] (filter (terminal_sibling p) (sort_key x_id (reservations p)))) p"

definition expired_cohort_member :: "int \<Rightarrow> pool \<Rightarrow> exact_reservation \<Rightarrow> bool" where
  "expired_cohort_member now p x = (x_state x \<in> active_reservation_states \<and> stamp_until (x_expires_at x) now
     \<and> session_unsealed p (x_session_id x) \<and> \<not> lease_permitted p (x_lease_id x))"

definition expire_cohorts :: "int \<Rightarrow> pool \<Rightarrow> pool" where
  "expire_cohorts now p =
     fold (expire_exact_session_reservation_cohort now)
       (sorted_set (map x_reservation_key (filter (expired_cohort_member now p) (reservations p)))) p"

definition released_reservation :: "int \<Rightarrow> exact_reservation \<Rightarrow> exact_reservation" where
  "released_reservation now x = x\<lparr>x_state := RReleased, x_finished_at := At now, x_updated_at := At now\<rparr>"

definition release_reservations :: "int \<Rightarrow> pool \<Rightarrow> pool" where
  "release_reservations now p =
     (let p1 = update_reservations (\<lambda>x. x_state x \<in> active_reservation_states \<and> task_terminal p (x_task_id x))
                 (released_reservation now) p in
      update_reservations (\<lambda>x. x_state x \<in> {RClaimed, RConsumed} \<and> lease_in_states p1 (x_lease_id x) lease_terminal_states)
        (released_reservation now) p1)"

text \<open>A cohort that is waiting and can no longer get its session: the members that still matter are those
  without a permit.\<close>

definition active_member :: "string \<Rightarrow> exact_reservation \<Rightarrow> bool" where
  "active_member key y = (x_reservation_key y = key \<and> x_state y \<in> active_reservation_states)"

definition lease_of :: "pool \<Rightarrow> exact_reservation \<Rightarrow> lease option" where
  "lease_of p x = (case x_lease_id x of None \<Rightarrow> None | Some i \<Rightarrow> find_lease p i)"

definition cohort_detached :: "pool \<Rightarrow> exact_reservation \<Rightarrow> bool" where
  "cohort_detached p x = list_ex (\<lambda>y. active_member (x_reservation_key x) y
     \<and> (x_state y \<noteq> RConsumed
        \<or> (case lease_of p y of None \<Rightarrow> True
           | Some l \<Rightarrow> (case ls_session_id l of None \<Rightarrow> False | Some j \<Rightarrow> j \<noteq> x_session_id x)
                \<or> ls_state l \<notin> slot_states))) (reservations p)"

definition sealed_owner :: "pool \<Rightarrow> aedt_session \<Rightarrow> exact_reservation \<Rightarrow> bool" where
  "sealed_owner p s x = (d_solve_batch_sealed_at s \<noteq> Blank \<and> x_state x = RConsumed
     \<and> sql_trim (d_process_id s) \<noteq> [] \<and> sql_trim (d_host_id s) \<noteq> [] \<and> sql_trim (d_host_token_hash s) \<noteq> []
     \<and> (case lease_of p x of None \<Rightarrow> False
        | Some l \<Rightarrow> ls_exact_session_reservation_id l = x_id x \<and> ls_session_id l = Some (x_session_id x) \<and> ls_state l = LActive))"

definition sealed_outsider :: "pool \<Rightarrow> exact_reservation \<Rightarrow> bool" where
  "sealed_outsider p x = list_ex (\<lambda>y. active_member (x_reservation_key x) y
     \<and> (x_state y \<in> {RReserved, RClaimed}
        \<or> (case lease_of p y of None \<Rightarrow> True | Some l \<Rightarrow> \<not> permitted l \<and> ls_state l \<noteq> LActive))) (reservations p)"

definition cohort_waiting :: "pool \<Rightarrow> exact_reservation \<Rightarrow> bool" where
  "cohort_waiting p x = list_ex (\<lambda>y. active_member (x_reservation_key x) y
     \<and> (x_state y \<in> {RReserved, RClaimed} \<or> (case lease_of p y of None \<Rightarrow> True | Some l \<Rightarrow> \<not> permitted l))) (reservations p)"

definition invalid_target :: "pool \<Rightarrow> exact_reservation \<Rightarrow> bool" where
  "invalid_target p x = (x_state x \<in> active_reservation_states
     \<and> (case get_session p (x_session_id x) of None \<Rightarrow> True
        | Some s \<Rightarrow>
            d_generation s \<noteq> x_session_generation x
            \<or> d_session_profile s \<noteq> x_session_profile x
            \<or> d_state s \<notin> {SReady, SBusy}
            \<or> (d_drain_requested_at s \<noteq> Blank \<and> \<not> (d_state s = SBusy \<and> \<not> cohort_detached p x))
            \<or> (case allocation_state_of p (d_allocation_id s) of None \<Rightarrow> False
               | Some st \<Rightarrow> st \<notin> {Warm, Active} \<and> \<not> sealed_owner p s x)
            \<or> (d_solve_batch_sealed_at s \<noteq> Blank \<and> sealed_outsider p x))
     \<and> cohort_waiting p x)"

definition fail_invalid_cohort :: "int \<Rightarrow> string \<Rightarrow> pool \<Rightarrow> pool" where
  "fail_invalid_cohort now key p =
     (let affected = sorted_set (map x_session_id (filter (\<lambda>x. x_reservation_key x = key) (reservations p))) in
      fold (refresh_session_state now) affected
        (fail_exact_session_reservation_cohort now key
           ''exact-session reservation target became unavailable before solve permit'' False p))"

definition fail_invalid_targets :: "int \<Rightarrow> pool \<Rightarrow> pool" where
  "fail_invalid_targets now p =
     fold (fail_invalid_cohort now) (remdups (map x_reservation_key (filter (invalid_target p) (reservations p)))) p"

definition refresh_exact_session_reservations :: "int \<Rightarrow> pool \<Rightarrow> pool" where
  "refresh_exact_session_reservations now p =
     fail_invalid_targets now (release_reservations now (expire_cohorts now (fail_terminal_siblings now p)))"

section \<open>Mixed canaries\<close>

definition canary_leases :: "pool \<Rightarrow> int \<Rightarrow> lease list" where
  "canary_leases p aid = List.map_filter (\<lambda>c. if cs_admission_id c = aid then
       (case cs_lease_id c of None \<Rightarrow> None | Some i \<Rightarrow> find_lease p i) else None) (canary_slots p)"

definition canary_lease_ids :: "pool \<Rightarrow> int \<Rightarrow> int list" where
  "canary_lease_ids p aid = List.map_filter (\<lambda>c. if cs_admission_id c = aid then cs_lease_id c else None) (canary_slots p)"

definition abort_candidate :: "int \<Rightarrow> pool \<Rightarrow> canary_admission \<Rightarrow> bool" where
  "abort_candidate now p c = (ca_state c \<in> {COpen, CFilled}
     \<and> \<not> list_ex permitted (canary_leases p (ca_id c))
     \<and> (stamp_until (ca_expires_at c) now
        \<or> list_ex (\<lambda>l. ls_state l \<in> insert LReleasing lease_terminal_states) (canary_leases p (ca_id c))))"

definition abort_reason :: string where
  "abort_reason = ''mixed canary admission aborted before exact batch activation''"

definition abort_canary :: "int \<Rightarrow> canary_admission \<Rightarrow> pool \<Rightarrow> pool" where
  "abort_canary now c p =
     (let p1 = update_canaries (\<lambda>r. ca_id r = ca_id c \<and> ca_state r \<in> {COpen, CFilled})
                 (\<lambda>r. r\<lparr>ca_state := CAborting, ca_updated_at := At now\<rparr>) p;
          ids = canary_lease_ids p (ca_id c);
          p2 = update_leases (\<lambda>l. ls_id l \<in> set ids \<and> ls_state l \<in> {LQueued, LOffered})
                 (vacated_lease now LCancelled abort_reason) p1;
          p3 = update_leases (\<lambda>l. ls_id l \<in> set ids \<and> ls_state l \<in> {LLeased, LAttaching, LActive})
                 (releasing_lease now abort_reason) p2;
          p4 = block_reuse now (\<lambda>s. d_id s = ca_session_id c) p3 in
      refresh_session_state now (ca_session_id c) p4)"

definition canary_over :: "pool \<Rightarrow> canary_admission \<Rightarrow> bool" where
  "canary_over p c = (\<not> list_ex (\<lambda>l. ls_state l \<in> lease_live_states) (canary_leases p (ca_id c)))"

definition finish_canaries :: "int \<Rightarrow> canary_state \<Rightarrow> canary_state \<Rightarrow> pool \<Rightarrow> pool" where
  "finish_canaries now st st' p =
     update_canaries (\<lambda>c. ca_state c = st \<and> canary_over p c)
       (\<lambda>c. c\<lparr>ca_state := st', ca_finished_at := At now, ca_updated_at := At now\<rparr>) p"

definition refresh_mixed_canary_admissions :: "int \<Rightarrow> pool \<Rightarrow> pool" where
  "refresh_mixed_canary_admissions now p =
     finish_canaries now CFilled CClosed (finish_canaries now CAborting CAborted
       (fold (abort_canary now) (sort_key ca_id (filter (abort_candidate now p) (canaries p))) p))"

definition mixed_canary_batch_is_complete :: "pool \<Rightarrow> int \<Rightarrow> bool" where
  "mixed_canary_batch_is_complete p sid =
     (case (get_session p sid, sort_desc ca_id (filter (\<lambda>c. ca_session_id c = sid \<and> ca_state c \<in> {COpen, CFilled, CAborting}) (canaries p))) of
        (Some s, c # _) \<Rightarrow>
          (let reserved = length (filter (\<lambda>k. cs_admission_id k = ca_id c) (canary_slots p));
               active = length (filter (\<lambda>l. ls_session_id l = Some sid \<and> ls_state l = LActive) (canary_leases p (ca_id c))) in
           ca_state c = CFilled \<and> ca_expected_projects c = int (d_slots_total s)
             \<and> int reserved = ca_expected_projects c \<and> int active = ca_expected_projects c)
      | _ \<Rightarrow> True)"

definition exact_session_reservations_are_active :: "pool \<Rightarrow> int \<Rightarrow> bool" where
  "exact_session_reservations_are_active p sid =
     list_all (\<lambda>x. x_session_id x = sid \<and> x_state x \<in> active_reservation_states \<longrightarrow>
        x_state x = RConsumed
        \<and> (case lease_of p x of None \<Rightarrow> False | Some l \<Rightarrow> ls_session_id l = Some sid \<and> ls_state l = LActive)) (reservations p)"

section \<open>Solve permits\<close>

definition waiting_for_permit :: "lease \<Rightarrow> bool" where
  "waiting_for_permit l = (ls_state l = LActive \<and> \<not> permitted l)"

definition family_of :: "lease \<Rightarrow> string" where
  "family_of l = lower (strip (ls_workload_family l))"

text \<open>The oldest waiting family gets the next wave; only its first project unless the family is known to be
  safe in parallel.\<close>

definition select_wave :: "string list \<Rightarrow> lease list \<Rightarrow> lease list" where
  "select_wave parallel_safe waiting =
     (case waiting of [] \<Rightarrow> []
      | w # _ \<Rightarrow>
          (let selected = filter (\<lambda>l. family_of l = family_of w) waiting in
           if family_of w \<in> set parallel_safe then selected else take 1 selected))"

definition permit_lease :: "int \<Rightarrow> int \<Rightarrow> lease \<Rightarrow> lease" where
  "permit_lease now generation l =
     l\<lparr>ls_solve_permit_at := stamp_or (ls_solve_permit_at l) (At now), ls_solve_permit_generation := generation, ls_updated_at := At now\<rparr>"

definition bump_generation :: "int \<Rightarrow> aedt_session \<Rightarrow> aedt_session" where
  "bump_generation now s = s\<lparr>d_solve_batch_generation := d_solve_batch_generation s + 1, d_updated_at := At now\<rparr>"

definition grant_wave :: "int \<Rightarrow> string list \<Rightarrow> int \<Rightarrow> lease list \<Rightarrow> pool \<Rightarrow> pool \<times> bool" where
  "grant_wave now parallel_safe sid occ p =
     (let waiting = filter waiting_for_permit occ in
      if waiting = [] then (p, False)
      else
        (let ids = map ls_id (select_wave parallel_safe waiting);
             generation = (case get_session p sid of None \<Rightarrow> 0 | Some s \<Rightarrow> d_solve_batch_generation s) in
         (update_leases (\<lambda>l. ls_session_id l = Some sid \<and> waiting_for_permit l \<and> ls_id l \<in> set ids)
            (permit_lease now generation) p, True)))"

definition wave_failure :: string where
  "wave_failure = ''sealed native solve predecessor wave failed; refusing mixed-family continuation''"

definition granted_wave :: "pool \<Rightarrow> int \<Rightarrow> int \<Rightarrow> lease list" where
  "granted_wave p sid generation =
     filter (\<lambda>l. ls_session_id l = Some sid \<and> ls_solve_permit_generation l = generation \<and> permitted l) (leases p)"

definition wave_attested :: "int \<Rightarrow> int \<Rightarrow> lease \<Rightarrow> bool" where
  "wave_attested sid generation l = (ls_state l = LReleased \<and> ls_native_pipeline_completed_at l \<noteq> Blank
     \<and> ls_native_pipeline_session_id l = sid \<and> ls_native_pipeline_generation l = generation)"

definition refuse_continuation :: "int \<Rightarrow> int \<Rightarrow> pool \<Rightarrow> pool" where
  "refuse_continuation now sid p =
     update_leases (\<lambda>l. ls_session_id l = Some sid \<and> waiting_for_permit l) (releasing_lease now wave_failure)
       (update_sessions (\<lambda>s. d_id s = sid \<and> d_state s \<in> {SReady, SBusy})
          (\<lambda>s. s\<lparr>d_state := SDraining, d_failure_message := wave_failure,
                 d_reuse_blocked_at := stamp_or (d_reuse_blocked_at s) (At now),
                 d_drain_requested_at := stamp_or (d_drain_requested_at s) (At now), d_updated_at := At now\<rparr>) p)"

definition grant_solve_batch_if_ready :: "int \<Rightarrow> string list \<Rightarrow> int \<Rightarrow> bool \<Rightarrow> pool \<Rightarrow> pool \<times> bool" where
  "grant_solve_batch_if_ready now parallel_safe sid allow_underfilled p0 =
     (if sid \<le> 0 then (p0, False)
      else
        (let p = refresh_exact_session_reservations now (refresh_mixed_canary_admissions now p0) in
         case get_session p sid of None \<Rightarrow> (p, False)
         | Some s \<Rightarrow>
             if d_state s \<notin> {SReady, SBusy} then (p, False)
             else
               (let occ = sort_key ls_id (occupants p sid) in
                if d_solve_batch_sealed_at s = Blank then
                  (if \<not> mixed_canary_batch_is_complete p sid then (p, False)
                   else if \<not> exact_session_reservations_are_active p sid then (p, False)
                   else if occ = [] \<or> list_ex (\<lambda>l. ls_state l \<noteq> LActive) occ then (p, False)
                   else if \<not> (max 1 (d_slots_total s) \<le> length occ \<or> list_ex ls_exclusive_session occ \<or> allow_underfilled)
                   then (p, False)
                   else grant_wave now parallel_safe sid occ
                          (update_sessions (\<lambda>r. d_id r = sid \<and> d_solve_batch_sealed_at r = Blank)
                             (\<lambda>r. (bump_generation now r)\<lparr>d_solve_batch_sealed_at := At now\<rparr>) p))
                else
                  (let generation = d_solve_batch_generation s; granted = granted_wave p sid generation in
                   if granted = [] then (p, False)
                   else if list_ex (\<lambda>l. ls_state l \<in> lease_live_states) granted then (p, False)
                   else if \<not> list_all (wave_attested sid generation) granted then (refuse_continuation now sid p, False)
                   else if filter waiting_for_permit occ = [] then (p, False)
                   else grant_wave now parallel_safe sid occ (update_sessions (\<lambda>r. d_id r = sid) (bump_generation now) p)))))"

section \<open>Placement\<close>

datatype admission_key = Task_Key int | Lease_Key int

definition lease_admission_key :: "lease \<Rightarrow> admission_key" where
  "lease_admission_key l = (if 0 < ls_task_id l then Task_Key (ls_task_id l) else Lease_Key (ls_id l))"

definition admission_keys :: "pool \<Rightarrow> int \<Rightarrow> int \<Rightarrow> int \<Rightarrow> admission_key list" where
  "admission_keys p exclude_task exclude_reservation exclude_lease =
     map lease_admission_key (filter (\<lambda>l. ls_state l \<in> slot_states
        \<and> (exclude_lease = 0 \<or> ls_id l \<noteq> exclude_lease) \<and> (exclude_task = 0 \<or> ls_task_id l \<noteq> exclude_task)) (leases p))
   @ map (\<lambda>x. Task_Key (x_task_id x)) (filter (\<lambda>x. x_state x \<in> {RReserved, RClaimed}
        \<and> (exclude_reservation = 0 \<or> x_id x \<noteq> exclude_reservation) \<and> (exclude_task = 0 \<or> x_task_id x \<noteq> exclude_task)) (reservations p))"

definition admitted_project_count :: "pool \<Rightarrow> int \<Rightarrow> int \<Rightarrow> int \<Rightarrow> int" where
  "admitted_project_count p exclude_task exclude_reservation exclude_lease =
     int (card (set (admission_keys p exclude_task exclude_reservation exclude_lease)))"

definition policy_or_family :: "string \<Rightarrow> string" where
  "policy_or_family s = (if s = [] then ''family'' else s)"

definition lease_fits_session :: "lease \<Rightarrow> aedt_session \<Rightarrow> lease list \<Rightarrow> nat \<Rightarrow> exact_reservation list \<Rightarrow> bool" where
  "lease_fits_session l s occ reserved_slots_for_others pending =
     (if d_slots_total s \<le> length occ + reserved_slots_for_others then False
      else if d_reuse_blocked_at s \<noteq> Blank then False
      else if list_ex ls_exclusive_session occ then False
      else if ls_exclusive_session l \<and> occ \<noteq> [] then False
      else if ls_requested_session_id l \<noteq> 0
           \<and> (d_id s \<noteq> ls_requested_session_id l \<or> d_generation s \<noteq> ls_requested_session_generation l) then False
      else if ls_mixed_canary_session_id l \<noteq> 0 \<and> d_id s \<noteq> ls_mixed_canary_session_id l then False
      else if list_ex (\<lambda>o'. ls_mixed_canary_admission_id o' \<noteq> ls_mixed_canary_admission_id l) occ then False
      else if 2 \<le> ls_protocol_version l \<and> d_session_profile s \<noteq> ls_session_profile l then False
      else if 2 \<le> ls_protocol_version l
           \<and> list_ex (\<lambda>o'. ls_protocol_version o' < 2 \<or> ls_session_profile o' \<noteq> ls_session_profile l) occ then False
      else if ls_protocol_version l < 2 then
        pending = [] \<and> \<not> list_ex (\<lambda>o'. 2 \<le> ls_protocol_version o') occ
        \<and> list_all (\<lambda>o'. ls_placement_group o' = ls_placement_group l) occ
      else if list_ex (\<lambda>x. x_workload_family x = [] \<or> x_isolation_policy x = [] \<or> x_session_profile x \<noteq> ls_session_profile l) pending
      then False
      else if policy_or_family (ls_isolation_policy l) = ''family'' then
        list_all (\<lambda>o'. policy_or_family (ls_isolation_policy o') = ''family'' \<and> ls_workload_family o' = ls_workload_family l) occ
        \<and> list_all (\<lambda>x. x_isolation_policy x = ''family'' \<and> x_workload_family x = ls_workload_family l) pending
      else if policy_or_family (ls_isolation_policy l) = ''shared_if_compatible'' then
        list_all (\<lambda>o'. 2 \<le> ls_protocol_version o' \<and> policy_or_family (ls_isolation_policy o') = ''shared_if_compatible'') occ
        \<and> list_all (\<lambda>x. x_isolation_policy x = ''shared_if_compatible'') pending
      else occ = [] \<and> pending = [])"

text \<open>The sessions the query of a lease selects, those with most occupants first.\<close>

definition session_open_for :: "pool_config \<Rightarrow> int \<Rightarrow> pool \<Rightarrow> lease \<Rightarrow> aedt_session \<Rightarrow> bool" where
  "session_open_for cfg now p l s =
     (case get_allocation (pool_base p) (d_allocation_id s) of None \<Rightarrow> False
      | Some a \<Rightarrow>
          d_state s \<in> {SReady, SBusy}
          \<and> stamp_from (d_last_heartbeat_at s) (earlier now (pc_session_heartbeat_timeout_seconds cfg))
          \<and> d_solve_batch_sealed_at s = Blank \<and> d_reuse_blocked_at s = Blank
          \<and> a_state a \<in> {Warm, Active}
          \<and> (pc_allocation_max_age_seconds cfg = 0
             \<or> stamp_after (a_created_at a) (earlier now (pc_allocation_max_age_seconds cfg)))
          \<and> (ls_requested_allocation_id l = 0 \<or> d_allocation_id s = ls_requested_allocation_id l)
          \<and> (ls_requested_node_name l = [] \<or> d_node_name s = ls_requested_node_name l)
          \<and> (ls_requested_session_id l = 0
             \<or> (d_id s = ls_requested_session_id l \<and> d_generation s = ls_requested_session_generation l))
          \<and> (ls_mixed_canary_session_id l = 0 \<or> d_id s = ls_mixed_canary_session_id l)
          \<and> (0 < ls_mixed_canary_session_id l
             \<or> \<not> list_ex (\<lambda>c. ca_session_id c = d_id s \<and> ca_state c \<in> {COpen, CFilled, CAborting}) (canaries p))
          \<and> (ls_protocol_version l < 2 \<or> d_session_profile s = ls_session_profile l))"

definition candidate_sessions :: "pool_config \<Rightarrow> int \<Rightarrow> pool \<Rightarrow> lease \<Rightarrow> aedt_session list" where
  "candidate_sessions cfg now p l =
     sort_desc (\<lambda>s. length (occupants p (d_id s))) (sort_key d_id (filter (session_open_for cfg now p l) (sessions p)))"

definition pending_reservations :: "pool \<Rightarrow> int \<Rightarrow> int \<Rightarrow> exact_reservation list" where
  "pending_reservations p sid exact =
     filter (\<lambda>x. x_session_id x = sid \<and> x_state x \<in> {RReserved, RClaimed} \<and> (exact = 0 \<or> x_id x \<noteq> exact)) (reservations p)"

definition session_accepts :: "pool \<Rightarrow> lease \<Rightarrow> aedt_session \<Rightarrow> bool" where
  "session_accepts p l s =
     (let exact = ls_exact_session_reservation_id l;
          reservation = (if exact = 0 then None else find_reservation p exact);
          pending = pending_reservations p (d_id s) exact in
      (exact = 0 \<or> (case reservation of None \<Rightarrow> False | Some x \<Rightarrow> x_state x = RClaimed \<and> x_lease_id x = Some (ls_id l)))
      \<and> lease_fits_session l s (occupants p (d_id s)) (length pending)
          (filter (\<lambda>x. case reservation of None \<Rightarrow> True
             | Some r \<Rightarrow> x_reservation_key r = [] \<or> x_reservation_key x \<noteq> x_reservation_key r) pending))"

definition free_slot :: "pool \<Rightarrow> aedt_session \<Rightarrow> nat option" where
  "free_slot p s = find (\<lambda>i. Some i \<notin> ls_slot_index ` set (occupants p (d_id s))) [0..<d_slots_total s]"

definition offer_lease :: "pool_config \<Rightarrow> int \<Rightarrow> int \<Rightarrow> nat \<Rightarrow> lease \<Rightarrow> lease" where
  "offer_lease cfg now sid slot l =
     l\<lparr>ls_session_id := Some sid, ls_slot_index := Some slot,
       ls_state := (if 2 \<le> ls_protocol_version l then LOffered else LLeased),
       ls_acquired_at := At now, ls_offered_at := At now,
       ls_offer_expires_at := later now (pc_offer_ack_seconds cfg), ls_updated_at := At now\<rparr>"

definition consume_reservation :: "int \<Rightarrow> lease \<Rightarrow> pool \<Rightarrow> pool_error + pool" where
  "consume_reservation now l p =
     (let exact = ls_exact_session_reservation_id l;
          P = (\<lambda>x. x_id x = exact \<and> x_state x = RClaimed \<and> x_lease_id x = Some (ls_id l)) in
      if exact = 0 then Inr p
      else if length (filter P (reservations p)) = 1
      then Inr (update_reservations P (\<lambda>x. x\<lparr>x_state := RConsumed, x_consumed_at := At now, x_updated_at := At now\<rparr>) p)
      else Inl (Internal ''exact-session reservation changed during placement''))"

definition place_on_session :: "pool_config \<Rightarrow> int \<Rightarrow> lease \<Rightarrow> aedt_session \<Rightarrow> pool \<Rightarrow> pool_error + (pool \<times> bool)" where
  "place_on_session cfg now l s p =
     (case free_slot p s of None \<Rightarrow> Inl No_Free_Slot
      | Some slot \<Rightarrow>
          (let P = (\<lambda>r. ls_id r = ls_id l \<and> ls_state r = LQueued \<and> stamp_after (ls_client_deadline_at r) now);
               p1 = update_leases P (offer_lease cfg now (d_id s) slot) p in
           if \<not> list_ex P (leases p) then Inr (p, False)
           else case consume_reservation now l p1 of Inl e \<Rightarrow> Inl e
             | Inr p2 \<Rightarrow>
                 (let profile = ls_session_profile l;
                      p3 = (if profile \<noteq> [] \<and> d_session_profile s = []
                            then update_sessions (\<lambda>r. d_id r = d_id s \<and> d_session_profile r = [])
                                   (\<lambda>r. r\<lparr>d_session_profile := profile, d_updated_at := At now\<rparr>) p2
                            else p2) in
                  Inr (refresh_session_state now (d_id s) p3, True))))"

definition place_lease :: "pool_config \<Rightarrow> int \<Rightarrow> lease \<Rightarrow> pool \<Rightarrow> pool_error + (pool \<times> bool)" where
  "place_lease cfg now l p =
     (if text_until (ls_client_deadline_at l) now then Inr (p, False)
      else if ls_task_id l \<noteq> 0 \<and> task_terminal p (ls_task_id l) then Inr (p, False)
      else if pc_target_projects cfg \<le> 0
           \<or> pc_target_projects cfg \<le> admitted_project_count p (ls_task_id l) (ls_exact_session_reservation_id l) (ls_id l)
      then Inr (p, False)
      else case find (session_accepts p l) (candidate_sessions cfg now p l) of
          None \<Rightarrow> Inr (p, False)
        | Some s \<Rightarrow> place_on_session cfg now l s p)"

fun place_all :: "pool_config \<Rightarrow> int \<Rightarrow> lease list \<Rightarrow> nat \<Rightarrow> pool \<Rightarrow> pool_error + (pool \<times> nat)" where
  "place_all cfg now [] placed p = Inr (p, placed)"
| "place_all cfg now (l # ls) placed p =
     (case place_lease cfg now l p of Inl e \<Rightarrow> Inl e
      | Inr (p', ok) \<Rightarrow> place_all cfg now ls (if ok then Suc placed else placed) p')"

definition queued_leases :: "pool_config \<Rightarrow> int \<Rightarrow> int list \<Rightarrow> pool \<Rightarrow> lease list" where
  "queued_leases cfg now lease_ids p =
     (let ready = sort_key ls_id (filter (\<lambda>l. ls_state l = LQueued
            \<and> (ls_protocol_version l < 2 \<or> stamp_from (ls_last_heartbeat_at l) (earlier now (pc_queued_stale_seconds cfg)))) (leases p)) in
      if lease_ids \<noteq> [] then take (max 1 (length lease_ids)) (filter (\<lambda>l. ls_id l \<in> set lease_ids) ready)
      else take 32 (filter (\<lambda>l. placement_cursor p < ls_id l) ready @ filter (\<lambda>l. ls_id l \<le> placement_cursor p) ready))"

definition place_queued_leases :: "pool_config \<Rightarrow> int \<Rightarrow> int list \<Rightarrow> bool \<Rightarrow> pool \<Rightarrow> pool_error + (pool \<times> nat)" where
  "place_queued_leases cfg now lease_ids refresh_reservations p0 =
     (if \<not> operational cfg then Inr (p0, 0)
      else
        (let p1 = refresh_mixed_canary_admissions now p0;
             p2 = (if refresh_reservations then refresh_exact_session_reservations now p1 else p1);
             queued = queued_leases cfg now lease_ids p2;
             p3 = (if lease_ids = [] then p2\<lparr>placement_cursor := (if queued = [] then 0 else ls_id (last queued))\<rparr> else p2) in
         place_all cfg now queued 0 p3))"

end
