(* ===== verification/Aedt_Lease.thy ===== *)
theory Aedt_Lease
  imports Aedt_Pool
begin

text \<open>
  The endpoints of the AEDT pool that a project client calls (\<open>aedt_pool.py\<close>): heartbeat, accept,
  activate, solve permit, native pipeline, project name, cancel and fault report. A call returns the
  tables and the error it raised; a transaction that raises is rolled back. The digest of the token a
  caller presents is an argument. Where an endpoint first reads outside its transaction, the tables as
  it saw them then are the argument \<open>seen\<close>.
\<close>

section \<open>Heartbeats\<close>

definition heartbeat_persist_interval_seconds :: "int \<Rightarrow> int \<Rightarrow> int" where
  "heartbeat_persist_interval_seconds timeout_seconds identity =
     (let ceiling = max 1 (min 30 (max 1 (timeout_seconds div 3)));
          spread = min 6 (ceiling - 1) in
      ceiling - (if spread \<noteq> 0 then identity mod (spread + 1) else 0))"

fun heartbeat_is_fresh :: "stamp \<Rightarrow> int \<Rightarrow> int \<Rightarrow> bool" where
  "heartbeat_is_fresh (At t) now interval = (0 \<le> now - t \<and> now - t < max 1 interval * second)"
| "heartbeat_is_fresh s now interval = False"

fun lease_state_value :: "lease_state \<Rightarrow> string" where
  "lease_state_value LQueued = ''queued''"
| "lease_state_value LOffered = ''offered''"
| "lease_state_value LLeased = ''leased''"
| "lease_state_value LAttaching = ''attaching''"
| "lease_state_value LActive = ''active''"
| "lease_state_value LReleasing = ''releasing''"
| "lease_state_value LReleased = ''released''"
| "lease_state_value LFailed = ''failed''"
| "lease_state_value LCancelled = ''cancelled''"
| "lease_state_value LExpired = ''expired''"

type_synonym outcome = "pool \<times> pool_error option"

definition lease_is :: "lease \<Rightarrow> pool_error" where
  "lease_is l = Rejected (''lease is '' @ lease_state_value (ls_state l))"

definition authorize_lease :: "pool \<Rightarrow> int \<Rightarrow> string \<Rightarrow> pool_error + lease" where
  "authorize_lease p lid token_hash =
     (case find_lease p lid of None \<Rightarrow> Inl Unknown_Row
      | Some l \<Rightarrow> if ls_client_token_hash l = token_hash then Inr l else Inl Bad_Token)"

definition with_lease :: "int \<Rightarrow> string \<Rightarrow> (lease \<Rightarrow> outcome) \<Rightarrow> pool \<Rightarrow> outcome" where
  "with_lease lid token_hash f p = (case authorize_lease p lid token_hash of Inl e \<Rightarrow> (p, Some e) | Inr l \<Rightarrow> f l)"

text \<open>A conditional \<open>UPDATE\<close> of one lease whose \<open>rowcount\<close> is checked.\<close>

definition update_one :: "(lease \<Rightarrow> bool) \<Rightarrow> (lease \<Rightarrow> lease) \<Rightarrow> string \<Rightarrow> pool \<Rightarrow> pool_error + pool" where
  "update_one P f message p = (if list_ex P (leases p) then Inr (update_leases P f p) else Inl (Rejected message))"

definition commit :: "pool \<Rightarrow> (pool_error + pool) \<Rightarrow> outcome" where
  "commit p r = (case r of Inl e \<Rightarrow> (p, Some e) | Inr q \<Rightarrow> (q, None))"

definition placed :: "(pool_error + (pool \<times> nat)) \<Rightarrow> pool_error + pool" where
  "placed r = (case r of Inl e \<Rightarrow> Inl e | Inr (q, n) \<Rightarrow> Inr q)"

definition heartbeat_phases :: "string list" where
  "heartbeat_phases = [''waiting'', ''attaching'', ''solving'', ''postprocess'', ''releasing'']"

definition heartbeat_write :: "pool_config \<Rightarrow> int \<Rightarrow> string \<Rightarrow> lease \<Rightarrow> lease" where
  "heartbeat_write cfg now phase l =
     l\<lparr>ls_state := (if ls_protocol_version l < 2 \<and> ls_state l = LLeased then LActive else ls_state l),
       ls_last_heartbeat_at := At now, ls_expires_at := later now (pc_lease_ttl_seconds cfg),
       ls_offer_expires_at := (if 2 \<le> ls_protocol_version l \<and> ls_state l = LOffered
                               then later now (pc_offer_ack_seconds cfg) else ls_offer_expires_at l),
       ls_fault_phase := (if phase = [] then ls_fault_phase l else phase), ls_updated_at := At now\<rparr>"

definition heartbeat_transaction :: "pool_config \<Rightarrow> int \<Rightarrow> int \<Rightarrow> string \<Rightarrow> string \<Rightarrow> pool \<Rightarrow> outcome" where
  "heartbeat_transaction cfg now lid token_hash phase p =
     with_lease lid token_hash (\<lambda>l.
       if ls_state l \<notin> lease_live_states then (p, Some (lease_is l))
       else commit p
         (case update_one (\<lambda>r. ls_id r = lid \<and> ls_state r = ls_state l \<and> ls_client_token_hash r = token_hash)
                 (heartbeat_write cfg now phase) ''lease state changed while heartbeating'' p of
            Inl e \<Rightarrow> Inl e
          | Inr q \<Rightarrow> if ls_state l = LQueued \<and> operational cfg
                    then placed (place_queued_leases cfg now [lid] True q) else Inr q)) p"

definition heartbeat_lease :: "pool_config \<Rightarrow> int \<Rightarrow> pool \<Rightarrow> int \<Rightarrow> string \<Rightarrow> string \<Rightarrow> pool \<Rightarrow> outcome" where
  "heartbeat_lease cfg now seen lid token_hash phase0 p =
     (let phase = lower (strip phase0) in
      if phase \<noteq> [] \<and> phase \<notin> set heartbeat_phases then (p, Some (Rejected ''invalid lease heartbeat phase''))
      else case authorize_lease seen lid token_hash of Inl e \<Rightarrow> (p, Some e)
      | Inr candidate \<Rightarrow>
          if ls_state candidate \<notin> lease_live_states then (p, Some (lease_is candidate))
          else if ls_state candidate \<in> {LAttaching, LActive, LReleasing}
               \<and> (phase = [] \<or> phase = ls_fault_phase candidate)
               \<and> heartbeat_is_fresh (ls_last_heartbeat_at candidate) now
                   (heartbeat_persist_interval_seconds (pc_lease_ttl_seconds cfg) lid)
          then (case find_lease p lid of None \<Rightarrow> (p, Some Unknown_Row)
                | Some l \<Rightarrow> (p, if ls_state l \<in> lease_live_states then None else Some (lease_is l)))
          else heartbeat_transaction cfg now lid token_hash phase p)"

section \<open>Accepting an offer\<close>

definition or_zero :: "int option \<Rightarrow> int" where
  "or_zero i = (case i of None \<Rightarrow> 0 | Some j \<Rightarrow> j)"

definition exact_target_invalid :: "pool \<Rightarrow> lease \<Rightarrow> bool" where
  "exact_target_invalid p l =
     (ls_exact_session_reservation_id l \<noteq> 0
      \<and> (case find_reservation p (ls_exact_session_reservation_id l) of None \<Rightarrow> True
         | Some x \<Rightarrow>
             x_state x \<noteq> RConsumed \<or> x_lease_id x \<noteq> Some (ls_id l)
             \<or> x_session_id x \<noteq> or_zero (ls_session_id l)
             \<or> x_session_generation x \<noteq> ls_requested_session_generation l
             \<or> x_session_profile x \<noteq> ls_session_profile l
             \<or> (x_workload_family x \<noteq> []
                \<and> (x_workload_family x \<noteq> ls_workload_family l \<or> x_isolation_policy x \<noteq> ls_isolation_policy l))))"

definition hard_target_invalid :: "pool_config \<Rightarrow> int \<Rightarrow> pool \<Rightarrow> lease \<Rightarrow> bool" where
  "hard_target_invalid cfg now p l =
     (exact_target_invalid p l
      \<or> (case get_session p (or_zero (ls_session_id l)) of None \<Rightarrow> True
         | Some s \<Rightarrow>
             d_state s \<notin> {SReady, SBusy}
             \<or> allocation_state_of p (d_allocation_id s) \<notin> {Some Warm, Some Active}
             \<or> d_solve_batch_sealed_at s \<noteq> Blank \<or> d_drain_requested_at s \<noteq> Blank
             \<or> (ls_requested_session_id l \<noteq> 0 \<and> d_id s \<noteq> ls_requested_session_id l)
             \<or> (ls_requested_session_generation l \<noteq> 0 \<and> d_generation s \<noteq> ls_requested_session_generation l)
             \<or> d_session_profile s \<noteq> ls_session_profile l
             \<or> text_before (d_last_heartbeat_at s) (earlier now (pc_session_heartbeat_timeout_seconds cfg))
             \<or> strip (d_endpoint s) = [] \<or> strip (d_process_id s) = []))"

definition transient_invalid :: "int \<Rightarrow> pool \<Rightarrow> lease \<Rightarrow> bool" where
  "transient_invalid now p l =
     (\<not> stamp_after (ls_offer_expires_at l) now
      \<or> (case get_session p (or_zero (ls_session_id l)) of None \<Rightarrow> False
         | Some s \<Rightarrow> d_reuse_blocked_at s \<noteq> Blank
             \<or> list_ex (\<lambda>r. ls_session_id r = Some (d_id s) \<and> ls_state r = LReleasing) (leases p)))"

definition refresh_session_of :: "int \<Rightarrow> lease \<Rightarrow> pool \<Rightarrow> pool" where
  "refresh_session_of now l p =
     (if or_zero (ls_session_id l) \<noteq> 0 then refresh_session_state now (or_zero (ls_session_id l)) p else p)"

definition accept_failure :: string where
  "accept_failure = ''exact-session reservation target failed accept-time ownership/liveness validation''"

definition fail_offer :: "int \<Rightarrow> lease \<Rightarrow> pool \<Rightarrow> pool" where
  "fail_offer now l p =
     (let p1 = (case find_reservation p (ls_exact_session_reservation_id l) of None \<Rightarrow> p
                | Some x \<Rightarrow> fail_exact_session_reservation_cohort now (x_reservation_key x) accept_failure False p);
          p2 = update_leases (\<lambda>r. ls_id r = ls_id l \<and> ls_state r = LOffered) (finished_lease now LFailed accept_failure) p1 in
      refresh_session_of now l p2)"

definition revoked_lease :: "pool_config \<Rightarrow> int \<Rightarrow> lease \<Rightarrow> lease" where
  "revoked_lease cfg now l =
     l\<lparr>ls_state := LQueued, ls_session_id := None, ls_slot_index := None, ls_acquired_at := Blank,
       ls_offered_at := Blank, ls_offer_expires_at := Blank, ls_accepted_at := Blank, ls_activated_at := Blank,
       ls_solve_permit_at := Blank, ls_solve_permit_generation := 0,
       ls_failure_message := ''session reuse/liveness changed before offer acceptance'',
       ls_last_heartbeat_at := At now, ls_expires_at := later now (pc_lease_ttl_seconds cfg), ls_updated_at := At now\<rparr>"

definition unconsume :: "int \<Rightarrow> exact_reservation \<Rightarrow> exact_reservation" where
  "unconsume now x = x\<lparr>x_state := RClaimed, x_consumed_at := Blank, x_updated_at := At now\<rparr>"

definition revoke_offer :: "pool_config \<Rightarrow> int \<Rightarrow> lease \<Rightarrow> pool \<Rightarrow> pool_error + pool" where
  "revoke_offer cfg now l p =
     (case update_one (\<lambda>r. ls_id r = ls_id l \<and> ls_state r = LOffered) (revoked_lease cfg now)
             ''lease changed while revoking stale offer'' p of
        Inl e \<Rightarrow> Inl e
      | Inr p1 \<Rightarrow>
          (let exact = ls_exact_session_reservation_id l;
               P = (\<lambda>x. x_id x = exact \<and> x_lease_id x = Some (ls_id l) \<and> x_state x = RConsumed) in
           if exact \<noteq> 0 \<and> \<not> list_ex P (reservations p1)
           then Inl (Internal ''exact reservation changed while revoking stale offer'')
           else Inr (refresh_session_of now l
                  (if exact \<noteq> 0 then update_reservations P (unconsume now) p1 else p1))))"

definition accepted_lease :: "pool_config \<Rightarrow> int \<Rightarrow> lease \<Rightarrow> lease" where
  "accepted_lease cfg now l =
     l\<lparr>ls_state := LAttaching, ls_accepted_at := At now, ls_last_heartbeat_at := At now,
       ls_expires_at := later now (pc_lease_ttl_seconds cfg), ls_updated_at := At now\<rparr>"

definition accept_lease :: "pool_config \<Rightarrow> int \<Rightarrow> int \<Rightarrow> string \<Rightarrow> pool \<Rightarrow> outcome" where
  "accept_lease cfg now lid token_hash p =
     with_lease lid token_hash (\<lambda>l.
       if ls_protocol_version l < 2
       then (p, if ls_state l \<in> {LLeased, LActive} then None else Some (lease_is l))
       else if ls_state l \<in> {LAttaching, LActive} then (p, None)
       else if ls_state l \<noteq> LOffered then (p, Some (lease_is l))
       else if hard_target_invalid cfg now p l \<or> transient_invalid now p l
       then (if ls_exact_session_reservation_id l \<noteq> 0 \<and> hard_target_invalid cfg now p l
             then (fail_offer now l p, None)
             else commit p (revoke_offer cfg now l p))
       else commit p (update_one (\<lambda>r. ls_id r = lid \<and> ls_state r = LOffered \<and> stamp_after (ls_offer_expires_at r) now)
              (accepted_lease cfg now) ''lease offer expired or was already claimed'' p)) p"

section \<open>Solving\<close>

definition activated_lease :: "pool_config \<Rightarrow> int \<Rightarrow> lease \<Rightarrow> lease" where
  "activated_lease cfg now l =
     l\<lparr>ls_state := LActive, ls_activated_at := stamp_or (ls_activated_at l) (At now), ls_last_heartbeat_at := At now,
       ls_expires_at := later now (pc_lease_ttl_seconds cfg), ls_updated_at := At now\<rparr>"

definition activate_lease :: "pool_config \<Rightarrow> int \<Rightarrow> string list \<Rightarrow> pool \<Rightarrow> int \<Rightarrow> string \<Rightarrow> pool \<Rightarrow> outcome" where
  "activate_lease cfg now parallel_safe seen lid token_hash p =
     (case authorize_lease seen lid token_hash of Inl e \<Rightarrow> (p, Some e)
      | Inr l \<Rightarrow>
          if ls_state l = LActive then (p, None)
          else if ls_state l \<noteq> (if ls_protocol_version l < 2 then LLeased else LAttaching) then (p, Some (lease_is l))
          else commit p
            (case update_one (\<lambda>r. ls_id r = lid \<and> ls_state r = ls_state l) (activated_lease cfg now)
                    ''lease state changed while activating'' p of
               Inl e \<Rightarrow> Inl e
             | Inr q \<Rightarrow> Inr (fst (grant_solve_batch_if_ready now parallel_safe (or_zero (ls_session_id l)) False q))))"

definition permit_heartbeat :: "pool_config \<Rightarrow> int \<Rightarrow> lease \<Rightarrow> lease" where
  "permit_heartbeat cfg now l =
     l\<lparr>ls_last_heartbeat_at := At now, ls_expires_at := later now (pc_lease_ttl_seconds cfg),
       ls_fault_phase := ''waiting'', ls_updated_at := At now\<rparr>"

definition request_solve_permit :: "pool_config \<Rightarrow> int \<Rightarrow> string list \<Rightarrow> int \<Rightarrow> string \<Rightarrow> bool \<Rightarrow> pool \<Rightarrow> outcome" where
  "request_solve_permit cfg now parallel_safe lid token_hash seal_underfilled p =
     with_lease lid token_hash (\<lambda>l.
       if ls_state l \<noteq> LActive then (p, Some (lease_is l))
       else (fst (grant_solve_batch_if_ready now parallel_safe (or_zero (ls_session_id l)) seal_underfilled
               (update_leases (\<lambda>r. ls_id r = lid \<and> ls_state r = LActive \<and> ls_client_token_hash r = token_hash)
                  (permit_heartbeat cfg now) p)), None)) p"

definition completed_pipeline :: "pool_config \<Rightarrow> int \<Rightarrow> int \<Rightarrow> int \<Rightarrow> lease \<Rightarrow> lease" where
  "completed_pipeline cfg now sid generation l =
     l\<lparr>ls_native_pipeline_completed_at :=
         (if ls_native_pipeline_session_id l = sid \<and> ls_native_pipeline_generation l = generation
             \<and> ls_native_pipeline_completed_at l \<noteq> Blank then ls_native_pipeline_completed_at l else At now),
       ls_native_pipeline_session_id := sid, ls_native_pipeline_generation := generation,
       ls_fault_phase := ''postprocess'', ls_last_heartbeat_at := At now,
       ls_expires_at := later now (pc_lease_ttl_seconds cfg), ls_updated_at := At now\<rparr>"

definition complete_native_pipeline :: "pool_config \<Rightarrow> int \<Rightarrow> int \<Rightarrow> string \<Rightarrow> int \<Rightarrow> pool \<Rightarrow> outcome" where
  "complete_native_pipeline cfg now lid token_hash solve_permit_generation p =
     (if solve_permit_generation \<le> 0 then (p, Some (Rejected ''solve_permit_generation must be a positive integer''))
      else with_lease lid token_hash (\<lambda>l.
        let sid = or_zero (ls_session_id l); authorized = ls_solve_permit_generation l in
        if ls_state l \<noteq> LActive then (p, Some (lease_is l))
        else if \<not> permitted l \<or> sid \<le> 0 \<or> authorized \<le> 0
        then (p, Some (Rejected ''lease has no sealed native solve permit''))
        else if solve_permit_generation \<noteq> authorized
        then (p, Some (Rejected (''native pipeline generation mismatch: expected='' @ show_int authorized
               @ '', actual='' @ show_int solve_permit_generation)))
        else if granted_wave p sid authorized = []
        then (p, Some (Rejected ''sealed native solve cohort is unavailable''))
        else commit p (update_one
          (\<lambda>r. ls_id r = lid \<and> ls_state r = LActive \<and> ls_client_token_hash r = token_hash
             \<and> ls_session_id r = Some sid \<and> ls_solve_permit_generation r = authorized)
          (completed_pipeline cfg now sid authorized) ''lease changed while completing its native pipeline'' p)) p)"

definition bind_lease_project_name :: "int \<Rightarrow> int \<Rightarrow> string \<Rightarrow> string \<Rightarrow> pool \<Rightarrow> outcome" where
  "bind_lease_project_name now lid token_hash name0 p =
     (let name = strip name0 in
      if name = [] then (p, Some (Rejected ''project_name is required''))
      else with_lease lid token_hash (\<lambda>l.
        if ls_state l \<notin> {LQueued, LOffered, LLeased, LAttaching, LActive} then (p, Some (lease_is l))
        else if 2 \<le> ls_protocol_version l
             \<and> list_ex (\<lambda>r. ls_id r \<noteq> lid \<and> ls_project_name r = name \<and> ls_state r \<in> lease_live_states) (leases p)
        then (p, Some (Rejected ''project_name is already owned by a live lease''))
        else commit p (update_one (\<lambda>r. ls_id r = lid \<and> ls_state r = ls_state l \<and> ls_client_token_hash r = token_hash)
               (\<lambda>r. r\<lparr>ls_project_name := name, ls_updated_at := At now\<rparr>)
               ''lease state changed while binding project name'' p)) p)"

section \<open>Cancelling and faults\<close>

definition owns_project :: "lease \<Rightarrow> bool" where
  "owns_project l = (ls_state l \<in> {LAttaching, LActive, LReleasing} \<or> (ls_state l = LLeased \<and> ls_protocol_version l < 2))"

definition cancelling_lease :: "int \<Rightarrow> string \<Rightarrow> lease \<Rightarrow> lease" where
  "cancelling_lease now reason l =
     l\<lparr>ls_state := LReleasing, ls_failure_message := reason, ls_release_requested_at := At now, ls_updated_at := At now\<rparr>"

definition cancel_lease :: "int \<Rightarrow> int \<Rightarrow> string \<Rightarrow> string \<Rightarrow> pool \<Rightarrow> outcome" where
  "cancel_lease now lid token_hash reason p =
     with_lease lid token_hash (\<lambda>l.
       let P = (\<lambda>r. ls_id r = lid \<and> ls_state r = ls_state l \<and> ls_client_token_hash r = token_hash);
           sid = or_zero (ls_session_id l) in
       if ls_state l \<in> lease_terminal_states then (p, None)
       else if owns_project l \<and> sid \<noteq> 0
       then commit p (case update_one P (cancelling_lease now (strip reason)) ''lease state changed while cancelling'' p of
              Inl e \<Rightarrow> Inl e
            | Inr q \<Rightarrow> Inr (block_reuse now (\<lambda>s. d_id s = sid) q))
       else commit p (case update_one P (vacated_lease now LCancelled (strip reason)) ''lease state changed while cancelling'' p of
              Inl e \<Rightarrow> Inl e
            | Inr q \<Rightarrow> Inr (refresh_session_of now l q))) p"

definition release_lease :: "int \<Rightarrow> int \<Rightarrow> string \<Rightarrow> pool \<Rightarrow> outcome" where
  "release_lease now lid token_hash p = cancel_lease now lid token_hash ''client released lease'' p"

definition local_faults :: "string list" where
  "local_faults = [''admission_timeout'', ''attach_failed'', ''project_create_failed'', ''pre_solve'', ''script_error'']"

definition project_faults :: "string list" where
  "project_faults = local_faults @ [''solver_timeout'', ''aedt_transport_death'', ''aedt_death'']"

definition or_text :: "string \<Rightarrow> string \<Rightarrow> string" where
  "or_text a b = (if a = [] then b else a)"

definition drain_allocation :: "int \<Rightarrow> string \<Rightarrow> int \<Rightarrow> pool \<Rightarrow> pool" where
  "drain_allocation now reason aid p =
     update_pool_allocations (\<lambda>a. a_id a = aid \<and> a_state a \<in> {Warm, Active, Draining})
       (\<lambda>a. a\<lparr>a_state := Draining, a_drain_reason := reason, a_drain_at := stamp_or (a_drain_at a) (At now), a_updated_at := At now\<rparr>) p"

definition note_fault :: "int \<Rightarrow> string \<Rightarrow> string \<Rightarrow> string \<Rightarrow> lease \<Rightarrow> lease" where
  "note_fault now phase kind message l =
     l\<lparr>ls_fault_phase := phase, ls_fault_kind := kind,
       ls_failure_message := (if message = [] then ls_failure_message l else message), ls_updated_at := At now\<rparr>"

definition suspect_transport :: "int \<Rightarrow> string \<Rightarrow> int \<Rightarrow> pool \<Rightarrow> pool" where
  "suspect_transport now message sid p =
     update_sessions (\<lambda>s. d_id s = sid \<and> d_state s \<in> {SReady, SBusy})
       (\<lambda>s. s\<lparr>d_state := SUnhealthy, d_failure_message := ''client transport suspect: '' @ message,
              d_drain_requested_at := Blank, d_updated_at := At now\<rparr>) p"

definition suspect_death :: "int \<Rightarrow> string \<Rightarrow> int \<Rightarrow> pool \<Rightarrow> pool" where
  "suspect_death now message sid p =
     update_sessions (\<lambda>s. d_id s = sid \<and> d_state s \<in> {SReady, SBusy, SDraining})
       (\<lambda>s. s\<lparr>d_state := SUnhealthy, d_failure_message := message, d_quarantine_reason := ''aedt_death_reported'',
              d_drain_requested_at := stamp_or (d_drain_requested_at s) (At now), d_updated_at := At now\<rparr>) p"

definition quarantine_solver :: "int \<Rightarrow> int \<Rightarrow> string \<Rightarrow> int \<Rightarrow> int \<Rightarrow> int \<Rightarrow> pool \<Rightarrow> pool" where
  "quarantine_solver now grace message lid sid aid p =
     (let p1 = update_leases (\<lambda>l. ls_id l = lid \<and> ls_state l \<in> {LLeased, LAttaching, LActive})
                 (cancelling_lease now (or_text message ''solver timeout'')) p;
          p2 = update_sessions (\<lambda>s. d_id s = sid \<and> d_state s \<in> {SReady, SBusy, SDraining})
                 (\<lambda>s. s\<lparr>d_state := SDraining, d_quarantine_reason := ''solver_timeout'',
                        d_quarantine_until := later now (max 60 (min 3600 grace)),
                        d_failure_message := or_text message ''solver timeout; sibling grace active'',
                        d_reuse_blocked_at := stamp_or (d_reuse_blocked_at s) (At now),
                        d_drain_requested_at := stamp_or (d_drain_requested_at s) (At now), d_updated_at := At now\<rparr>) p1 in
      drain_allocation now ''AEDT pool solver fault quarantine'' aid p2)"

definition session_allocation_of :: "pool \<Rightarrow> int \<Rightarrow> int" where
  "session_allocation_of p sid = (case get_session p sid of None \<Rightarrow> 0 | Some s \<Rightarrow> d_allocation_id s)"

definition report_project_fault ::
  "int \<Rightarrow> pool \<Rightarrow> int \<Rightarrow> string \<Rightarrow> string \<Rightarrow> string \<Rightarrow> int \<Rightarrow> string \<Rightarrow> pool \<Rightarrow> outcome" where
  "report_project_fault now seen lid token_hash kind0 phase0 grace message0 p =
     (case authorize_lease seen lid token_hash of Inl e \<Rightarrow> (p, Some e)
      | Inr l \<Rightarrow>
          (let kind = lower (strip kind0); message = strip message0; sid = or_zero (ls_session_id l) in
           if kind \<notin> set project_faults
           then (p, Some (Rejected (''fault_kind must be one of: '' @ join '', '' (sort project_faults))))
           else
             (let p1 = update_leases (\<lambda>r. ls_id r = lid) (note_fault now (lower (strip phase0)) kind message) p in
              if kind \<in> set local_faults
              then cancel_lease now lid token_hash (or_text message (map (\<lambda>c. if c = CHR ''_'' then CHR '' '' else c) kind)) p1
              else if sid = 0 then cancel_lease now lid token_hash kind p1
              else if kind = ''aedt_transport_death''
              then (let text = or_text message ''project client lost AEDT transport'' in
                    cancel_lease now lid token_hash text (suspect_transport now text sid p1))
              else if kind = ''aedt_death''
              then (case get_session p1 sid of None \<Rightarrow> (p1, Some Unknown_Row)
                    | Some s \<Rightarrow> (drain_allocation now ''AEDT pool reported AEDT/gRPC death'' (d_allocation_id s)
                               (suspect_death now (or_text message ''project client lost AEDT/gRPC connection'') sid p1), None))
              else (quarantine_solver now grace message lid sid (session_allocation_of seen sid) p1, None))))"

end
