(* ===== verification/Aedt_Host.thy ===== *)
theory Aedt_Host
  imports Aedt_Lease
begin

text \<open>
  The endpoints of the AEDT pool that a session host calls (\<open>aedt_pool.py\<close>): claiming and registering
  a start, heartbeats, the commands it polls, the acknowledgement of a release, faults, the end of a
  session and the reaping of a dead one. The reconciliation that \<open>register_session\<close> and
  \<open>reap_dead_session\<close> run afterwards, in transactions of their own, is a separate action of a run.
  Columns that only record artifact paths and evidence are left out of the rows.
\<close>

section \<open>Starting\<close>

definition short_node_name :: "string \<Rightarrow> string" where
  "short_node_name s = takeWhile (\<lambda>c. c \<noteq> CHR ''.'') (lower (strip s))"

record host_claim =
  hc_allocation_id :: int
  hc_node_name :: string
  hc_host_id :: string
  hc_actual_node_name :: string
  hc_slurm_job_id :: string
  hc_host_process_id :: string
  hc_session_id :: int

definition claimable :: "host_claim \<Rightarrow> aedt_session \<Rightarrow> bool" where
  "claimable h s = (d_state s = SStarting \<and> d_allocation_id s = hc_allocation_id h \<and> d_node_name s = strip (hc_node_name h)
     \<and> (d_host_id s = [] \<or> d_host_id s = strip (hc_host_id h)))"

definition claim_candidate :: "host_claim \<Rightarrow> pool \<Rightarrow> aedt_session option" where
  "claim_candidate h p =
     (let rows = sort_key d_id (filter (claimable h) (sessions p)) in
      if 0 < hc_session_id h then find (\<lambda>s. d_id s = hc_session_id h) rows
      else (case filter (\<lambda>s. d_host_id s = strip (hc_host_id h)) rows @ filter (\<lambda>s. d_host_id s \<noteq> strip (hc_host_id h)) rows of
              [] \<Rightarrow> None | s # _ \<Rightarrow> Some s))"

definition host_task_pinned :: "pool \<Rightarrow> int \<Rightarrow> aedt_session \<Rightarrow> pool_error option" where
  "host_task_pinned p aid s =
     (if d_host_task_id s = 0 then None
      else case get_task (pool_base p) (d_host_task_id s) of
          None \<Rightarrow> Some (Rejected ''session host task no longer exists'')
        | Some t \<Rightarrow> if t_requested_allocation_id t \<noteq> aid \<or> or_zero (t_allocation_id t) \<noteq> aid
                       \<or> t_status t \<notin> {Attaching, Running}
                   then Some (Rejected ''session host task is not pinned to its allocation'') else None)"

definition claimed_session :: "int \<Rightarrow> host_claim \<Rightarrow> string \<Rightarrow> string \<Rightarrow> aedt_session \<Rightarrow> aedt_session" where
  "claimed_session now h node job s =
     s\<lparr>d_host_id := strip (hc_host_id h), d_start_claimed_at := stamp_or (d_start_claimed_at s) (At now),
       d_actual_node_name := node, d_host_slurm_job_id := job, d_host_process_id := strip (hc_host_process_id h), d_updated_at := At now\<rparr>"

definition claim_start :: "int \<Rightarrow> bool \<Rightarrow> host_claim \<Rightarrow> pool \<Rightarrow> outcome \<times> int option" where
  "claim_start now bootstrap_ok h p =
     (if \<not> bootstrap_ok then ((p, Some Bad_Token), None)
      else if strip (hc_host_id h) = [] then ((p, Some (Rejected ''host_id is required'')), None)
      else case claim_candidate h p of None \<Rightarrow> ((p, None), None)
      | Some s \<Rightarrow>
          (case get_allocation (pool_base p) (d_allocation_id s) of
             None \<Rightarrow> ((p, Some (Rejected ''session allocation no longer exists'')), None)
           | Some a \<Rightarrow>
               (let actual = strip (hc_actual_node_name h);
                    expected_node = or_text (d_node_name s) (a_node_name a);
                    job = strip (hc_slurm_job_id h);
                    expected_job = strip (case a_slurm_job_id a of None \<Rightarrow> [] | Some j \<Rightarrow> j) in
                if actual \<noteq> [] \<and> short_node_name actual \<noteq> short_node_name expected_node
                then ((p, Some (Rejected (''host is running on '' @ actual @ '', expected '' @ expected_node))), None)
                else if job \<noteq> [] \<and> expected_job \<noteq> [] \<and> job \<noteq> expected_job
                then ((p, Some (Rejected (''host Slurm job '' @ job @ '' does not own allocation '' @ show_int (hc_allocation_id h)
                       @ '' ('' @ expected_job @ '')''))), None)
                else case host_task_pinned p (hc_allocation_id h) s of Some e \<Rightarrow> ((p, Some e), None)
                | None \<Rightarrow>
                    ((update_sessions (\<lambda>r. d_id r = d_id s \<and> d_state r = SStarting \<and> (d_host_id r = [] \<or> d_host_id r = strip (hc_host_id h)))
                        (claimed_session now h (or_text actual expected_node) (or_text job expected_job)) p, None), Some (d_id s)))))"

definition start_ack_timeout :: string where
  "start_ack_timeout = ''session start acknowledgement timed out''"

definition heartbeat_timeout_message :: string where
  "heartbeat_timeout_message = ''session heartbeat expired''"

definition unhealthy_recycle :: string where
  "unhealthy_recycle = ''AEDT pool unhealthy/quarantined session allocation recycle''"

definition faulted_recycle :: string where
  "faulted_recycle = ''AEDT pool faulted Desktop allocation recycle''"

definition pool_demand :: string where
  "pool_demand = ''AEDT pool project demand''"

record registration =
  rg_host_id :: string
  rg_endpoint :: string
  rg_process_id :: string
  rg_session_profile :: string
  rg_presented_token_hash :: "string option"
  rg_issued_token_hash :: string

definition same_registration :: "registration \<Rightarrow> aedt_session \<Rightarrow> bool" where
  "same_registration r s = (d_host_id s = strip (rg_host_id r)
     \<and> rg_presented_token_hash r = Some (d_host_token_hash s) \<and> d_host_token_hash s \<noteq> []
     \<and> d_endpoint s = strip (rg_endpoint r) \<and> d_process_id s = strip (rg_process_id r))"

definition recovered_start_timeout :: "registration \<Rightarrow> aedt_session \<Rightarrow> bool" where
  "recovered_start_timeout r s = (d_host_id s = strip (rg_host_id r) \<and> d_state s = SUnhealthy
     \<and> d_failure_message s = start_ack_timeout \<and> d_started_at s = Blank \<and> d_host_token_hash s = [])"

definition registered_session :: "int \<Rightarrow> registration \<Rightarrow> session_state \<Rightarrow> aedt_session \<Rightarrow> aedt_session" where
  "registered_session now r st s =
     s\<lparr>d_state := st, d_endpoint := strip (rg_endpoint r), d_process_id := strip (rg_process_id r),
       d_session_profile := (if rg_session_profile r = [] then d_session_profile s else rg_session_profile r),
       d_host_token_hash := rg_issued_token_hash r, d_started_at := At now, d_last_heartbeat_at := At now,
       d_idle_since := At now, d_failure_message := [], d_drain_requested_at := Blank, d_updated_at := At now\<rparr>"

definition reopen_allocation :: "int \<Rightarrow> int \<Rightarrow> pool \<Rightarrow> pool" where
  "reopen_allocation now aid p =
     (if list_ex (\<lambda>s. d_allocation_id s = aid \<and> (d_state s = SUnhealthy \<or> d_quarantine_reason s \<noteq> [])) (sessions p) then p
      else update_pool_allocations (\<lambda>a. a_id a = aid \<and> a_state a = Draining \<and> a_drain_reason a = unhealthy_recycle)
        (\<lambda>a. a\<lparr>a_state := Active, a_drain_reason := pool_demand, a_drain_at := Blank, a_failure_message := [], a_updated_at := At now\<rparr>) p)"

definition not_owned :: pool_error where
  "not_owned = Rejected ''session start claim is not owned by this host''"

definition register_session :: "pool_config \<Rightarrow> int \<Rightarrow> bool \<Rightarrow> int \<Rightarrow> registration \<Rightarrow> pool \<Rightarrow> outcome" where
  "register_session cfg now bootstrap_ok sid r p =
     (if \<not> bootstrap_ok then (p, Some Bad_Token)
      else if strip (rg_host_id r) = [] then (p, Some (Rejected ''host_id is required''))
      else case get_session p sid of None \<Rightarrow> (p, Some Unknown_Row)
      | Some s \<Rightarrow>
          (let recovered = recovered_start_timeout r s;
               allocation = get_allocation (pool_base p) (d_allocation_id s);
               wanted = (if pc_enabled cfg then SReady else SDraining) in
           if d_session_profile s \<noteq> [] \<and> d_session_profile s \<noteq> rg_session_profile r
           then (p, Some (Rejected ''session host profile does not match admitted lease profile''))
           else if same_registration r s \<and> d_state s \<in> {SReady, SBusy, SDraining, SUnhealthy} then (p, None)
           else if d_state s \<noteq> SStarting \<and> \<not> recovered then (p, Some not_owned)
           else if d_host_id s \<noteq> strip (rg_host_id r) then (p, Some not_owned)
           else if recovered \<and> (case allocation of None \<Rightarrow> True | Some a \<Rightarrow> a_state a \<notin> {Warm, Active, Draining})
           then (p, Some (Rejected ''session allocation is no longer available''))
           else
             (let st = (if recovered \<and> (case allocation of None \<Rightarrow> False
                              | Some a \<Rightarrow> a_state a = Draining \<and> a_drain_reason a \<noteq> unhealthy_recycle)
                        then SDraining else wanted);
                  p1 = update_sessions (\<lambda>x. d_id x = sid) (registered_session now r st) p in
              (if recovered \<and> st = SReady then reopen_allocation now (d_allocation_id s) p1 else p1, None))))"

definition fail_session_start :: "int \<Rightarrow> bool \<Rightarrow> int \<Rightarrow> string \<Rightarrow> string \<Rightarrow> pool \<Rightarrow> outcome" where
  "fail_session_start now bootstrap_ok sid host_id message p =
     (let P = (\<lambda>s. d_id s = sid \<and> d_state s = SStarting \<and> d_host_id s = strip host_id) in
      if \<not> bootstrap_ok then (p, Some Bad_Token)
      else if \<not> list_ex P (sessions p) then (p, Some not_owned)
      else (update_sessions P (\<lambda>s. s\<lparr>d_state := SFailed, d_failure_message := or_text (strip message) ''AEDT session start failed'',
               d_closed_at := At now, d_updated_at := At now\<rparr>) p, None))"

definition bind_session_host_task :: "int \<Rightarrow> int \<Rightarrow> int \<Rightarrow> pool \<Rightarrow> outcome" where
  "bind_session_host_task now sid tid p =
     (case (get_session p sid, get_task (pool_base p) tid) of
        (Some s, Some t) \<Rightarrow>
          (let P = (\<lambda>r. d_id r = sid \<and> d_state r = SStarting \<and> (d_host_task_id r = 0 \<or> d_host_task_id r = tid)) in
           if t_requested_allocation_id t \<noteq> d_allocation_id s then (p, Some (Rejected ''session host task is not allocation-pinned''))
           else if \<not> list_ex P (sessions p) then (p, Some (Rejected ''session host task is already owned''))
           else (update_sessions P (\<lambda>r. r\<lparr>d_host_task_id := tid, d_updated_at := At now\<rparr>) p, None))
      | _ \<Rightarrow> (p, Some (Rejected ''session or host task no longer exists'')))"

section \<open>Heartbeats\<close>

fun session_state_value :: "session_state \<Rightarrow> string" where
  "session_state_value SStarting = ''starting''"
| "session_state_value SReady = ''ready''"
| "session_state_value SBusy = ''busy''"
| "session_state_value SDraining = ''draining''"
| "session_state_value SUnhealthy = ''unhealthy''"
| "session_state_value SFailed = ''failed''"
| "session_state_value SClosed = ''closed''"

definition authorize_session :: "pool \<Rightarrow> int \<Rightarrow> string \<Rightarrow> pool_error + aedt_session" where
  "authorize_session p sid token_hash =
     (case get_session p sid of None \<Rightarrow> Inl Unknown_Row
      | Some s \<Rightarrow> if d_host_token_hash s = [] \<or> d_host_token_hash s \<noteq> token_hash then Inl Bad_Token else Inr s)"

record liveness =
  lv_confirmed :: bool
  lv_process_id :: string
  lv_port :: int
  lv_native_probe :: string

text \<open>The text after the last colon, as \<open>int(...)\<close> reads it; 0 when there is none.\<close>

definition registered_port :: "string \<Rightarrow> int" where
  "registered_port endpoint =
     (if CHR '':'' \<notin> set endpoint then 0
      else case py_int (rev (takeWhile (\<lambda>c. c \<noteq> CHR '':'') (rev endpoint))) of None \<Rightarrow> 0 | Some n \<Rightarrow> n)"

definition validate_session_heartbeat :: "aedt_session \<Rightarrow> string \<Rightarrow> liveness \<Rightarrow> pool_error option" where
  "validate_session_heartbeat s token_hash v =
     (if d_host_token_hash s = [] \<or> d_host_token_hash s \<noteq> token_hash then Some Bad_Token
      else if d_state s \<notin> {SReady, SBusy, SDraining, SUnhealthy} then Some (Rejected (''session is '' @ session_state_value (d_state s)))
      else if \<not> lv_confirmed v then Some (Rejected ''host heartbeat requires fresh Desktop liveness proof'')
      else if lv_process_id v \<noteq> [] \<and> strip (lv_process_id v) \<noteq> d_process_id s
      then Some (Rejected ''heartbeat Desktop process_id does not match registration'')
      else if lv_port v \<noteq> 0 \<and> lv_port v \<noteq> registered_port (d_endpoint s)
      then Some (Rejected ''heartbeat Desktop port does not match registration'')
      else if lv_native_probe v \<noteq> [] \<and> lv_native_probe v \<noteq> ''GetVersion''
      then Some (Rejected ''unsupported Desktop native liveness probe'')
      else None)"

definition transport_suspect :: "string \<Rightarrow> bool" where
  "transport_suspect m = (startswith m ''client transport suspect:'' \<or> startswith m ''host native liveness suspect:'')"

definition barrier_clears :: "int \<Rightarrow> int \<Rightarrow> pool \<Rightarrow> aedt_session \<Rightarrow> bool" where
  "barrier_clears now sid p s = (d_id s = sid \<and> stamp_before (d_reuse_blocked_at s) now \<and> d_state s \<in> {SReady, SBusy}
     \<and> d_failure_message s = [] \<and> d_quarantine_reason s = []
     \<and> \<not> list_ex (\<lambda>l. ls_session_id l = Some (d_id s) \<and> ls_state l = LReleasing) (leases p))"

definition recoverable :: "pool \<Rightarrow> aedt_session \<Rightarrow> bool" where
  "recoverable p s = (d_state s = SUnhealthy \<and> (d_failure_message s = heartbeat_timeout_message \<or> transport_suspect (d_failure_message s))
     \<and> d_quarantine_reason s = []
     \<and> (case get_allocation (pool_base p) (d_allocation_id s) of None \<Rightarrow> False
        | Some a \<Rightarrow> a_state a \<in> {Warm, Active} \<or> (a_state a = Draining \<and> a_drain_reason a = unhealthy_recycle)))"

definition recovered_session :: "int \<Rightarrow> bool \<Rightarrow> aedt_session \<Rightarrow> aedt_session" where
  "recovered_session now live s =
     s\<lparr>d_state := (if live then SBusy else SReady), d_failure_message := [], d_drain_requested_at := Blank,
       d_last_heartbeat_at := At now, d_idle_since := (if live then Blank else At now), d_updated_at := At now\<rparr>"

definition clear_barrier :: "int \<Rightarrow> int \<Rightarrow> pool \<Rightarrow> pool" where
  "clear_barrier now sid p =
     update_sessions (barrier_clears now sid p)
       (\<lambda>s. s\<lparr>d_reuse_blocked_at := Blank, d_last_heartbeat_at := At now, d_updated_at := At now\<rparr>) p"

definition heartbeat_recovery :: "int \<Rightarrow> bool \<Rightarrow> aedt_session \<Rightarrow> pool \<Rightarrow> pool" where
  "heartbeat_recovery now pool_operational s p =
     (if pool_operational \<and> recoverable p s
      then reopen_allocation now (d_allocation_id s)
             (update_sessions (\<lambda>r. d_id r = d_id s) (recovered_session now (occupants p (d_id s) \<noteq> [])) p)
      else update_sessions (\<lambda>r. d_id r = d_id s) (\<lambda>r. r\<lparr>d_last_heartbeat_at := At now, d_updated_at := At now\<rparr>) p)"

definition heartbeat_session :: "pool_config \<Rightarrow> int \<Rightarrow> bool \<Rightarrow> pool \<Rightarrow> int \<Rightarrow> string \<Rightarrow> liveness \<Rightarrow> pool \<Rightarrow> outcome" where
  "heartbeat_session cfg now pool_operational seen sid token_hash v p =
     (case get_session seen sid of None \<Rightarrow> (p, Some Unknown_Row)
      | Some candidate \<Rightarrow>
          (case validate_session_heartbeat candidate token_hash v of Some e \<Rightarrow> (p, Some e)
           | None \<Rightarrow>
               if d_state candidate \<in> {SReady, SBusy} \<and> d_failure_message candidate = [] \<and> d_quarantine_reason candidate = []
                  \<and> d_reuse_blocked_at candidate = Blank
                  \<and> heartbeat_is_fresh (d_last_heartbeat_at candidate) now
                      (heartbeat_persist_interval_seconds (pc_session_heartbeat_timeout_seconds cfg) sid)
               then (p, None)
               else case get_session p sid of None \<Rightarrow> (p, Some Unknown_Row)
               | Some s \<Rightarrow>
                   (case validate_session_heartbeat s token_hash v of Some e \<Rightarrow> (p, Some e)
                    | None \<Rightarrow>
                        (let cleared = barrier_clears now sid p s;
                             p1 = clear_barrier now sid p;
                             p2 = heartbeat_recovery now pool_operational s p1 in
                         commit p (if cleared \<and> pool_operational then placed (place_queued_leases cfg now [] True p2) else Inr p2)))))"

section \<open>Commands and releases\<close>

record host_commands =
  hm_close_projects :: "lease list"
  hm_deferred_projects :: "lease list"
  hm_drain :: bool
  hm_sibling_live_count :: nat
  hm_global_stop_allowed :: bool

definition timeout_owner :: "lease \<Rightarrow> bool" where
  "timeout_owner l = (let m = lower (ls_failure_message l) in contains m ''timeout'' \<or> contains m ''heartbeat expired'')"

definition session_commands :: "int \<Rightarrow> int \<Rightarrow> string \<Rightarrow> pool \<Rightarrow> pool_error + host_commands" where
  "session_commands now sid token_hash p =
     (case authorize_session p sid token_hash of Inl e \<Rightarrow> Inl e
      | Inr s \<Rightarrow>
          (let rows = sort_key ls_id (filter (\<lambda>l. ls_session_id l = Some sid \<and> ls_state l = LReleasing) (leases p));
               sibling_live = length (filter (\<lambda>l. ls_session_id l = Some sid \<and> ls_state l \<in> {LOffered, LLeased, LAttaching, LActive}) (leases p));
               grace_expired = stamp_until (d_quarantine_until s) now;
               quarantined = (d_quarantine_reason s \<noteq> []) in
           Inr \<lparr>hm_close_projects = filter (\<lambda>l. \<not> (quarantined \<and> timeout_owner l)) rows,
                hm_deferred_projects = filter (\<lambda>l. quarantined \<and> timeout_owner l) rows,
                hm_drain = (d_state s \<in> {SDraining, SUnhealthy}),
                hm_sibling_live_count = sibling_live,
                hm_global_stop_allowed = (d_state s \<in> {SDraining, SUnhealthy} \<and> quarantined \<and> (sibling_live = 0 \<or> grace_expired))\<rparr>))"

definition failed_cleanup :: "int \<Rightarrow> string \<Rightarrow> int \<Rightarrow> pool \<Rightarrow> pool" where
  "failed_cleanup now message sid p =
     update_sessions (\<lambda>s. d_id s = sid \<and> d_state s \<notin> {SClosed, SFailed})
       (\<lambda>s. s\<lparr>d_state := SUnhealthy, d_drain_requested_at := At now, d_quarantine_until := At now,
              d_quarantine_reason := ''project release cleanup failed'',
              d_failure_message := or_text message ''session host could not confirm project cleanup'', d_updated_at := At now\<rparr>) p"

definition finish_release :: "int \<Rightarrow> int \<Rightarrow> int \<Rightarrow> bool \<Rightarrow> string \<Rightarrow> pool \<Rightarrow> pool" where
  "finish_release now sid lid success message p =
     (let p1 = update_leases (\<lambda>r. ls_id r = lid \<and> ls_session_id r = Some sid \<and> ls_state r = LReleasing)
                 (finished_lease now (if success then LReleased else LFailed) message) p;
          p2 = update_sessions (\<lambda>s. d_id s = sid \<and> d_state s \<notin> {SClosed, SFailed})
                 (\<lambda>s. s\<lparr>d_reuse_blocked_at := At now, d_updated_at := At now\<rparr>) p1;
          p3 = (if success then p2 else failed_cleanup now message sid p2) in
      refresh_exact_session_reservations now (refresh_session_state now sid p3))"

definition complete_release :: "pool_config \<Rightarrow> int \<Rightarrow> pool \<Rightarrow> int \<Rightarrow> string \<Rightarrow> int \<Rightarrow> bool \<Rightarrow> string \<Rightarrow> pool \<Rightarrow> outcome" where
  "complete_release cfg now seen sid token_hash lid success message0 p =
     (case authorize_session seen sid token_hash of Inl e \<Rightarrow> (p, Some e)
      | Inr _ \<Rightarrow>
          (let message = (if success then [] else strip message0) in
           case find (\<lambda>l. ls_id l = lid \<and> ls_session_id l = Some sid) (leases p) of None \<Rightarrow> (p, Some Unknown_Row)
           | Some l \<Rightarrow>
               if ls_state l \<noteq> LReleasing
               then (p, if ls_state l = (if success then LReleased else LFailed) \<and> ls_failure_message l = message
                        then None else Some (lease_is l))
               else
                 (let p4 = finish_release now sid lid success message p in
                  commit p (if operational cfg then placed (place_queued_leases cfg now [] True p4) else Inr p4))))"

section \<open>Faults and the end of a session\<close>

definition live_native_owner :: "int \<Rightarrow> int \<Rightarrow> pool \<Rightarrow> bool" where
  "live_native_owner now sid p =
     list_ex (\<lambda>l. ls_session_id l = Some sid \<and> ls_state l \<in> {LLeased, LAttaching, LActive, LReleasing} \<and> stamp_from (ls_expires_at l) now) (leases p)"

definition native_probe_suspect :: "int \<Rightarrow> string \<Rightarrow> int \<Rightarrow> pool \<Rightarrow> pool" where
  "native_probe_suspect now message sid p =
     (let owner = live_native_owner now sid p in
      update_sessions (\<lambda>s. d_id s = sid \<and> d_state s \<in> {SReady, SBusy, SUnhealthy})
        (\<lambda>s. s\<lparr>d_state := SUnhealthy, d_quarantine_reason := [],
               d_failure_message := ''host native liveness suspect: '' @ message, d_last_fault_at := At now,
               d_drain_requested_at := (if owner then Blank else stamp_or (d_drain_requested_at s) (At now)),
               d_last_heartbeat_at := (if owner then At now else d_last_heartbeat_at s), d_updated_at := At now\<rparr>) p)"

definition confirmed_death :: "int \<Rightarrow> string \<Rightarrow> int \<Rightarrow> int \<Rightarrow> pool \<Rightarrow> pool" where
  "confirmed_death now message sid aid p =
     drain_allocation now faulted_recycle aid
       (update_sessions (\<lambda>s. d_id s = sid \<and> d_state s \<in> {SReady, SBusy, SDraining, SUnhealthy})
          (\<lambda>s. s\<lparr>d_state := SUnhealthy, d_quarantine_reason := ''confirmed_aedt_death'', d_failure_message := message,
                 d_last_fault_at := At now, d_drain_requested_at := stamp_or (d_drain_requested_at s) (At now), d_updated_at := At now\<rparr>) p)"

definition report_session_fault :: "int \<Rightarrow> pool \<Rightarrow> int \<Rightarrow> string \<Rightarrow> string \<Rightarrow> string \<Rightarrow> pool \<Rightarrow> outcome" where
  "report_session_fault now seen sid token_hash kind0 message0 p =
     (case authorize_session seen sid token_hash of Inl e \<Rightarrow> (p, Some e)
      | Inr s \<Rightarrow>
          (let kind = lower (strip kind0); message = or_text (strip message0) ''session host confirmed AEDT process death'' in
           if kind = ''native_probe_suspect'' then (native_probe_suspect now message sid p, None)
           else if kind = ''confirmed_aedt_death'' then (confirmed_death now message sid (d_allocation_id s) p, None)
           else (p, Some (Rejected ''session fault kind must be confirmed_aedt_death or native_probe_suspect''))))"

definition requeued_lease :: "pool_config \<Rightarrow> int \<Rightarrow> string \<Rightarrow> lease \<Rightarrow> lease" where
  "requeued_lease cfg now message l =
     l\<lparr>ls_state := LQueued, ls_session_id := None, ls_slot_index := None, ls_requested_allocation_id := 0,
       ls_requested_node_name := [], ls_acquired_at := Blank, ls_release_requested_at := Blank,
       ls_solve_permit_at := Blank, ls_solve_permit_generation := 0, ls_failure_message := message,
       ls_last_heartbeat_at := At now, ls_expires_at := later now (pc_lease_ttl_seconds cfg), ls_updated_at := At now\<rparr>"

definition close_message :: "int \<Rightarrow> bool \<Rightarrow> string \<Rightarrow> string" where
  "close_message sid success message = ''exact-session reservation target '' @ show_int sid @ '' ''
     @ (if message \<noteq> [] then ''failed: '' @ message
        else if success then ''closed before cohort completion'' else ''failed before cohort completion'')"

definition close_session :: "pool_config \<Rightarrow> int \<Rightarrow> pool \<Rightarrow> int \<Rightarrow> string \<Rightarrow> bool \<Rightarrow> string \<Rightarrow> bool \<Rightarrow> pool \<Rightarrow> outcome" where
  "close_session cfg now seen sid token_hash success message0 requeue_siblings p =
     (case authorize_session seen sid token_hash of Inl e \<Rightarrow> (p, Some e)
      | Inr _ \<Rightarrow>
          (case get_session p sid of None \<Rightarrow> (p, Some Unknown_Row)
           | Some s \<Rightarrow>
               (let message = strip message0; live = (occupants p sid \<noteq> []) in
                if live \<and> success then (p, Some (Rejected ''session still has live project leases''))
                else
                  (let p1 = fail_exact_session_reservations_for_target now sid (close_message sid success message) p;
                       p2 = (if \<not> live then p1
                             else if requeue_siblings
                             then update_leases (\<lambda>l. occupies sid l \<and> ls_exact_session_reservation_id l = 0)
                                    (requeued_lease cfg now (or_text message ''AEDT session died; lease requeued'')) p1
                             else update_leases (occupies sid) (finished_lease now LFailed (or_text message ''AEDT session failed'')) p1);
                       p3 = update_sessions (\<lambda>r. d_id r = sid)
                              (\<lambda>r. r\<lparr>d_state := (if success then SClosed else SFailed),
                                     d_failure_message := (if success then [] else message),
                                     d_closed_at := At now, d_updated_at := At now\<rparr>) p2 in
                   (if \<not> success \<and> d_allocation_id s \<noteq> 0 then drain_allocation now faulted_recycle (d_allocation_id s) p3 else p3,
                    None)))))"

record session_identity =
  si_generation :: int
  si_allocation_id :: int
  si_host_id :: string
  si_host_task_id :: int
  si_host_process_id :: string
  si_process_id :: string

text \<open>The name of the first field of a list of comparisons that fails.\<close>

definition first_mismatch :: "(string \<times> bool) list \<Rightarrow> string option" where
  "first_mismatch checks = map_option fst (find (\<lambda>c. \<not> snd c) checks)"

definition identity_mismatch :: "session_identity \<Rightarrow> aedt_session \<Rightarrow> string option" where
  "identity_mismatch i s = first_mismatch
     [(''generation'', d_generation s = si_generation i),
      (''allocation_id'', d_allocation_id s = si_allocation_id i),
      (''host_id'', strip (d_host_id s) = strip (si_host_id i)),
      (''host_task_id'', d_host_task_id s = si_host_task_id i),
      (''host_process_id'', strip (d_host_process_id s) = strip (si_host_process_id i)),
      (''process_id'', strip (d_process_id s) = strip (si_process_id i))]"

definition validate_dead_session_reap_candidate :: "pool \<Rightarrow> int \<Rightarrow> session_identity \<Rightarrow> pool_error + aedt_session" where
  "validate_dead_session_reap_candidate p sid i =
     (case get_session p sid of None \<Rightarrow> Inl Unknown_Row
      | Some s \<Rightarrow>
          if d_state s \<notin> {SUnhealthy, SDraining} then Inl (Rejected ''dead-session reap requires an unhealthy or draining session'')
          else if si_generation i = 0 \<or> si_allocation_id i = 0 \<or> strip (si_host_id i) = [] \<or> si_host_task_id i = 0
                  \<or> strip (si_host_process_id i) = [] \<or> strip (si_process_id i) = []
          then Inl (Rejected ''complete expected session identity is required'')
          else if identity_mismatch i s \<noteq> None
          then Inl (Rejected (''session '' @ the (identity_mismatch i s) @ '' does not match expected identity''))
          else if list_ex (\<lambda>l. ls_session_id l = Some sid \<and> ls_state l \<in> lease_live_states) (leases p)
          then Inl (Rejected ''dead-session reap requires zero live project leases'')
          else (case get_task (pool_base p) (d_host_task_id s) of None \<Rightarrow> Inl (Rejected ''session host task no longer exists'')
                | Some t \<Rightarrow>
                    if t_status t \<notin> terminal_statuses then Inl (Rejected ''session host task is not terminal'')
                    else if t_requested_allocation_id t \<noteq> d_allocation_id s \<or> or_zero (t_allocation_id t) \<noteq> d_allocation_id s
                    then Inl (Rejected ''session host task identity does not match its allocation'')
                    else Inr s))"

definition snapshot_mismatch :: "aedt_session \<Rightarrow> aedt_session \<Rightarrow> string option" where
  "snapshot_mismatch old s = first_mismatch
     [(''id'', d_id s = d_id old), (''state'', d_state s = d_state old), (''generation'', d_generation s = d_generation old),
      (''allocation_id'', d_allocation_id s = d_allocation_id old), (''account_name'', d_account_name s = d_account_name old),
      (''node_name'', d_node_name s = d_node_name old), (''host_id'', d_host_id s = d_host_id old),
      (''host_task_id'', d_host_task_id s = d_host_task_id old), (''host_process_id'', d_host_process_id s = d_host_process_id old),
      (''host_slurm_job_id'', d_host_slurm_job_id s = d_host_slurm_job_id old),
      (''actual_node_name'', d_actual_node_name s = d_actual_node_name old), (''endpoint'', d_endpoint s = d_endpoint old),
      (''process_id'', d_process_id s = d_process_id old), (''last_heartbeat_at'', d_last_heartbeat_at s = d_last_heartbeat_at old),
      (''updated_at'', d_updated_at s = d_updated_at old)]"

definition log_reap :: "int \<Rightarrow> pool \<Rightarrow> pool" where
  "log_reap sid p = p\<lparr>pool_base := (pool_base p)\<lparr>db_events := db_events (pool_base p)
     @ [\<lparr>e_kind = ''aedt_session_reaped'', e_entity_type = ''aedt_session'', e_entity_id = sid\<rparr>]\<rparr>\<rparr>"

text \<open>The remote process probe runs between two validations; the second one sees whatever happened meanwhile.\<close>

definition reap_dead_session :: "int \<Rightarrow> pool \<Rightarrow> bool \<Rightarrow> int \<Rightarrow> session_identity \<Rightarrow> pool \<Rightarrow> outcome" where
  "reap_dead_session now seen processes_absent sid i p =
     (case validate_dead_session_reap_candidate seen sid i of Inl e \<Rightarrow> (p, Some e)
      | Inr candidate \<Rightarrow>
          if \<not> processes_absent then (p, Some (Rejected ''session host or AEDT process identity is still present''))
          else (case validate_dead_session_reap_candidate p sid i of Inl e \<Rightarrow> (p, Some e)
                | Inr s \<Rightarrow>
                    (case snapshot_mismatch candidate s of
                       Some f \<Rightarrow> (p, Some (Rejected (''session changed during process identity probe ('' @ f @ '')'')))
                     | None \<Rightarrow>
                         (log_reap sid (update_sessions
                            (\<lambda>r. d_id r = sid \<and> d_state r = d_state candidate \<and> d_updated_at r = d_updated_at candidate)
                            (\<lambda>r. r\<lparr>d_state := SClosed, d_closed_at := At now, d_updated_at := At now\<rparr>) p), None))))"

end
