(* ===== verification/Aedt_Request.thy ===== *)
theory Aedt_Request
  imports Aedt_Host
begin

text \<open>
  \<open>AedtPoolService.request_lease\<close> (\<open>aedt_pool.py\<close>): the creation of a lease. A request is keyed by its
  durable request key and a client token: repeating it with the same token returns the lease of the
  first attempt, repeating it with another token replaces the lease only once it is terminal or
  abandoned. A task with an exact-session reservation, or a canary task, gets exactly the session that
  was reserved for it. The canonical form of the session profile and the result of the mixed-family
  validation are fields of the request, as the code computes them before its transaction.
\<close>

record lease_request =
  lr_request_key :: string
  lr_project_name :: string
  lr_placement_group :: "string option"
  lr_workload_family :: string
  lr_session_profile :: "pool_error + string"
  lr_project_namespace :: string
  lr_isolation_policy :: string
  lr_workspace_path :: string
  lr_protocol_version :: int
  lr_client_deadline_at :: stamp
  lr_admission_timeout_seconds :: "int option"
  lr_client_token :: string
  lr_token_hash :: string
  lr_task_id :: int
  lr_allocation_id :: int
  lr_node_name :: string
  lr_requested_session_id :: int
  lr_exclusive_session :: bool
  lr_mixed_validated :: bool

definition derive_placement_group :: "string \<Rightarrow> string" where
  "derive_placement_group name = lower (strip name)"

definition canonical_workload_family :: "string \<Rightarrow> string \<Rightarrow> string" where
  "canonical_workload_family family name =
     (if lower (strip family) \<noteq> [] then lower (strip family) else derive_placement_group name)"

definition round_second :: "int \<Rightarrow> int" where
  "round_second t = t div second * second"

text \<open>The checks before the transaction: the resolved placement group, profile, isolation policy and deadline.\<close>

definition resolve_group :: "lease_request \<Rightarrow> pool_error + string" where
  "resolve_group r =
     (case lr_placement_group r of None \<Rightarrow> Inr (derive_placement_group (strip (lr_project_name r)))
      | Some g \<Rightarrow> if strip g = [] then Inl (Rejected ''placement_group must not be empty'') else Inr (strip g))"

definition normalized_isolation :: "lease_request \<Rightarrow> string" where
  "normalized_isolation r = lower (strip (policy_or_family (lr_isolation_policy r)))"

definition resolve_deadline :: "pool_config \<Rightarrow> int \<Rightarrow> lease_request \<Rightarrow> pool_error + int" where
  "resolve_deadline cfg clock r =
     (let after = (\<lambda>d. if d \<le> clock then Inl (Rejected ''client_deadline_at must be in the future'') else Inr d) in
      case lr_admission_timeout_seconds r of
        Some k \<Rightarrow>
          (if lr_client_deadline_at r \<noteq> Blank then Inl (Rejected ''provide client_deadline_at or admission_timeout_seconds, not both'')
           else if \<not> (30 \<le> k \<and> k \<le> 3600)
           then Inl (Rejected ''admission_timeout_seconds must be an integer between 30 and 3600'')
           else after (clock + k * second))
      | None \<Rightarrow>
          (case lr_client_deadline_at r of
             Blank \<Rightarrow> after (clock + pc_admission_deadline_seconds cfg * second)
           | Garbled \<Rightarrow> Inl (Rejected ''timestamp must be ISO-8601'')
           | At d \<Rightarrow> after d))"

definition check_request :: "pool_config \<Rightarrow> int \<Rightarrow> lease_request \<Rightarrow> pool_error + (string \<times> string \<times> int)" where
  "check_request cfg clock r =
     (if strip (lr_request_key r) = [] then Inl (Rejected ''request_key is required'')
      else if strip (lr_project_name r) = [] then Inl (Rejected ''project_name is required'')
      else case resolve_group r of Inl e \<Rightarrow> Inl e
      | Inr grp \<Rightarrow>
          if lr_requested_session_id r < 0 then Inl (Rejected ''requested_session_id must be a non-negative integer'')
          else if lr_protocol_version r \<notin> {1, 2} then Inl (Rejected ''protocol_version must be 1 or 2'')
          else if 2 \<le> lr_protocol_version r \<and> strip (lr_workload_family r) = []
          then Inl (Rejected ''protocol-v2 workload_family is required'')
          else if 2 \<le> lr_protocol_version r \<and> strip (lr_workspace_path r) = []
          then Inl (Rejected ''protocol-v2 workspace_path is required'')
          else case lr_session_profile r of Inl e \<Rightarrow> Inl e
          | Inr profile \<Rightarrow>
              if normalized_isolation r \<notin> {''family'', ''shared_if_compatible'', ''exclusive''}
              then Inl (Rejected ''isolation_policy must be family, shared_if_compatible, or exclusive'')
              else if strip (lr_client_token r) \<noteq> [] \<and> length (strip (lr_client_token r)) < 16
              then Inl (Rejected ''client_token must contain at least 16 characters'')
              else (case resolve_deadline cfg clock r of Inl e \<Rightarrow> Inl e | Inr d \<Rightarrow> Inr (grp, profile, d)))"

section \<open>Affinity and reservations\<close>

definition resolve_affinity :: "lease_request \<Rightarrow> pool \<Rightarrow> pool_error + (int \<times> string)" where
  "resolve_affinity r p =
     (let tid = max 0 (lr_task_id r); aid = max 0 (lr_allocation_id r);
          node = (if aid = 0 then [] else strip (lr_node_name r)) in
      if tid = 0 \<or> aid = 0 then Inr (aid, node)
      else case get_task (pool_base p) tid of None \<Rightarrow> Inr (aid, node)
      | Some t \<Rightarrow>
          (let task_aid = or_zero (t_allocation_id t);
               task_node = (case get_allocation (pool_base p) task_aid of None \<Rightarrow> [] | Some a \<Rightarrow> a_node_name a) in
           if task_aid = 0 then Inl (Rejected ''task has no active allocation for affinity'')
           else if aid \<noteq> task_aid then Inl (Rejected ''requested allocation does not belong to task_id'')
           else if node \<noteq> [] \<and> short_node_name node \<noteq> short_node_name task_node
           then Inl (Rejected ''requested node does not belong to task_id'')
           else Inr (task_aid, task_node)))"

definition replays :: "lease_request \<Rightarrow> pool \<Rightarrow> int \<Rightarrow> bool" where
  "replays r p lid = (case find_lease p lid of None \<Rightarrow> False
     | Some l \<Rightarrow> ls_request_key l = strip (lr_request_key r) \<and> ls_client_token_hash l = lr_token_hash r)"

definition check_reserved_session :: "pool_config \<Rightarrow> int \<Rightarrow> pool \<Rightarrow> exact_reservation \<Rightarrow> pool_error option" where
  "check_reserved_session cfg now p x =
     (case get_session p (x_session_id x) of None \<Rightarrow> Some (Rejected ''reserved AEDT session is not assignable'')
      | Some s \<Rightarrow>
          if d_state s \<notin> {SReady, SBusy} then Some (Rejected ''reserved AEDT session is not assignable'')
          else if d_generation s \<noteq> x_session_generation x then Some (Rejected ''reserved AEDT session generation drifted'')
          else if d_session_profile s \<noteq> x_session_profile x then Some (Rejected ''reserved AEDT session profile drifted'')
          else if d_solve_batch_sealed_at s \<noteq> Blank \<or> d_drain_requested_at s \<noteq> Blank
          then Some (Rejected ''reserved AEDT session is sealed or draining'')
          else if allocation_state_of p (d_allocation_id s) \<notin> {Some Warm, Some Active}
          then Some (Rejected ''reserved AEDT session allocation is unavailable'')
          else if text_before (d_last_heartbeat_at s) (earlier now (pc_session_heartbeat_timeout_seconds cfg))
          then Some (Rejected ''reserved AEDT session heartbeat is stale'')
          else None)"

definition authorize_exact_session_reservation ::
  "pool_config \<Rightarrow> int \<Rightarrow> lease_request \<Rightarrow> string \<Rightarrow> pool \<Rightarrow> pool_error + exact_reservation option" where
  "authorize_exact_session_reservation cfg now r profile p =
     (let tid = max 0 (lr_task_id r); wanted = lr_requested_session_id r in
      if tid \<le> 0 then (if wanted \<noteq> 0 then Inl (Rejected ''requested_session_id requires a bootstrap-issued task reservation'') else Inr None)
      else case sort_desc x_id (filter (\<lambda>x. x_task_id x = tid) (reservations p)) of
        [] \<Rightarrow> (if wanted \<noteq> 0 then Inl (Rejected ''requested_session_id has no bootstrap-issued task reservation'') else Inr None)
      | x # _ \<Rightarrow>
          if wanted \<noteq> 0 \<and> wanted \<noteq> x_session_id x then Inl (Rejected ''requested_session_id does not match task reservation'')
          else if x_session_profile x \<noteq> profile then Inl (Rejected ''lease session profile does not match task reservation'')
          else if x_workload_family x \<noteq> []
                  \<and> (x_workload_family x \<noteq> canonical_workload_family (lr_workload_family r) (strip (lr_project_name r))
                     \<or> x_isolation_policy x \<noteq> normalized_isolation r)
          then Inl (Rejected ''lease workload isolation does not match task reservation'')
          else if or_zero (x_lease_id x) \<noteq> 0 \<and> replays r p (or_zero (x_lease_id x)) then Inr (Some x)
          else if or_zero (x_lease_id x) \<noteq> 0 \<and> x_state x \<in> {RClaimed, RConsumed}
          then Inl (Rejected ''exact-session task reservation is already claimed'')
          else if x_state x \<noteq> RReserved
          then Inl (Rejected (or_text (strip (x_failure_message x))
                 ''task exact-session reservation is no longer active; unpinned fallback is forbidden''))
          else if stamp_until (x_expires_at x) now then Inl (Rejected ''exact-session reservation expired'')
          else (case check_reserved_session cfg now p x of Some e \<Rightarrow> Inl e | None \<Rightarrow> Inr (Some x)))"

definition no_canary :: pool_error where
  "no_canary = Rejected ''shared_if_compatible requires passed mixed-family isolation validation or a bootstrap-issued canary task''"

definition check_canary_session :: "pool \<Rightarrow> canary_admission \<Rightarrow> string \<Rightarrow> pool_error option" where
  "check_canary_session p c profile =
     (case get_session p (ca_session_id c) of None \<Rightarrow> Some (Rejected ''mixed canary session is not ready'')
      | Some s \<Rightarrow>
          if d_state s \<notin> {SReady, SBusy} then Some (Rejected ''mixed canary session is not ready'')
          else if int (d_slots_total s) \<noteq> ca_expected_projects c then Some (Rejected ''mixed canary session slot count changed'')
          else if d_solve_batch_sealed_at s \<noteq> Blank \<or> d_drain_requested_at s \<noteq> Blank
          then Some (Rejected ''mixed canary session is sealed or draining'')
          else if d_session_profile s \<noteq> profile then Some (Rejected ''mixed canary host session profile drifted'')
          else None)"

definition authorize_mixed_canary_lease ::
  "int \<Rightarrow> lease_request \<Rightarrow> string \<Rightarrow> pool \<Rightarrow> pool_error + (canary_slot \<times> canary_admission)" where
  "authorize_mixed_canary_lease now r profile p =
     (let tid = max 0 (lr_task_id r) in
      if tid \<le> 0 then Inl no_canary
      else case get_task (pool_base p) tid of None \<Rightarrow> Inl (Rejected ''mixed canary task is missing or terminal'')
      | Some t \<Rightarrow>
          if t_status t \<in> terminal_statuses then Inl (Rejected ''mixed canary task is missing or terminal'')
          else if t_aedt_backend t \<noteq> Pooled then Inl (Rejected ''mixed canary task must declare aedt_backend=pooled'')
          else if lr_protocol_version r \<noteq> 2 then Inl (Rejected ''mixed canary task requires protocol_version=2'')
          else case find (\<lambda>k. cs_dedupe_key k = t_dedupe_key t) (canary_slots p) of None \<Rightarrow> Inl no_canary
          | Some k \<Rightarrow>
              (case tbl_get ca_id (canaries p) (cs_admission_id k) of None \<Rightarrow> Inl no_canary
               | Some c \<Rightarrow>
                   if ca_state c \<notin> {COpen, CFilled} then Inl (Rejected ''mixed canary admission is no longer active'')
                   else if cs_workload_family k \<noteq> canonical_workload_family (lr_workload_family r) (strip (lr_project_name r))
                   then Inl (Rejected ''mixed canary workload_family does not match its reserved slot'')
                   else if cs_project_namespace k \<noteq> strip (lr_project_namespace r)
                   then Inl (Rejected ''mixed canary project_namespace does not match its reserved slot'')
                   else if ca_session_profile c \<noteq> profile
                   then Inl (Rejected ''mixed canary session profile does not match its reservation'')
                   else case check_canary_session p c profile of Some e \<Rightarrow> Inl e
                   | None \<Rightarrow>
                       if or_zero (cs_lease_id k) \<noteq> 0
                       then (if replays r p (or_zero (cs_lease_id k)) then Inr (k, c)
                             else Inl (Rejected ''mixed canary task slot has already been consumed''))
                       else if text_until (ca_expires_at c) now then Inl (Rejected ''mixed canary admission expired'')
                       else Inr (k, c)))"

section \<open>The transaction\<close>

definition superseded_key :: "lease \<Rightarrow> string" where
  "superseded_key l = ls_request_key l @ ''#superseded:'' @ show_int (ls_id l)"

definition replaceable :: "int \<Rightarrow> pool \<Rightarrow> lease \<Rightarrow> bool" where
  "replaceable now p l =
     (let ended = task_terminal p (ls_task_id l) in
      ls_state l \<in> lease_terminal_states
      \<or> (ls_state l = LQueued \<and> (text_until (ls_expires_at l) now \<or> text_until (ls_client_deadline_at l) now \<or> ended))
      \<or> (ls_state l = LOffered \<and> (text_until (ls_offer_expires_at l) now \<or> ended)))"

definition supersede :: "int \<Rightarrow> lease \<Rightarrow> pool \<Rightarrow> pool" where
  "supersede now l p =
     (if ls_state l \<in> lease_terminal_states
      then update_leases (\<lambda>r. ls_id r = ls_id l) (\<lambda>r. r\<lparr>ls_request_key := superseded_key l, ls_updated_at := At now\<rparr>) p
      else refresh_session_of now l
        (update_leases (\<lambda>r. ls_id r = ls_id l)
           (\<lambda>r. (vacated_lease now LExpired ''durable request was abandoned and replayed'' r)\<lparr>ls_request_key := superseded_key l\<rparr>) p))"

definition new_lease ::
  "pool_config \<Rightarrow> int \<Rightarrow> lease_request \<Rightarrow> int \<Rightarrow> string \<Rightarrow> string \<Rightarrow> int \<Rightarrow> int \<times> string
   \<Rightarrow> exact_reservation option \<Rightarrow> canary_admission option \<Rightarrow> lease" where
  "new_lease cfg now r i grp profile deadline affinity exact canary =
     \<lparr>ls_id = i, ls_request_key = strip (lr_request_key r), ls_project_name = strip (lr_project_name r),
      ls_placement_group = (case canary of None \<Rightarrow> grp | Some c \<Rightarrow> ca_placement_group c),
      ls_workload_family = canonical_workload_family (lr_workload_family r) (strip (lr_project_name r)),
      ls_session_profile = profile, ls_project_namespace = strip (lr_project_namespace r),
      ls_isolation_policy = normalized_isolation r, ls_workspace_path = strip (lr_workspace_path r),
      ls_protocol_version = lr_protocol_version r, ls_task_id = max 0 (lr_task_id r),
      ls_requested_allocation_id = fst affinity, ls_requested_node_name = snd affinity,
      ls_requested_session_id = (case exact of None \<Rightarrow> 0 | Some x \<Rightarrow> x_session_id x),
      ls_requested_session_generation = (case exact of None \<Rightarrow> 0 | Some x \<Rightarrow> x_session_generation x),
      ls_exact_session_reservation_id = (case exact of None \<Rightarrow> 0 | Some x \<Rightarrow> x_id x),
      ls_exclusive_session = (lr_exclusive_session r \<or> normalized_isolation r = ''exclusive''),
      ls_session_id = None, ls_slot_index = None, ls_state = LQueued, ls_client_token_hash = lr_token_hash r,
      ls_failure_message = [], ls_requested_at = At now, ls_offered_at = Blank, ls_offer_expires_at = Blank,
      ls_accepted_at = Blank, ls_activated_at = Blank, ls_solve_permit_at = Blank, ls_solve_permit_generation = 0,
      ls_native_pipeline_completed_at = Blank, ls_native_pipeline_session_id = 0, ls_native_pipeline_generation = 0,
      ls_client_deadline_at = At (round_second deadline), ls_acquired_at = Blank, ls_last_heartbeat_at = At now,
      ls_expires_at = later now (pc_lease_ttl_seconds cfg), ls_release_requested_at = Blank, ls_finished_at = Blank,
      ls_fault_phase = [], ls_fault_kind = [],
      ls_mixed_canary_admission_id = (case canary of None \<Rightarrow> 0 | Some c \<Rightarrow> ca_id c),
      ls_mixed_canary_session_id = (case canary of None \<Rightarrow> 0 | Some c \<Rightarrow> ca_session_id c), ls_updated_at = At now\<rparr>"

definition claim_reservation :: "int \<Rightarrow> int \<Rightarrow> exact_reservation option \<Rightarrow> pool \<Rightarrow> pool_error + pool" where
  "claim_reservation now lid exact p =
     (case exact of None \<Rightarrow> Inr p
      | Some x \<Rightarrow>
          (let P = (\<lambda>y. x_id y = x_id x \<and> x_state y = RReserved \<and> x_lease_id y = None) in
           if \<not> list_ex P (reservations p) then Inl (Rejected ''exact-session task reservation was consumed concurrently'')
           else Inr (update_reservations P (\<lambda>y. y\<lparr>x_state := RClaimed, x_lease_id := Some lid, x_claimed_at := At now, x_updated_at := At now\<rparr>) p)))"

definition claim_canary_slot :: "int \<Rightarrow> int \<Rightarrow> (canary_slot \<times> canary_admission) option \<Rightarrow> pool \<Rightarrow> pool_error + pool" where
  "claim_canary_slot now lid canary p =
     (case canary of None \<Rightarrow> Inr p
      | Some (k, c) \<Rightarrow>
          (let P = (\<lambda>y. cs_id y = cs_id k \<and> cs_lease_id y = None);
               slots = sql_update P (\<lambda>y. y\<lparr>cs_lease_id := Some lid, cs_admitted_at := At now, cs_updated_at := At now\<rparr>) (canary_slots p);
               q = p\<lparr>canary_slots := slots\<rparr> in
           if \<not> list_ex P (canary_slots p) then Inl (Rejected ''mixed canary task slot was consumed concurrently'')
           else Inr (if list_ex (\<lambda>y. cs_admission_id y = ca_id c \<and> cs_lease_id y = None) slots then q
                     else update_canaries (\<lambda>y. ca_id y = ca_id c \<and> ca_state y = COpen)
                            (\<lambda>y. y\<lparr>ca_state := CFilled, ca_filled_at := At now, ca_updated_at := At now\<rparr>) q)))"

definition insert_lease ::
  "pool_config \<Rightarrow> int \<Rightarrow> lease_request \<Rightarrow> string \<Rightarrow> string \<Rightarrow> int \<Rightarrow> int \<times> string
   \<Rightarrow> exact_reservation option \<Rightarrow> (canary_slot \<times> canary_admission) option \<Rightarrow> pool \<Rightarrow> pool_error + (pool \<times> int)" where
  "insert_lease cfg now r grp profile deadline affinity exact canary p =
     (if 2 \<le> lr_protocol_version r
         \<and> list_ex (\<lambda>l. ls_project_name l = strip (lr_project_name r) \<and> ls_state l \<in> lease_live_states) (leases p)
      then Inl (Rejected ''project_name is already owned by a live lease'')
      else
        (let i = lease_seq p + 1;
             l = new_lease cfg now r i grp profile deadline affinity exact (map_option snd canary);
             p1 = p\<lparr>leases := leases p @ [l], lease_seq := i\<rparr> in
         case claim_reservation now i exact p1 of Inl e \<Rightarrow> Inl e
         | Inr p2 \<Rightarrow> (case claim_canary_slot now i canary p2 of Inl e \<Rightarrow> Inl e | Inr p3 \<Rightarrow> Inr (p3, i))))"

definition find_or_insert ::
  "pool_config \<Rightarrow> int \<Rightarrow> lease_request \<Rightarrow> string \<Rightarrow> string \<Rightarrow> int \<Rightarrow> int \<times> string
   \<Rightarrow> exact_reservation option \<Rightarrow> (canary_slot \<times> canary_admission) option \<Rightarrow> pool \<Rightarrow> pool_error + (pool \<times> int)" where
  "find_or_insert cfg now r grp profile deadline affinity exact canary p =
     (case find (\<lambda>l. ls_request_key l = strip (lr_request_key r)) (leases p) of
        None \<Rightarrow> insert_lease cfg now r grp profile deadline affinity exact canary p
      | Some l \<Rightarrow>
          if ls_client_token_hash l = lr_token_hash r then Inr (p, ls_id l)
          else if \<not> replaceable now p l
          then Inl (Rejected ''request_key is owned by a live lease; reuse the original client token or wait for terminal cleanup'')
          else insert_lease cfg now r grp profile deadline affinity exact canary (supersede now l p))"

type_synonym request_grants = "(int \<times> string) \<times> exact_reservation option \<times> (canary_slot \<times> canary_admission) option"

definition authorize_request :: "pool_config \<Rightarrow> int \<Rightarrow> lease_request \<Rightarrow> string \<Rightarrow> pool \<Rightarrow> pool_error + request_grants" where
  "authorize_request cfg now r profile p =
     (case resolve_affinity r p of Inl e \<Rightarrow> Inl e
      | Inr affinity \<Rightarrow>
          (case authorize_exact_session_reservation cfg now r profile p of Inl e \<Rightarrow> Inl e
           | Inr exact \<Rightarrow>
               if normalized_isolation r = ''shared_if_compatible'' \<and> \<not> lr_mixed_validated r
               then (case authorize_mixed_canary_lease now r profile p of Inl e \<Rightarrow> Inl e
                     | Inr canary \<Rightarrow>
                         if exact \<noteq> None
                         then Inl (Rejected ''exact-session reservation cannot be combined with mixed canary admission'')
                         else Inr (affinity, exact, Some canary))
               else Inr (affinity, exact, None)))"

definition request_transaction ::
  "pool_config \<Rightarrow> int \<Rightarrow> lease_request \<Rightarrow> string \<Rightarrow> string \<Rightarrow> int \<Rightarrow> pool \<Rightarrow> pool_error + (pool \<times> int)" where
  "request_transaction cfg now r grp profile deadline p0 =
     (let p = refresh_exact_session_reservations now (refresh_mixed_canary_admissions now p0) in
      case authorize_request cfg now r profile p of Inl e \<Rightarrow> Inl e
      | Inr (affinity, exact, canary) \<Rightarrow>
          (case find_or_insert cfg now r grp profile deadline affinity exact canary p of Inl e \<Rightarrow> Inl e
           | Inr (q, lid) \<Rightarrow>
               if \<not> operational cfg then Inr (q, lid)
               else (case placed (place_queued_leases cfg now [lid] False q) of Inl e \<Rightarrow> Inl e | Inr q' \<Rightarrow> Inr (q', lid))))"

definition request_lease :: "pool_config \<Rightarrow> int \<Rightarrow> lease_request \<Rightarrow> pool \<Rightarrow> pool \<times> (pool_error + int)" where
  "request_lease cfg clock r p =
     (case check_request cfg clock r of Inl e \<Rightarrow> (p, Inl e)
      | Inr (grp, profile, deadline) \<Rightarrow>
          (case request_transaction cfg (round_second clock) r grp profile deadline p of
             Inl e \<Rightarrow> (p, Inl e)
           | Inr (q, lid) \<Rightarrow> (q, Inr lid)))"

end
