(* ===== verification/Aedt_Reconcile.thy ===== *)
theory Aedt_Reconcile
  imports Aedt_Host "HOL-Library.Option_ord"
begin

text \<open>
  \<open>AedtPoolService.reconcile\<close> (\<open>aedt_pool.py\<close>): the periodic repair of ownership. Its sections are
  one definition each, in the order of the code: sessions and cohorts that lost their owner, starts
  blocked by the storage guard, drains for storage pressure and age, leases whose task ended, offers
  that were not acknowledged, leases whose client is silent, sessions whose host is silent, releases
  that can no longer be acknowledged, allocations to recycle, sessions to reap, allocations to reopen,
  placement, and the execution of a scaling plan. The plan itself is an argument.
\<close>

definition host_task_of :: "aedt_session \<Rightarrow> task_row \<Rightarrow> bool" where
  "host_task_of s t = (t_id t = d_host_task_id s \<or> t_dedupe_key t = ''aedt-session-host:'' @ show_int (d_id s))"

definition unclaimed_start :: "pool \<Rightarrow> aedt_session \<Rightarrow> bool" where
  "unclaimed_start p s = (d_state s = SStarting \<and> d_host_id s = []
     \<and> \<not> list_ex (\<lambda>t. host_task_of s t \<and> t_status t \<in> {Attaching, Running}) (db_tasks (pool_base p)))"

definition update_pool_tasks :: "(task_row \<Rightarrow> bool) \<Rightarrow> (task_row \<Rightarrow> task_row) \<Rightarrow> pool \<Rightarrow> pool" where
  "update_pool_tasks P f p = p\<lparr>pool_base := (pool_base p)\<lparr>db_tasks := sql_update P f (db_tasks (pool_base p))\<rparr>\<rparr>"

definition retire_start :: "int \<Rightarrow> string \<Rightarrow> aedt_session \<Rightarrow> pool \<Rightarrow> pool" where
  "retire_start now reason s p =
     (let p1 = update_pool_tasks (\<lambda>t. t_status t = Queued \<and> t_project t = ''_aedt_pool_hosts'' \<and> host_task_of s t)
                 (\<lambda>t. t\<lparr>t_status := Cancelled, t_failure_message := reason, t_finished_at := At now, t_updated_at := At now\<rparr>) p in
      update_sessions (\<lambda>r. d_id r = d_id s \<and> unclaimed_start p1 r)
        (\<lambda>r. r\<lparr>d_state := SFailed, d_failure_message := reason, d_closed_at := At now, d_updated_at := At now\<rparr>) p1)"

definition allocation_account :: "pool \<Rightarrow> aedt_session \<Rightarrow> string option" where
  "allocation_account p s = map_option a_account_name (get_allocation (pool_base p) (d_allocation_id s))"

definition retire_blocked_account :: "int \<Rightarrow> (string \<times> string) list \<Rightarrow> string \<Rightarrow> pool \<Rightarrow> pool" where
  "retire_blocked_account now reasons account p =
     fold (retire_start now (case map_of reasons account of None \<Rightarrow> ''AEDT session start blocked by account storage guard'' | Some r \<Rightarrow> r))
       (sort_key d_id (filter (\<lambda>s. unclaimed_start p s \<and> allocation_account p s = Some account) (sessions p))) p"

definition visible_states :: "session_state set" where
  "visible_states = {SStarting, SReady, SBusy, SDraining, SUnhealthy}"

definition storage_pressure_reason :: string where
  "storage_pressure_reason = ''account storage pressure; draining before quota exhaustion''"

definition pressure_candidate :: "pool \<Rightarrow> string \<Rightarrow> aedt_session option" where
  "pressure_candidate p account =
     (case sort_key (\<lambda>s. (d_state s \<noteq> SReady,
               length (filter (\<lambda>l. ls_session_id l = Some (d_id s) \<and> ls_state l \<in> lease_live_states) (leases p)), d_id s))
             (filter (\<lambda>s. allocation_account p s = Some account \<and> d_state s \<in> {SReady, SBusy} \<and> d_drain_requested_at s = Blank) (sessions p))
      of [] \<Rightarrow> None | c # _ \<Rightarrow> Some c)"

definition drain_pressured_account :: "int \<Rightarrow> string \<Rightarrow> pool \<times> nat \<Rightarrow> pool \<times> nat" where
  "drain_pressured_account now account pn =
     (let p = fst pn in
      if list_ex (\<lambda>s. allocation_account p s = Some account \<and> d_state s \<in> visible_states \<and> d_drain_requested_at s \<noteq> Blank) (sessions p)
      then pn
      else case pressure_candidate p account of None \<Rightarrow> pn
      | Some c \<Rightarrow>
          (update_sessions (\<lambda>s. d_id s = d_id c \<and> d_state s \<in> {SReady, SBusy} \<and> d_drain_requested_at s = Blank)
             (\<lambda>s. s\<lparr>d_state := (if d_state s = SReady then SDraining else d_state s), d_failure_message := storage_pressure_reason,
                    d_drain_requested_at := At now, d_updated_at := At now\<rparr>) p, snd pn + 1))"

definition refresh_owners :: "int \<Rightarrow> pool \<Rightarrow> pool" where
  "refresh_owners now p = refresh_zero_owner_draining_sessions now (refresh_exact_session_reservations now p)"

definition drain_pressured :: "int \<Rightarrow> string list \<Rightarrow> pool \<Rightarrow> pool" where
  "drain_pressured now accounts p =
     (let (q, requested) = fold (drain_pressured_account now) accounts (p, 0) in if requested = 0 then q else refresh_owners now q)"

definition age_rotation :: string where
  "age_rotation = ''AEDT pool allocation age rotation''"

definition rotate_allocations :: "pool_config \<Rightarrow> int \<Rightarrow> pool \<Rightarrow> pool" where
  "rotate_allocations cfg now p =
     (let q = (if pc_allocation_max_age_seconds cfg = 0 then p
               else update_pool_allocations
                 (\<lambda>a. a_state a \<in> {Warm, Active} \<and> startswith (sql_lower (a_drain_reason a)) ''aedt pool''
                    \<and> stamp_until (a_created_at a) (earlier now (pc_allocation_max_age_seconds cfg)))
                 (\<lambda>a. a\<lparr>a_state := Draining, a_drain_reason := age_rotation, a_drain_at := stamp_or (a_drain_at a) (At now), a_updated_at := At now\<rparr>) p) in
      request_sessions_drain now age_rotation
        (Some (map a_id (filter (\<lambda>a. a_state a = Draining \<and> a_drain_reason a = age_rotation) (db_allocations (pool_base q))))) q)"

section \<open>Leases\<close>

definition end_terminal_lease :: "int \<Rightarrow> lease \<Rightarrow> pool \<Rightarrow> pool" where
  "end_terminal_lease now l p =
     (let sid = or_zero (ls_session_id l) in
      if ls_state l \<in> {LAttaching, LActive} \<and> sid \<noteq> 0
      then block_reuse now (\<lambda>s. d_id s = sid)
             (update_leases (\<lambda>r. ls_id r = ls_id l) (cancelling_lease now ''scheduler task became terminal'') p)
      else refresh_session_of now l
             (update_leases (\<lambda>r. ls_id r = ls_id l) (vacated_lease now LCancelled ''scheduler task became terminal'') p))"

definition end_terminal_leases :: "int \<Rightarrow> pool \<Rightarrow> pool" where
  "end_terminal_leases now p =
     fold (end_terminal_lease now)
       (filter (\<lambda>l. ls_state l \<in> {LQueued, LOffered, LLeased, LAttaching, LActive} \<and> task_terminal p (ls_task_id l)) (leases p)) p"

definition withdrawn_lease :: "int \<Rightarrow> lease \<Rightarrow> lease" where
  "withdrawn_lease now l =
     l\<lparr>ls_state := LQueued, ls_session_id := None, ls_slot_index := None, ls_offered_at := Blank, ls_offer_expires_at := Blank,
       ls_acquired_at := Blank, ls_solve_permit_at := Blank, ls_solve_permit_generation := 0,
       ls_failure_message := ''lease offer requeued after ACK window'', ls_updated_at := At now\<rparr>"

definition requeue_stale_offer :: "int \<Rightarrow> lease \<Rightarrow> pool \<Rightarrow> pool" where
  "requeue_stale_offer now l p =
     refresh_session_of now l
       (update_reservations (\<lambda>x. x_lease_id x = Some (ls_id l) \<and> x_state x = RConsumed) (unconsume now)
          (update_leases (\<lambda>r. ls_id r = ls_id l \<and> ls_state r = LOffered) (withdrawn_lease now) p))"

definition requeue_stale_offers :: "int \<Rightarrow> pool \<Rightarrow> pool" where
  "requeue_stale_offers now p =
     fold (requeue_stale_offer now)
       (filter (\<lambda>l. ls_state l = LOffered \<and> 2 \<le> ls_protocol_version l \<and> stamp_before (ls_offer_expires_at l) now
          \<and> stamp_after (ls_client_deadline_at l) now \<and> stamp_after (ls_expires_at l) now) (leases p)) p"

definition lease_overdue :: "pool_config \<Rightarrow> int \<Rightarrow> lease \<Rightarrow> bool" where
  "lease_overdue cfg now l =
     (ls_state l \<in> {LQueued, LOffered, LLeased, LAttaching, LActive}
      \<and> (stamp_before (ls_expires_at l) now
         \<or> (ls_state l \<in> {LQueued, LOffered} \<and> stamp_before (ls_client_deadline_at l) now)
         \<or> (ls_state l = LQueued \<and> ls_protocol_version l < 2
            \<and> stamp_before (ls_last_heartbeat_at l) (earlier now (min (pc_lease_ttl_seconds cfg) 300)))
         \<or> (ls_state l = LOffered \<and> ls_protocol_version l < 2 \<and> stamp_before (ls_offer_expires_at l) now)))"

definition quarantine_silent_owner :: "int \<Rightarrow> int \<Rightarrow> pool \<Rightarrow> pool" where
  "quarantine_silent_owner now sid p =
     update_sessions (\<lambda>s. d_id s = sid \<and> (d_state s \<in> {SReady, SBusy}
          \<or> (d_state s = SUnhealthy \<and> d_failure_message s = heartbeat_timeout_message \<and> d_quarantine_reason s = [])))
       (\<lambda>s. s\<lparr>d_state := SDraining, d_quarantine_reason := ''lease_heartbeat_expired'',
              d_quarantine_until := stamp_or (d_quarantine_until s) (later now 900),
              d_failure_message := ''project lease heartbeat expired'',
              d_drain_requested_at := stamp_or (d_drain_requested_at s) (At now), d_updated_at := At now\<rparr>) p"

definition expire_lease :: "int \<Rightarrow> lease \<Rightarrow> pool \<Rightarrow> pool" where
  "expire_lease now l p =
     (let sid = or_zero (ls_session_id l) in
      if ls_state l = LQueued
      then update_leases (\<lambda>r. ls_id r = ls_id l) (finished_lease now LExpired ''lease request heartbeat expired'') p
      else if ls_state l = LOffered
      then refresh_session_of now l
             (update_leases (\<lambda>r. ls_id r = ls_id l) (vacated_lease now LExpired ''lease offer acknowledgement expired'') p)
      else
        (let p1 = update_leases (\<lambda>r. ls_id r = ls_id l) (cancelling_lease now ''lease heartbeat expired'') p;
             p2 = (if sid \<noteq> 0 then block_reuse now (\<lambda>s. d_id s = sid) p1 else p1) in
         if ls_state l \<noteq> LActive \<or> sid = 0 then p2 else quarantine_silent_owner now sid p2))"

definition expire_leases :: "pool_config \<Rightarrow> int \<Rightarrow> pool \<Rightarrow> pool" where
  "expire_leases cfg now p = fold (expire_lease now) (filter (lease_overdue cfg now) (leases p)) p"

section \<open>Sessions\<close>

definition last_sign :: "aedt_session \<Rightarrow> stamp" where
  "last_sign s = stamp_or (d_last_heartbeat_at s) (stamp_or (d_started_at s) (d_created_at s))"

definition mark_silent_sessions :: "int \<Rightarrow> int \<Rightarrow> pool \<Rightarrow> pool" where
  "mark_silent_sessions now cutoff p =
     update_sessions (\<lambda>s. d_state s \<in> {SReady, SBusy, SDraining} \<and> stamp_before (last_sign s) cutoff)
       (\<lambda>s. s\<lparr>d_state := SUnhealthy,
              d_failure_message := (if d_state s = SDraining then ''session heartbeat expired while already draining''
                                    else heartbeat_timeout_message),
              d_drain_requested_at := stamp_or (d_drain_requested_at s) (At now), d_updated_at := At now\<rparr>) p"

definition release_asked :: "lease \<Rightarrow> stamp" where
  "release_asked l = stamp_or (ls_release_requested_at l) (stamp_or (ls_updated_at l) (ls_requested_at l))"

definition quarantine_lost_releases :: "int \<Rightarrow> int \<Rightarrow> pool \<Rightarrow> pool" where
  "quarantine_lost_releases now cutoff p =
     update_sessions (\<lambda>s. d_state s = SUnhealthy \<and> stamp_before (last_sign s) cutoff
          \<and> list_ex (\<lambda>l. ls_session_id l = Some (d_id s) \<and> ls_state l = LReleasing \<and> stamp_before (release_asked l) cutoff) (leases p))
       (\<lambda>s. s\<lparr>d_state := SUnhealthy, d_failure_message := ''release acknowledgement lost; Desktop recycle required'',
              d_quarantine_reason := ''release_ack_lost'', d_reuse_blocked_at := stamp_or (d_reuse_blocked_at s) (At now),
              d_drain_requested_at := stamp_or (d_drain_requested_at s) (At now), d_updated_at := At now\<rparr>) p"

definition release_lost :: "int \<Rightarrow> pool \<Rightarrow> lease \<Rightarrow> bool" where
  "release_lost cutoff p l =
     (ls_state l = LReleasing \<and> stamp_before (release_asked l) cutoff
      \<and> (case ls_session_id l of None \<Rightarrow> True
         | Some sid \<Rightarrow> (case get_session p sid of None \<Rightarrow> True
             | Some s \<Rightarrow> d_state s \<in> {SClosed, SFailed} \<or> (d_state s = SUnhealthy \<and> stamp_before (last_sign s) cutoff))))"

definition fail_lost_releases :: "int \<Rightarrow> int \<Rightarrow> pool \<Rightarrow> pool" where
  "fail_lost_releases now cutoff p =
     update_leases (release_lost cutoff p)
       (\<lambda>l. finished_lease now LFailed (if sql_trim (ls_failure_message l) \<noteq> [] then ls_failure_message l
              else ''release acknowledgement lost after session heartbeat expiry'') l) p"

definition mark_late_starts :: "pool_config \<Rightarrow> int \<Rightarrow> pool \<Rightarrow> pool" where
  "mark_late_starts cfg now p =
     update_sessions (\<lambda>s. d_state s = SStarting
          \<and> stamp_before (stamp_or (d_start_claimed_at s) (d_created_at s)) (earlier now (pc_session_start_timeout_seconds cfg)))
       (\<lambda>s. s\<lparr>d_state := SUnhealthy, d_failure_message := start_ack_timeout,
              d_drain_requested_at := stamp_or (d_drain_requested_at s) (At now), d_updated_at := At now\<rparr>) p"

definition last_notice :: "aedt_session \<Rightarrow> stamp" where
  "last_notice s = stamp_or (d_drain_requested_at s) (stamp_or (d_last_heartbeat_at s) (stamp_or (d_updated_at s) (d_created_at s)))"

definition recycle_allocations :: "int \<Rightarrow> int \<Rightarrow> pool \<Rightarrow> pool" where
  "recycle_allocations now cutoff p =
     update_pool_allocations
       (\<lambda>a. a_state a \<in> {Warm, Active, Draining}
          \<and> list_ex (\<lambda>s. d_allocation_id s = a_id a
               \<and> (d_quarantine_reason s \<noteq> [] \<or> (d_state s = SUnhealthy \<and> stamp_before (last_notice s) cutoff))) (sessions p))
       (\<lambda>a. a\<lparr>a_state := Draining,
              a_drain_reason := (if a_state a = Draining \<and> sql_trim (a_drain_reason a) \<notin> {[], pool_demand}
                                 then a_drain_reason a else unhealthy_recycle),
              a_drain_at := stamp_or (a_drain_at a) (At now), a_updated_at := At now\<rparr>) p"

definition reapable :: "pool_config \<Rightarrow> int \<Rightarrow> int \<Rightarrow> pool \<Rightarrow> aedt_session \<Rightarrow> bool" where
  "reapable cfg now cutoff p s =
     (let reap_cutoff = earlier now (max 900 (5 * pc_session_heartbeat_timeout_seconds cfg)) in
      d_state s = SUnhealthy
      \<and> (((startswith (sql_lower (d_failure_message s)) ''host native liveness suspect:'' \<or> d_quarantine_reason s = ''confirmed_aedt_death'')
           \<and> stamp_before (stamp_or (d_drain_requested_at s) (stamp_or (d_last_fault_at s) (last_sign s))) cutoff
           \<and> occupants p (d_id s) = [])
         \<or> (stamp_before (last_sign s) reap_cutoff \<and> stamp_before (last_notice s) cutoff)))"

definition reap_session :: "int \<Rightarrow> int \<Rightarrow> pool \<Rightarrow> pool" where
  "reap_session now sid p =
     update_sessions (\<lambda>s. d_id s = sid \<and> d_state s = SUnhealthy)
       (\<lambda>s. s\<lparr>d_state := SFailed,
              d_failure_message := (if sql_trim (d_failure_message s) \<noteq> [] then d_failure_message s else ''session host unreachable; reaped''),
              d_closed_at := At now, d_updated_at := At now\<rparr>)
       (update_leases (occupies sid) (finished_lease now LFailed ''AEDT session host unreachable; session reaped'') p)"

definition reap_sessions :: "pool_config \<Rightarrow> int \<Rightarrow> int \<Rightarrow> pool \<Rightarrow> pool" where
  "reap_sessions cfg now cutoff p = fold (reap_session now) (map d_id (filter (reapable cfg now cutoff p) (sessions p))) p"

definition allocation_recovers :: "pool \<Rightarrow> alloc_row \<Rightarrow> bool" where
  "allocation_recovers p a =
     (a_state a = Draining \<and> a_drain_reason a \<in> {faulted_recycle, unhealthy_recycle}
      \<and> list_ex (\<lambda>s. d_allocation_id s = a_id a \<and> d_state s \<in> {SReady, SBusy}) (sessions p)
      \<and> \<not> list_ex (\<lambda>s. d_allocation_id s = a_id a \<and> d_state s \<in> visible_states
             \<and> (d_state s = SUnhealthy \<or> sql_trim (d_quarantine_reason s) \<noteq> [])) (sessions p))"

definition recover_allocation :: "int \<Rightarrow> int \<Rightarrow> pool \<Rightarrow> pool" where
  "recover_allocation now aid p =
     (let P = (\<lambda>a. a_id a = aid \<and> a_state a = Draining \<and> a_drain_reason a \<in> {faulted_recycle, unhealthy_recycle}) in
      if \<not> list_ex P (db_allocations (pool_base p)) then p
      else update_sessions (\<lambda>s. d_allocation_id s = aid \<and> d_state s \<in> {SReady, SBusy})
             (\<lambda>s. s\<lparr>d_drain_requested_at := Blank, d_updated_at := At now\<rparr>)
             (update_pool_allocations P
                (\<lambda>a. a\<lparr>a_state := Active, a_drain_reason := pool_demand, a_drain_at := Blank, a_failure_message := [], a_updated_at := At now\<rparr>) p))"

definition recover_allocations :: "int \<Rightarrow> pool \<Rightarrow> pool" where
  "recover_allocations now p =
     fold (recover_allocation now) (sort (map a_id (filter (allocation_recovers p) (db_allocations (pool_base p))))) p"

definition drain_orphaned_idle :: "int \<Rightarrow> pool \<Rightarrow> pool" where
  "drain_orphaned_idle now p =
     update_sessions (\<lambda>s. d_state s = SReady
          \<and> list_ex (\<lambda>a. a_id a = d_allocation_id s \<and> a_state a \<notin> {Warm, Active}) (db_allocations (pool_base p)))
       (\<lambda>s. s\<lparr>d_state := SDraining, d_drain_requested_at := stamp_or (d_drain_requested_at s) (At now), d_updated_at := At now\<rparr>) p"

section \<open>The scaling plan\<close>

record session_placement =
  sp_allocation_id :: int
  sp_account_name :: string
  sp_node_name :: string

record pool_plan =
  pp_rebalance_drains :: "(string \<times> int) list"
  pp_drain_needed :: nat
  pp_placements :: "session_placement list"

definition idle_from :: "aedt_session \<Rightarrow> stamp" where
  "idle_from s = stamp_or (d_idle_since s) (d_created_at s)"

fun stamp_order :: "stamp \<Rightarrow> int option" where
  "stamp_order (At t) = Some t"
| "stamp_order s = None"

definition has_pending_reservation :: "pool \<Rightarrow> aedt_session \<Rightarrow> bool" where
  "has_pending_reservation p s = (pending_reservations p (d_id s) 0 \<noteq> [])"

definition drained_session :: "int \<Rightarrow> aedt_session \<Rightarrow> aedt_session" where
  "drained_session now s = s\<lparr>d_state := SDraining, d_drain_requested_at := stamp_or (d_drain_requested_at s) (At now), d_updated_at := At now\<rparr>"

definition rebalance_account :: "int \<Rightarrow> string \<times> int \<Rightarrow> pool \<Rightarrow> pool" where
  "rebalance_account now e p =
     (let rows = filter (\<lambda>s. d_state s = SReady \<and> d_solve_batch_sealed_at s = Blank \<and> d_drain_requested_at s = Blank
             \<and> d_reuse_blocked_at s = Blank \<and> \<not> has_pending_reservation p s
             \<and> (case get_allocation (pool_base p) (d_allocation_id s) of None \<Rightarrow> False
                | Some a \<Rightarrow> a_state a \<in> {Warm, Active} \<and> a_account_name a = fst e)) (sessions p);
          ids = map d_id (take (nat (max 0 (snd e))) (sort_key (\<lambda>s. (stamp_order (idle_from s), d_id s)) rows)) in
      update_sessions (\<lambda>s. d_id s \<in> set ids \<and> d_state s = SReady) (drained_session now) p)"

definition drain_excess :: "int \<Rightarrow> nat \<Rightarrow> pool \<Rightarrow> pool" where
  "drain_excess now needed p =
     (let rows = filter (\<lambda>s. d_state s \<in> {SReady, SBusy} \<and> \<not> has_pending_reservation p s) (sessions p);
          ids = map d_id (take needed (sort_key (\<lambda>s. (length (occupants p (d_id s)), stamp_order (idle_from s), d_id s)) rows)) in
      update_sessions (\<lambda>s. d_id s \<in> set ids) (\<lambda>s. s\<lparr>d_state := SDraining, d_drain_requested_at := At now, d_updated_at := At now\<rparr>) p)"

definition new_session :: "pool_config \<Rightarrow> int \<Rightarrow> int \<Rightarrow> session_placement \<Rightarrow> aedt_session" where
  "new_session cfg now i sp =
     \<lparr>d_id = i, d_allocation_id = sp_allocation_id sp, d_account_name = sp_account_name sp, d_node_name = sp_node_name sp,
      d_host_id = [], d_host_task_id = 0, d_host_process_id = [], d_host_slurm_job_id = [], d_actual_node_name = [],
      d_start_claimed_at = Blank, d_endpoint = [], d_process_id = [], d_session_profile = [], d_host_token_hash = [],
      d_slots_total = nat (pc_projects_per_session cfg), d_state = SStarting, d_generation = 1, d_failure_message = [],
      d_created_at = At now, d_started_at = Blank, d_last_heartbeat_at = Blank, d_last_fault_at = Blank,
      d_reuse_blocked_at = Blank, d_idle_since = Blank, d_drain_requested_at = Blank, d_quarantine_until = Blank,
      d_quarantine_reason = [], d_solve_batch_sealed_at = Blank, d_solve_batch_generation = 0, d_closed_at = Blank,
      d_updated_at = At now\<rparr>"

definition insert_session :: "pool_config \<Rightarrow> int \<Rightarrow> session_placement \<Rightarrow> pool \<Rightarrow> pool" where
  "insert_session cfg now sp p =
     p\<lparr>sessions := sessions p @ [new_session cfg now (session_seq p + 1) sp], session_seq := session_seq p + 1\<rparr>"

definition execute_plan :: "pool_config \<Rightarrow> int \<Rightarrow> pool_plan \<Rightarrow> pool \<Rightarrow> pool" where
  "execute_plan cfg now plan p =
     (let p1 = fold (rebalance_account now) (sort (pp_rebalance_drains plan)) p;
          p2 = (if pp_drain_needed plan = 0 then p1 else drain_excess now (pp_drain_needed plan) p1) in
      fold (insert_session cfg now) (pp_placements plan) p2)"

section \<open>The pass\<close>

record reconcile_request =
  rq_execute :: bool
  rq_excluded_start_accounts :: "string list"
  rq_start_block_reasons :: "(string \<times> string) list"
  rq_storage_pressure_accounts :: "string list"

definition clean_accounts :: "string list \<Rightarrow> string list" where
  "clean_accounts xs = sorted_set (filter (\<lambda>a. a \<noteq> []) (map strip xs))"

definition reconcile_drains :: "pool_config \<Rightarrow> int \<Rightarrow> reconcile_request \<Rightarrow> pool \<Rightarrow> pool" where
  "reconcile_drains cfg now rq p =
     (let p1 = refresh_owners now (refresh_zero_owner_draining_sessions now p);
          p2 = (if rq_execute rq \<and> operational cfg
                then fold (retire_blocked_account now (rev (filter (\<lambda>e. fst e \<noteq> []) (map (\<lambda>(a, r). (strip a, strip r)) (rq_start_block_reasons rq)))))
                       (clean_accounts (rq_excluded_start_accounts rq)) p1
                else p1);
          p3 = (if rq_execute rq \<and> operational cfg then drain_pressured now (clean_accounts (rq_storage_pressure_accounts rq)) p2 else p2) in
      if rq_execute rq then rotate_allocations cfg now p3 else p3)"

definition reconcile_ownership :: "pool_config \<Rightarrow> int \<Rightarrow> pool \<Rightarrow> pool" where
  "reconcile_ownership cfg now p =
     (let cutoff = earlier now (pc_session_heartbeat_timeout_seconds cfg);
          recycle = earlier now (pc_unhealthy_recycle_grace_seconds cfg);
          p1 = expire_leases cfg now (requeue_stale_offers now (end_terminal_leases now p));
          p2 = fail_lost_releases now cutoff (quarantine_lost_releases now cutoff (mark_silent_sessions now cutoff p1)) in
      reap_sessions cfg now recycle (recycle_allocations now recycle (mark_late_starts cfg now p2)))"

definition reconcile :: "pool_config \<Rightarrow> int \<Rightarrow> (pool \<Rightarrow> pool_plan) \<Rightarrow> reconcile_request \<Rightarrow> pool \<Rightarrow> outcome" where
  "reconcile cfg now plan rq p =
     (let p1 = reconcile_ownership cfg now (reconcile_drains cfg now rq p);
          p2 = (if rq_execute rq then drain_orphaned_idle now (recover_allocations now p1) else p1) in
      commit p
        (if \<not> (rq_execute rq \<and> operational cfg) then Inr p2
         else case placed (place_queued_leases cfg now [] False p2) of
             Inl e \<Rightarrow> Inl e
           | Inr p3 \<Rightarrow> Inr (execute_plan cfg now (plan p3) p3)))"

end
