(* ===== verification/Aedt_Reserve.thy ===== *)
theory Aedt_Reserve
  imports Aedt_Request Aedt_Reconcile Task_Kind
begin

text \<open>
  The admission of work before a client exists (\<open>aedt_pool.py\<close>): an operator reserves slots of one
  session for a cohort of tasks (\<open>create_exact_session_reservation\<close>), the scheduler reserves one slot
  before it launches a pooled task (\<open>prepare_pooled_task_session\<close>), and an operator reserves an empty
  session for a mixed-family canary (\<open>create_mixed_canary_admission\<close>). The random parts of keys, the
  canonical form of a session profile and the account chosen by the scheduler's selector are
  arguments. A return inside a transaction commits its writes, a raise rolls them back.
\<close>

section \<open>Operator cohorts\<close>

definition check_exact_payload :: "string \<Rightarrow> int \<Rightarrow> int \<Rightarrow> int list \<Rightarrow> int \<Rightarrow> pool_error option" where
  "check_exact_payload key sid generation task_ids ttl =
     (if strip key = [] then Some (Rejected ''reservation_key is required'')
      else if sid \<le> 0 then Some (Rejected ''session_id must be a positive integer'')
      else if generation \<le> 0 then Some (Rejected ''session_generation must be a positive integer'')
      else if \<not> (60 \<le> ttl \<and> ttl \<le> 3600) then Some (Rejected ''ttl_seconds must be an integer between 60 and 3600'')
      else if task_ids = [] then Some (Rejected ''task_ids must be a non-empty list'')
      else if list_ex (\<lambda>i. i \<le> 0) task_ids then Some (Rejected ''task_ids must contain positive integers'')
      else if \<not> distinct task_ids then Some (Rejected ''task_ids must be unique'') else None)"

definition same_cohort :: "int \<Rightarrow> int \<Rightarrow> string \<Rightarrow> int list \<Rightarrow> exact_reservation list \<Rightarrow> bool" where
  "same_cohort sid generation profile ids rows =
     (map x_task_id rows = ids \<and> list_all (\<lambda>x. x_session_id x = sid) rows
      \<and> list_all (\<lambda>x. x_session_generation x = generation) rows \<and> list_all (\<lambda>x. x_session_profile x = profile) rows)"

definition exact_session_error :: "int \<Rightarrow> int \<Rightarrow> string \<Rightarrow> pool \<Rightarrow> pool_error option" where
  "exact_session_error sid generation profile p =
     (case get_session p sid of None \<Rightarrow> Some (Rejected ''requested AEDT session does not exist'')
      | Some s \<Rightarrow> (case get_allocation (pool_base p) (d_allocation_id s) of
          None \<Rightarrow> Some (Rejected ''requested AEDT session does not exist'')
        | Some a \<Rightarrow>
            if d_state s \<notin> {SReady, SBusy} then Some (Rejected ''requested AEDT session is not assignable'')
            else if a_state a \<notin> {Warm, Active} then Some (Rejected ''requested AEDT session allocation is not active'')
            else if d_generation s \<noteq> generation then Some (Rejected ''requested AEDT session generation does not match'')
            else if d_session_profile s \<noteq> profile then Some (Rejected ''requested AEDT session profile does not match'')
            else if d_solve_batch_sealed_at s \<noteq> Blank \<or> d_drain_requested_at s \<noteq> Blank
            then Some (Rejected ''requested AEDT session is sealed or draining'')
            else if list_ex (\<lambda>c. ca_session_id c = sid \<and> ca_state c \<in> {COpen, CFilled, CAborting}) (canaries p)
            then Some (Rejected ''requested AEDT session is reserved for a mixed canary'') else None))"

definition reservation_task_error :: "task_row \<Rightarrow> pool_error option" where
  "reservation_task_error t =
     (if t_status t \<in> terminal_statuses then Some (Rejected ''exact-session reservation task is terminal'')
      else if t_aedt_backend t \<noteq> Pooled then Some (Rejected ''exact-session reservation task must use pooled AEDT'') else None)"

definition cohort_tasks_error :: "int list \<Rightarrow> pool \<Rightarrow> pool_error option" where
  "cohort_tasks_error ids p =
     (let tasks = filter (\<lambda>t. t_id t \<in> set ids) (db_tasks (pool_base p)) in
      if length tasks \<noteq> length ids then Some (Rejected ''one or more reservation task_ids do not exist'')
      else case List.map_filter reservation_task_error tasks of e # _ \<Rightarrow> Some e
      | [] \<Rightarrow>
          if list_ex (\<lambda>x. x_task_id x \<in> set ids \<and> x_state x \<in> active_reservation_states) (reservations p)
          then Some (Rejected ''task already has a live exact-session reservation'')
          else if list_ex (\<lambda>l. ls_task_id l \<in> set ids \<and> ls_state l \<in> lease_live_states) (leases p)
          then Some (Rejected ''task already has a live AEDT project lease'') else None)"

text \<open>Slots in use and slots promised on a session.\<close>

definition committed_slots :: "pool \<Rightarrow> int \<Rightarrow> nat" where
  "committed_slots p sid = length (occupants p sid) + length (pending_reservations p sid 0)"

definition cohort_error :: "pool_config \<Rightarrow> int \<Rightarrow> int \<Rightarrow> string \<Rightarrow> int list \<Rightarrow> pool \<Rightarrow> pool_error option" where
  "cohort_error cfg sid generation profile ids p =
     (if pc_target_projects cfg \<le> 0 \<or> pc_target_projects cfg < admitted_project_count p 0 0 0 + int (length ids)
      then Some (Rejected ''exact-session reservation exceeds target project concurrency'')
      else case exact_session_error sid generation profile p of Some e \<Rightarrow> Some e
      | None \<Rightarrow> (case cohort_tasks_error ids p of Some e \<Rightarrow> Some e
          | None \<Rightarrow> (case get_session p sid of None \<Rightarrow> Some (Rejected ''requested AEDT session does not exist'')
              | Some s \<Rightarrow> if d_slots_total s < committed_slots p sid + length ids
                         then Some (Rejected ''requested AEDT session does not have enough unreserved free slots'') else None)))"

definition new_reservation ::
  "int \<Rightarrow> int \<Rightarrow> string \<Rightarrow> int \<Rightarrow> int \<Rightarrow> string \<Rightarrow> string \<Rightarrow> string \<Rightarrow> stamp \<Rightarrow> int \<Rightarrow> exact_reservation" where
  "new_reservation now i key sid generation profile family policy expires tid =
     \<lparr>x_id = i, x_reservation_key = key, x_task_id = tid, x_session_id = sid, x_session_generation = generation,
      x_session_profile = profile, x_workload_family = family, x_isolation_policy = policy, x_state = RReserved,
      x_lease_id = None, x_failure_message = [], x_expires_at = expires, x_claimed_at = Blank, x_consumed_at = Blank,
      x_finished_at = Blank, x_updated_at = At now\<rparr>"

definition insert_reservation ::
  "int \<Rightarrow> string \<Rightarrow> int \<Rightarrow> int \<Rightarrow> string \<Rightarrow> string \<Rightarrow> string \<Rightarrow> stamp \<Rightarrow> int \<Rightarrow> pool \<Rightarrow> pool" where
  "insert_reservation now key sid generation profile family policy expires tid p =
     p\<lparr>reservations := reservations p @ [new_reservation now (reservation_seq p + 1) key sid generation profile family policy expires tid],
       reservation_seq := reservation_seq p + 1\<rparr>"

definition create_exact_session_reservation ::
  "pool_config \<Rightarrow> int \<Rightarrow> string \<Rightarrow> int \<Rightarrow> int \<Rightarrow> pool_error + string \<Rightarrow> int list \<Rightarrow> int \<Rightarrow> pool \<Rightarrow> outcome" where
  "create_exact_session_reservation cfg now key0 sid generation profile0 task_ids ttl p =
     (let key = strip key0; ids = sort task_ids in
      case check_exact_payload key sid generation task_ids ttl of Some e \<Rightarrow> (p, Some e)
      | None \<Rightarrow> (case profile0 of Inl e \<Rightarrow> (p, Some e)
          | Inr profile \<Rightarrow>
              (let q = refresh_exact_session_reservations now p;
                   existing = sort_key x_task_id (filter (\<lambda>x. x_reservation_key x = key) (reservations q)) in
               if existing \<noteq> []
               then (if same_cohort sid generation profile ids existing then (q, None)
                     else (p, Some (Rejected ''reservation_key already exists with different immutable payload'')))
               else commit p (case cohort_error cfg sid generation profile ids q of Some e \<Rightarrow> Inl e
                      | None \<Rightarrow> Inr (fold (insert_reservation now key sid generation profile [] [] (later now ttl)) ids q)))))"

section \<open>Automatic reservations\<close>

definition occupant_shares :: "string \<Rightarrow> string \<Rightarrow> string \<Rightarrow> lease \<Rightarrow> bool" where
  "occupant_shares family policy profile o' =
     (let occupant_policy = policy_or_family (ls_isolation_policy o') in
      2 \<le> ls_protocol_version o' \<and> ls_session_profile o' = profile
      \<and> \<not> (ls_exclusive_session o' \<or> occupant_policy = ''exclusive'')
      \<and> (if policy = ''family'' then occupant_policy = ''family'' \<and> ls_workload_family o' = family
         else occupant_policy = ''shared_if_compatible''))"

definition reservation_shares :: "string \<Rightarrow> string \<Rightarrow> exact_reservation \<Rightarrow> bool" where
  "reservation_shares family policy x =
     (x_workload_family x \<noteq> [] \<and> x_isolation_policy x \<noteq> [] \<and> x_isolation_policy x \<noteq> ''exclusive''
      \<and> (if policy = ''family'' then x_isolation_policy x = ''family'' \<and> x_workload_family x = family
         else x_isolation_policy x = ''shared_if_compatible''))"

definition auto_reservation_fits_session ::
  "string \<Rightarrow> string \<Rightarrow> string \<Rightarrow> lease list \<Rightarrow> exact_reservation list \<Rightarrow> bool" where
  "auto_reservation_fits_session family policy profile occ res =
     (if policy = ''exclusive'' \<and> (occ \<noteq> [] \<or> res \<noteq> []) then False
      else list_all (occupant_shares family policy profile) occ \<and> list_all (reservation_shares family policy) res)"

record pooled_admission =
  pa_task_id :: int
  pa_session_profile :: "pool_error + string"
  pa_workload_family :: string
  pa_isolation_policy :: string
  pa_eligible_allocation_ids :: "int list option"
  pa_ttl_seconds :: int
  pa_mixed_validated :: bool
  pa_selector_configured :: bool
  pa_selection :: "(string list \<times> string) option"
  pa_key_suffix :: string

definition task_account_fingerprint :: "task_row \<Rightarrow> string list" where
  "task_account_fingerprint t =
     [t_name t, t_project t, (case t_requested_account_name t of None \<Rightarrow> [] | Some a \<Rightarrow> a), t_account_name t,
      t_required_capability t, t_env_profile t, t_env_setup t, t_command t]"

definition pool_partition_names :: "string \<Rightarrow> string list" where
  "pool_partition_names s = (let names = partition_spec_names s in if ''auto'' \<in> set names then [] else names)"

definition pool_partition_allows :: "string \<Rightarrow> string \<Rightarrow> bool" where
  "pool_partition_allows spec p = (pool_partition_names spec = [] \<or> p \<in> set (pool_partition_names spec))"

text \<open>What the row of the task asks for: the strict node and partition (blank and \<open>auto\<close> otherwise), the requested
  accounts, and the account the selector chose, when its reading of the task is still the row.\<close>

record routed_task =
  rt_strict_node :: string
  rt_strict_partition :: string
  rt_requested :: "string list"
  rt_selected :: string
  rt_required :: bool
  rt_matches :: bool

definition route_task :: "pooled_admission \<Rightarrow> task_row \<Rightarrow> routed_task" where
  "route_task pa t =
     (let strict = (explicit_task_node_name_policy t = Some Strict);
          requested = requested_accounts (task_requested_account_name t);
          matches = (case pa_selection pa of None \<Rightarrow> False | Some (f, a) \<Rightarrow> f = task_account_fingerprint t);
          chosen = (case pa_selection pa of None \<Rightarrow> [] | Some (f, a) \<Rightarrow> if matches then strip a else []);
          required = (pa_selector_configured pa \<and> length (remdups requested) \<noteq> 1) in
      \<lparr>rt_strict_node = (if strict then strip (t_node_name t) else []),
       rt_strict_partition = (if strict then or_text (strip (or_text (t_partition t) ''auto'')) ''auto'' else ''auto''),
       rt_requested = requested,
       rt_selected = (if required \<and> requested \<noteq> [] \<and> chosen \<notin> set requested then [] else chosen),
       rt_required = required, rt_matches = matches\<rparr>)"

definition pin_task :: "pool_config \<Rightarrow> int \<Rightarrow> int \<Rightarrow> int \<Rightarrow> string \<Rightarrow> pool \<Rightarrow> pool" where
  "pin_task cfg now tid aid node =
     update_pool_tasks (\<lambda>t. t_id t = tid \<and> t_status t = Queued)
       (\<lambda>t. t\<lparr>t_requested_allocation_id := aid, t_node_name := node, t_cpus := pc_project_cpus cfg, t_updated_at := At now\<rparr>)"

definition unpin_task :: "int \<Rightarrow> int \<Rightarrow> pool \<Rightarrow> pool" where
  "unpin_task now tid =
     update_pool_tasks (\<lambda>t. t_id t = tid \<and> t_status t = Queued)
       (\<lambda>t. t\<lparr>t_requested_allocation_id := 0, t_node_name := (if t_node_name_policy t = ''strict'' then t_node_name t else []),
              t_updated_at := At now\<rparr>)"

definition latest_reservation :: "pool \<Rightarrow> int \<Rightarrow> exact_reservation option" where
  "latest_reservation p tid =
     (case sort_desc x_id (filter (\<lambda>x. x_task_id x = tid) (reservations p)) of [] \<Rightarrow> None | x # _ \<Rightarrow> Some x)"

definition metadata_matches :: "string \<Rightarrow> string \<Rightarrow> exact_reservation \<Rightarrow> bool" where
  "metadata_matches family policy x =
     (x_workload_family x = [] \<or> (x_workload_family x = family \<and> x_isolation_policy x = policy))"

definition target_is_usable ::
  "pool_config \<Rightarrow> int \<Rightarrow> routed_task \<Rightarrow> int list \<Rightarrow> pool \<Rightarrow> exact_reservation \<Rightarrow> aedt_session \<Rightarrow> alloc_row \<Rightarrow> bool" where
  "target_is_usable cfg now rt allowed p x s a =
     (d_state s \<in> {SReady, SBusy} \<and> a_state a \<in> {Warm, Active}
      \<and> d_generation s = x_session_generation x \<and> d_session_profile s = x_session_profile x
      \<and> stamp_from (d_last_heartbeat_at s) (earlier now (pc_session_heartbeat_timeout_seconds cfg))
      \<and> d_reuse_blocked_at s = Blank \<and> d_solve_batch_sealed_at s = Blank \<and> d_drain_requested_at s = Blank
      \<and> (allowed = [] \<or> d_allocation_id s \<in> set allowed)
      \<and> (rt_requested rt = [] \<or> a_account_name a \<in> set (rt_requested rt))
      \<and> (rt_strict_node rt = [] \<or> (d_node_name s = rt_strict_node rt \<and> pool_partition_allows (rt_strict_partition rt) (a_partition a))))"

definition reserved_target :: "pool \<Rightarrow> exact_reservation \<Rightarrow> (aedt_session \<times> alloc_row) option" where
  "reserved_target p x =
     (case get_session p (x_session_id x) of None \<Rightarrow> None
      | Some s \<Rightarrow> (case get_allocation (pool_base p) (d_allocation_id s) of None \<Rightarrow> None | Some a \<Rightarrow> Some (s, a)))"

definition usable_reservation ::
  "pool_config \<Rightarrow> int \<Rightarrow> routed_task \<Rightarrow> int list \<Rightarrow> string \<Rightarrow> string \<Rightarrow> pool \<Rightarrow> exact_reservation \<Rightarrow> aedt_session option" where
  "usable_reservation cfg now rt allowed family policy p x =
     (if x_state x \<notin> {RReserved, RClaimed} \<or> \<not> metadata_matches family policy x then None
      else case reserved_target p x of None \<Rightarrow> None
      | Some (s, a) \<Rightarrow> if target_is_usable cfg now rt allowed p x s a then Some s else None)"

text \<open>The sessions the query selects, the fullest first and among those the one idle longest.\<close>

definition auto_candidate :: "pool_config \<Rightarrow> int \<Rightarrow> routed_task \<Rightarrow> int list \<Rightarrow> string \<Rightarrow> pool \<Rightarrow> aedt_session \<Rightarrow> bool" where
  "auto_candidate cfg now rt allowed profile p s =
     (case get_allocation (pool_base p) (d_allocation_id s) of None \<Rightarrow> False
      | Some a \<Rightarrow>
          (let accounts = (if rt_required rt then [rt_selected rt] else rt_requested rt);
               names = pool_partition_names (rt_strict_partition rt) in
           d_state s \<in> {SReady, SBusy} \<and> a_state a \<in> {Warm, Active}
           \<and> stamp_from (d_last_heartbeat_at s) (earlier now (pc_session_heartbeat_timeout_seconds cfg))
           \<and> (d_quarantine_until s = Blank \<or> stamp_until (d_quarantine_until s) now)
           \<and> d_session_profile s = profile \<and> sql_trim (d_endpoint s) \<noteq> [] \<and> sql_trim (d_process_id s) \<noteq> []
           \<and> d_reuse_blocked_at s = Blank \<and> d_solve_batch_sealed_at s = Blank \<and> d_drain_requested_at s = Blank
           \<and> (allowed = [] \<or> d_allocation_id s \<in> set allowed)
           \<and> (accounts = [] \<or> a_account_name a \<in> set accounts)
           \<and> (rt_strict_node rt = [] \<or> d_node_name s = rt_strict_node rt)
           \<and> (rt_strict_node rt = [] \<or> names = [] \<or> a_partition a \<in> set names)))"

definition auto_candidates :: "pool_config \<Rightarrow> int \<Rightarrow> routed_task \<Rightarrow> int list \<Rightarrow> string \<Rightarrow> pool \<Rightarrow> aedt_session list" where
  "auto_candidates cfg now rt allowed profile p =
     sort_desc (\<lambda>s. committed_slots p (d_id s))
       (sort_key (\<lambda>s. (stamp_order (idle_from s), d_id s)) (filter (auto_candidate cfg now rt allowed profile p) (sessions p)))"

definition auto_accepts :: "string \<Rightarrow> string \<Rightarrow> string \<Rightarrow> pool \<Rightarrow> aedt_session \<Rightarrow> bool" where
  "auto_accepts family policy profile p s =
     (committed_slots p (d_id s) < d_slots_total s
      \<and> auto_reservation_fits_session family policy profile (occupants p (d_id s)) (pending_reservations p (d_id s) 0))"

definition auto_key :: "string \<Rightarrow> bool" where
  "auto_key key = startswith (sql_lower key) ''aedt-auto:''"

text \<open>The key and the deadline of the session's open automatic cohort, or fresh ones.\<close>

definition auto_cohort :: "int \<Rightarrow> pooled_admission \<Rightarrow> pool \<Rightarrow> aedt_session \<Rightarrow> string \<times> stamp" where
  "auto_cohort now pa p s =
     (let rows = sort_key x_id (filter (\<lambda>x. x_session_id x = d_id s \<and> x_session_generation x = d_generation s
                   \<and> auto_key (x_reservation_key x) \<and> x_state x \<in> active_reservation_states) (reservations p)) in
      case rows of [] \<Rightarrow> (''aedt-auto:'' @ show_int (d_id s) @ '':'' @ show_int (d_generation s) @ '':'' @ pa_key_suffix pa,
                          later now (pa_ttl_seconds pa))
      | x # _ \<Rightarrow> (x_reservation_key x,
          x_expires_at (hd (sort_key (\<lambda>y. stamp_order (x_expires_at y)) (filter (\<lambda>y. x_reservation_key y = x_reservation_key x) rows)))))"

definition admission_request :: "pooled_admission \<Rightarrow> pool_error + (string \<times> string \<times> string)" where
  "admission_request pa =
     (let family = lower (strip (pa_workload_family pa)); policy = lower (strip (policy_or_family (pa_isolation_policy pa))) in
      if pa_task_id pa \<le> 0 then Inl (Rejected ''task_id must be a positive integer'')
      else if \<not> (60 \<le> pa_ttl_seconds pa \<and> pa_ttl_seconds pa \<le> 3600)
      then Inl (Rejected ''ttl_seconds must be an integer between 60 and 3600'')
      else case pa_session_profile pa of Inl e \<Rightarrow> Inl e
      | Inr profile \<Rightarrow>
          if family = [] then Inl (Rejected ''workload_family is required for pooled pre-admission'')
          else if policy \<notin> {''family'', ''shared_if_compatible'', ''exclusive''} then Inl (Rejected ''invalid pooled isolation_policy'')
          else Inr (profile, family, policy))"

text \<open>The slot reserved for a task that has no usable reservation.\<close>

definition reserve_auto ::
  "pool_config \<Rightarrow> int \<Rightarrow> pooled_admission \<Rightarrow> routed_task \<Rightarrow> int list \<Rightarrow> string \<Rightarrow> string \<Rightarrow> string \<Rightarrow> pool \<Rightarrow> pool \<times> int option" where
  "reserve_auto cfg now pa rt allowed profile family policy p =
     (if rt_required rt \<and> (\<not> rt_matches rt \<or> rt_selected rt = []) then (unpin_task now (pa_task_id pa) p, None)
      else case find (auto_accepts family policy profile p) (auto_candidates cfg now rt allowed profile p) of
        None \<Rightarrow> (unpin_task now (pa_task_id pa) p, None)
      | Some s \<Rightarrow>
          (case auto_cohort now pa p s of (key, expires) \<Rightarrow>
             (pin_task cfg now (pa_task_id pa) (d_allocation_id s) (d_node_name s)
                (insert_reservation now key (d_id s) (d_generation s) profile family policy expires (pa_task_id pa) p),
              Some (reservation_seq p + 1))))"

definition admit_task ::
  "pool_config \<Rightarrow> int \<Rightarrow> pooled_admission \<Rightarrow> int list \<Rightarrow> string \<Rightarrow> string \<Rightarrow> string \<Rightarrow> task_row \<Rightarrow> pool \<Rightarrow> pool \<times> int option" where
  "admit_task cfg now pa allowed profile family policy t q =
     (let rt = route_task pa t; latest = latest_reservation q (pa_task_id pa) in
      if explicit_task_node_name_policy t = Some Strict \<and> rt_strict_node rt = [] then (q, None)
      else if pc_target_projects cfg \<le> 0 \<or> pc_target_projects cfg \<le> admitted_project_count q (pa_task_id pa) 0 0 then (q, None)
      else case latest of None \<Rightarrow> reserve_auto cfg now pa rt allowed profile family policy q
      | Some x \<Rightarrow>
          (case usable_reservation cfg now rt allowed family policy q x of
             Some s \<Rightarrow> (pin_task cfg now (pa_task_id pa) (d_allocation_id s) (d_node_name s) q, Some (x_id x))
           | None \<Rightarrow>
               if \<not> startswith (x_reservation_key x) ''aedt-auto:'' then (q, None)
               else reserve_auto cfg now pa rt allowed profile family policy
                      (if x_state x \<in> {RReserved, RClaimed}
                       then fail_exact_session_reservation_cohort now (x_reservation_key x)
                              ''automatic AEDT reservation target became unavailable'' False q else q)))"

definition allowed_allocations :: "pooled_admission \<Rightarrow> int list" where
  "allowed_allocations pa = (case pa_eligible_allocation_ids pa of None \<Rightarrow> [] | Some ids \<Rightarrow> filter (\<lambda>i. 0 < i) ids)"

definition prepare_pooled_task_session ::
  "pool_config \<Rightarrow> int \<Rightarrow> pooled_admission \<Rightarrow> pool \<Rightarrow> pool \<times> (pool_error + int option)" where
  "prepare_pooled_task_session cfg now pa p =
     (case admission_request pa of Inl e \<Rightarrow> (p, Inl e)
      | Inr (profile, family, policy) \<Rightarrow>
          if pa_eligible_allocation_ids pa \<noteq> None \<and> allowed_allocations pa = [] then (p, Inr None)
          else if \<not> operational cfg then (p, Inr None)
          else if policy = ''shared_if_compatible'' \<and> \<not> pa_mixed_validated pa then (p, Inr None)
          else
            (let q = refresh_exact_session_reservations now p in
             case get_task (pool_base q) (pa_task_id pa) of None \<Rightarrow> (q, Inr None)
             | Some t \<Rightarrow>
                 if t_status t \<noteq> Queued then (q, Inr None)
                 else if t_aedt_backend t \<noteq> Pooled then (p, Inl (Rejected ''pooled pre-admission requires a pooled task''))
                 else (case admit_task cfg now pa (allowed_allocations pa) profile family policy t q of (r, i) \<Rightarrow> (r, Inr i))))"

section \<open>Mixed canaries\<close>

definition check_canary_payload :: "int \<Rightarrow> (string \<times> string \<times> int) list \<Rightarrow> int \<Rightarrow> bool \<Rightarrow> pool_error option" where
  "check_canary_payload sid cohort ttl validated =
     (if sid \<le> 0 then Some (Rejected ''session_id must be positive'')
      else if \<not> (2 \<le> length cohort \<and> length cohort \<le> 8) then Some (Rejected ''mixed canary requires two to eight explicit families'')
      else if list_ex (\<lambda>(f, n, k). f = [] \<or> n = [] \<or> k < 1) cohort
      then Some (Rejected ''mixed canary family names and positive project counts are required'')
      else if \<not> distinct (map fst cohort) then Some (Rejected ''mixed canary workload families must be distinct'')
      else if \<not> distinct (map (fst \<circ> snd) cohort) then Some (Rejected ''mixed canary project namespaces must be distinct'')
      else if \<not> (60 \<le> ttl \<and> ttl \<le> 3600) then Some (Rejected ''ttl_seconds must be between 60 and 3600'')
      else if validated then Some (Rejected ''mixed-family isolation has already passed validation'') else None)"

definition canary_session_error :: "int \<Rightarrow> int \<Rightarrow> pool \<Rightarrow> aedt_session \<Rightarrow> pool_error option" where
  "canary_session_error sid expected p s =
     (if d_state s \<noteq> SReady then Some (Rejected ''mixed canary session must be ready'')
      else if int (d_slots_total s) \<noteq> expected then Some (Rejected ''mixed canary project count must match session slots'')
      else if d_solve_batch_sealed_at s \<noteq> Blank then Some (Rejected ''mixed canary session solve batch is already sealed'')
      else if d_drain_requested_at s \<noteq> Blank then Some (Rejected ''mixed canary session is draining'')
      else None)"

definition canary_session_busy :: "int \<Rightarrow> pool \<Rightarrow> pool_error option" where
  "canary_session_busy sid p =
     (if occupants p sid \<noteq> [] then Some (Rejected ''mixed canary session must be empty'')
      else if list_ex (\<lambda>c. ca_session_id c = sid \<and> ca_state c \<in> {COpen, CFilled}) (canaries p)
      then Some (Rejected ''mixed canary session already has an active admission'')
      else if pending_reservations p sid 0 \<noteq> [] then Some (Rejected ''mixed canary session has exact-session reservations'')
      else None)"

definition canary_keys :: "int \<Rightarrow> (nat \<Rightarrow> string) \<Rightarrow> (string \<times> string \<times> int) list \<Rightarrow> (string \<times> string \<times> string) list" where
  "canary_keys aid nonce cohort =
     map (\<lambda>(j, f, n, k). (''aedt-mixed-canary:'' @ show_int aid @ '':'' @ f @ '':'' @ show_int (int k) @ '':'' @ nonce j, f, n))
       (enumerate 0 (concat (map (\<lambda>(f, n, c). map (\<lambda>k. (f, n, k)) [0..<nat c]) cohort)))"

definition insert_canary :: "int \<Rightarrow> int \<Rightarrow> string \<Rightarrow> string \<Rightarrow> int \<Rightarrow> stamp \<Rightarrow> (nat \<Rightarrow> string) \<Rightarrow> (string \<times> string \<times> int) list \<Rightarrow> pool \<Rightarrow> pool" where
  "insert_canary now sid suffix profile expected expires nonce cohort p =
     (let aid = canary_seq p + 1; keys = canary_keys aid nonce cohort in
      p\<lparr>canaries := canaries p @ [\<lparr>ca_id = aid, ca_session_id = sid, ca_placement_group = ''mixed-canary-'' @ show_int sid @ ''-'' @ suffix,
           ca_session_profile = profile, ca_expected_projects = expected, ca_state = COpen, ca_expires_at = expires,
           ca_filled_at = Blank, ca_finished_at = Blank, ca_updated_at = At now\<rparr>],
        canary_seq := aid,
        canary_slots := canary_slots p @ map (\<lambda>(j, key, f, n). \<lparr>cs_id = canary_slot_seq p + 1 + int j, cs_admission_id = aid,
           cs_dedupe_key = key, cs_workload_family = f, cs_project_namespace = n, cs_lease_id = None, cs_admitted_at = Blank,
           cs_updated_at = At now\<rparr>) (enumerate 0 keys),
        canary_slot_seq := canary_slot_seq p + int (length keys)\<rparr>)"

definition create_mixed_canary_admission ::
  "int \<Rightarrow> (string \<Rightarrow> pool_error + string) \<Rightarrow> string \<Rightarrow> (nat \<Rightarrow> string) \<Rightarrow> int \<Rightarrow> (string \<times> string \<times> int) list \<Rightarrow> int \<Rightarrow> bool \<Rightarrow> pool \<Rightarrow> outcome" where
  "create_mixed_canary_admission now canonical suffix nonce sid families ttl validated p =
     (let cohort = map (\<lambda>(f, n, k). (lower (strip f), strip n, k)) families; expected = sum_list (map (snd \<circ> snd) cohort) in
      case check_canary_payload sid cohort ttl validated of Some e \<Rightarrow> (p, Some e)
      | None \<Rightarrow>
          (let q = refresh_mixed_canary_admissions now p in
           case get_session q sid of None \<Rightarrow> (p, Some (Rejected ''mixed canary session does not exist''))
           | Some s \<Rightarrow> (case canary_session_error sid expected q s of Some e \<Rightarrow> (p, Some e)
               | None \<Rightarrow> (case canonical (d_session_profile s) of Inl e \<Rightarrow> (p, Some e)
                   | Inr profile \<Rightarrow> (case canary_session_busy sid q of Some e \<Rightarrow> (p, Some e)
                       | None \<Rightarrow> (insert_canary now sid suffix profile expected (later now ttl) nonce cohort q, None))))))"

end
