(* ===== verification/Aedt_Rel.thy ===== *)
theory Aedt_Rel
  imports Aedt_Reserve
begin

text \<open>
  What the writes of the AEDT pool may do to a row. \<open>lease_move\<close> is the rule every operation except
  placement follows: ids never change, a terminal lease stays in its state, and a lease that holds a
  slot afterwards held the same slot before. \<open>lease_keep\<close> adds that no permit appears. The locale
  \<open>lease_relation\<close> has the operations' lemmas once, for any relation between the two; it is
  interpreted for \<open>lease_keep\<close> (all of them) and for \<open>client_keep\<close> (what a client can cause).
\<close>

section \<open>Relations on rows and tables\<close>

definition lease_move :: "lease \<Rightarrow> lease \<Rightarrow> bool" where
  "lease_move l l' = (ls_id l' = ls_id l \<and> ls_task_id l' = ls_task_id l \<and> ls_exact_session_reservation_id l' = ls_exact_session_reservation_id l
     \<and> (ls_state l \<in> lease_terminal_states \<longrightarrow> ls_state l' = ls_state l)
     \<and> (ls_state l' \<in> slot_states \<longrightarrow> ls_state l \<in> slot_states
          \<and> ls_session_id l' = ls_session_id l \<and> ls_slot_index l' = ls_slot_index l))"

definition permit_keep :: "lease \<Rightarrow> lease \<Rightarrow> bool" where
  "permit_keep l l' = ((ls_state l' \<in> slot_states \<longrightarrow> ls_solve_permit_at l' = ls_solve_permit_at l
        \<and> ls_solve_permit_generation l' = ls_solve_permit_generation l)
     \<and> (ls_state l' = LQueued \<longrightarrow> ls_solve_permit_at l' = Blank
          \<or> (ls_state l = LQueued \<and> ls_solve_permit_at l' = ls_solve_permit_at l)))"

definition lease_keep :: "lease \<Rightarrow> lease \<Rightarrow> bool" where
  "lease_keep l l' = (lease_move l l' \<and> permit_keep l l')"

definition holds_project :: "lease \<Rightarrow> bool" where
  "holds_project l = (ls_state l \<in> {LAttaching, LActive, LReleasing} \<and> or_zero (ls_session_id l) \<noteq> 0)"

definition owner_keep :: "lease \<Rightarrow> lease \<Rightarrow> bool" where
  "owner_keep l l' = (ls_exact_session_reservation_id l = 0 \<and> holds_project l \<longrightarrow> holds_project l')"

definition client_keep :: "lease \<Rightarrow> lease \<Rightarrow> bool" where
  "client_keep l l' = (lease_move l l' \<and> owner_keep l l')"

definition session_keep :: "pool \<Rightarrow> aedt_session \<Rightarrow> aedt_session \<Rightarrow> bool" where
  "session_keep p' s s' = (d_id s' = d_id s \<and> d_slots_total s' = d_slots_total s
     \<and> d_solve_batch_generation s' = d_solve_batch_generation s
     \<and> (d_solve_batch_sealed_at s' = d_solve_batch_sealed_at s
        \<or> (d_solve_batch_sealed_at s' = Blank \<and> occupants p' (d_id s) = [])))"

definition pool_rel :: "(lease \<Rightarrow> lease \<Rightarrow> bool) \<Rightarrow> pool \<Rightarrow> pool \<Rightarrow> bool" where
  "pool_rel R p p' = (list_all2 R (leases p) (leases p') \<and> list_all2 (session_keep p') (sessions p) (sessions p')
     \<and> map x_id (reservations p') = map x_id (reservations p)
     \<and> lease_seq p' = lease_seq p \<and> session_seq p' = session_seq p \<and> reservation_seq p' = reservation_seq p)"

definition ids_ok :: "pool \<Rightarrow> bool" where
  "ids_ok p = (0 \<notin> x_id ` set (reservations p))"

lemma lease_move_refl [simp]: "lease_move l l" and permit_keep_refl [simp]: "permit_keep l l"
  by (simp_all add: lease_move_def permit_keep_def)

lemma lease_move_trans: "lease_move l m \<Longrightarrow> lease_move m n \<Longrightarrow> lease_move l n"
  by (auto simp: lease_move_def)

lemma permit_keep_trans: "lease_move m n \<Longrightarrow> permit_keep l m \<Longrightarrow> permit_keep m n \<Longrightarrow> permit_keep l n"
  unfolding lease_move_def permit_keep_def by (elim conjE, intro conjI impI) (simp, simp, metis)

lemma lease_keep_trans: "lease_keep l m \<Longrightarrow> lease_keep m n \<Longrightarrow> lease_keep l n"
  unfolding lease_keep_def using lease_move_trans permit_keep_trans by blast

lemma owner_keep_trans: "lease_move l m \<Longrightarrow> owner_keep l m \<Longrightarrow> owner_keep m n \<Longrightarrow> owner_keep l n"
  by (auto simp: owner_keep_def lease_move_def)

lemma list_all2_set2: "list_all2 R xs ys \<Longrightarrow> y \<in> set ys \<Longrightarrow> \<exists>x \<in> set xs. R x y"
  by (induction rule: list_all2_induct) auto

lemma rel_sql_update:
  assumes "\<And>r. R r r" and "\<And>r. r \<in> set rows \<Longrightarrow> P r \<Longrightarrow> R r (f r)"
  shows "list_all2 R rows (sql_update P f rows)"
  using assms(2) by (induction rows) (auto simp: sql_update_def assms(1))

lemma update_fields [simp]:
  "sessions (update_leases P f p) = sessions p" "reservations (update_leases P f p) = reservations p"
  "canaries (update_leases P f p) = canaries p" "canary_slots (update_leases P f p) = canary_slots p"
  "pool_base (update_leases P f p) = pool_base p" "leases (update_leases P f p) = sql_update P f (leases p)"
  "leases (update_sessions Q g p) = leases p" "reservations (update_sessions Q g p) = reservations p"
  "canaries (update_sessions Q g p) = canaries p" "canary_slots (update_sessions Q g p) = canary_slots p"
  "pool_base (update_sessions Q g p) = pool_base p" "sessions (update_sessions Q g p) = sql_update Q g (sessions p)"
  "leases (update_reservations U h p) = leases p" "sessions (update_reservations U h p) = sessions p"
  "canaries (update_reservations U h p) = canaries p" "canary_slots (update_reservations U h p) = canary_slots p"
  "pool_base (update_reservations U h p) = pool_base p"
  "leases (update_canaries V k p) = leases p" "sessions (update_canaries V k p) = sessions p"
  "reservations (update_canaries V k p) = reservations p" "canary_slots (update_canaries V k p) = canary_slots p"
  "leases (update_pool_allocations W a p) = leases p" "sessions (update_pool_allocations W a p) = sessions p"
  "reservations (update_pool_allocations W a p) = reservations p"
  "leases (update_pool_tasks X b p) = leases p" "sessions (update_pool_tasks X b p) = sessions p"
  "reservations (update_pool_tasks X b p) = reservations p"
  by (simp_all add: update_leases_def update_sessions_def update_reservations_def update_canaries_def
      update_pool_allocations_def update_pool_tasks_def)

lemma update_seqs [simp]:
  "reservation_seq (update_leases P f p) = reservation_seq p" "reservation_seq (update_sessions Q g p) = reservation_seq p"
  "reservation_seq (update_reservations U h p) = reservation_seq p" "reservation_seq (update_canaries V k p) = reservation_seq p"
  "reservation_seq (update_pool_allocations W a p) = reservation_seq p" "reservation_seq (update_pool_tasks X b p) = reservation_seq p"
  "lease_seq (update_leases P f p) = lease_seq p" "session_seq (update_leases P f p) = session_seq p"
  "lease_seq (update_sessions Q g p) = lease_seq p" "session_seq (update_sessions Q g p) = session_seq p"
  "lease_seq (update_reservations U h p) = lease_seq p" "session_seq (update_reservations U h p) = session_seq p"
  "lease_seq (update_canaries V k p) = lease_seq p" "session_seq (update_canaries V k p) = session_seq p"
  "lease_seq (update_pool_allocations W a p) = lease_seq p" "session_seq (update_pool_allocations W a p) = session_seq p"
  "lease_seq (update_pool_tasks X b p) = lease_seq p" "session_seq (update_pool_tasks X b p) = session_seq p"
  by (simp_all add: update_leases_def update_sessions_def update_reservations_def update_canaries_def
      update_pool_allocations_def update_pool_tasks_def)

lemma occupants_cong: "leases p' = leases p \<Longrightarrow> occupants p' sid = occupants p sid"
  by (simp add: occupants_def)

lemma occupants_Nil: "occupants p sid = [] \<longleftrightarrow> (\<forall>l \<in> set (leases p). \<not> occupies sid l)"
  by (simp add: occupants_def filter_empty_conv)

text \<open>The rows the operations write.\<close>

named_theorems lease_write

lemmas [lease_write] = releasing_lease_def finished_lease_def vacated_lease_def heartbeat_write_def revoked_lease_def
  accepted_lease_def activated_lease_def permit_heartbeat_def completed_pipeline_def cancelling_lease_def note_fault_def
  requeued_lease_def withdrawn_lease_def lease_move_def permit_keep_def lease_keep_def owner_keep_def holds_project_def
  slot_states_def lease_terminal_states_def lease_live_states_def

section \<open>The operations, once for every relation\<close>

locale lease_relation =
  fixes R :: "lease \<Rightarrow> lease \<Rightarrow> bool"
  assumes R_trans: "R l m \<Longrightarrow> R m n \<Longrightarrow> R l n"
    and R_move: "R l m \<Longrightarrow> lease_move l m"
    and R_settle: "lease_keep l m \<Longrightarrow> owner_keep l m \<Longrightarrow> R l m"
begin

lemma R_refl: "R l l"
  by (rule R_settle) (simp_all add: lease_keep_def owner_keep_def)

lemma occupants_shrink:
  assumes "list_all2 R (leases p) (leases p')" and "occupants p sid = []"
  shows "occupants p' sid = []"
  unfolding occupants_Nil
proof
  fix l'
  assume "l' \<in> set (leases p')"
  then obtain l where l: "l \<in> set (leases p)" "R l l'" using list_all2_set2 [OF assms(1)] by blast
  then show "\<not> occupies sid l'" using assms(2) R_move [OF l(2)] by (auto simp: occupants_Nil lease_move_def occupies_def)
qed

lemma rel_refl [simp]: "pool_rel R p p"
  by (simp add: pool_rel_def list_all2_refl R_refl session_keep_def)

lemma rel_trans [trans]:
  assumes "pool_rel R p q" and "pool_rel R q r"
  shows "pool_rel R p r"
proof -
  have "session_keep r s u" if "session_keep q s t" "session_keep r t u" for s t u
    using that assms(2) occupants_shrink [of q r "d_id s"] by (auto simp: session_keep_def pool_rel_def)
  moreover have "list_all2 (session_keep q) (sessions p) (sessions q)" "list_all2 (session_keep r) (sessions q) (sessions r)"
    using assms by (simp_all add: pool_rel_def)
  ultimately have "list_all2 (session_keep r) (sessions p) (sessions r)"
    using list_all2_trans [of "session_keep q" "session_keep r" "session_keep r" "sessions p" "sessions q" "sessions r"] by blast
  then show ?thesis using assms list_all2_trans [of R R R "leases p" "leases q" "leases r"] R_trans
    by (auto simp: pool_rel_def)
qed

lemma rel_ids: "pool_rel R p q \<Longrightarrow> ids_ok p \<Longrightarrow> ids_ok q"
  unfolding pool_rel_def ids_ok_def by (metis list.set_map)

lemma rel_then: "pool_rel R p q \<Longrightarrow> (ids_ok q \<Longrightarrow> pool_rel R q r) \<Longrightarrow> ids_ok p \<Longrightarrow> pool_rel R p r"
  using rel_trans rel_ids by blast

lemma rel_leases: "(\<And>l. l \<in> set (leases p) \<Longrightarrow> P l \<Longrightarrow> R l (f l)) \<Longrightarrow> pool_rel R p (update_leases P f p)"
  by (simp add: pool_rel_def rel_sql_update R_refl session_keep_def list_all2_refl)

lemma rel_sessions:
  assumes "\<And>s. d_id (f s) = d_id s \<and> d_slots_total (f s) = d_slots_total s
      \<and> d_solve_batch_generation (f s) = d_solve_batch_generation s \<and> d_solve_batch_sealed_at (f s) = d_solve_batch_sealed_at s"
  shows "pool_rel R p (update_sessions P f p)"
  using assms by (simp add: pool_rel_def list_all2_refl R_refl rel_sql_update session_keep_def)

lemma rel_reservations: "(\<And>x. x_id (f x) = x_id x) \<Longrightarrow> pool_rel R p (update_reservations P f p)"
  by (simp add: pool_rel_def list_all2_refl R_refl session_keep_def update_reservations_def sql_update_def)

lemma rel_other:
  "leases q = leases p \<Longrightarrow> sessions q = sessions p \<Longrightarrow> reservations q = reservations p
   \<Longrightarrow> lease_seq q = lease_seq p \<Longrightarrow> session_seq q = session_seq p \<Longrightarrow> reservation_seq q = reservation_seq p
   \<Longrightarrow> pool_rel R p q"
  by (simp add: pool_rel_def list_all2_refl R_refl session_keep_def)

lemma rel_fold:
  assumes "\<And>x p. x \<in> set xs \<Longrightarrow> ids_ok p \<Longrightarrow> pool_rel R p (g x p)" and "ids_ok p"
  shows "pool_rel R p (fold g xs p)"
  using assms
proof (induction xs arbitrary: p)
  case (Cons x xs)
  then have one: "pool_rel R p (g x p)" by simp
  then have "ids_ok (g x p)" using Cons.prems(2) rel_ids by blast
  then have "pool_rel R (g x p) (fold g xs (g x p))" using Cons.IH Cons.prems(1) by simp
  then show ?case using rel_trans [OF one] by simp
qed simp

lemma rel_refresh_session: "pool_rel R p (refresh_session_state now sid p)"
proof (cases "get_session p sid")
  case (Some s)
  let ?f = "\<lambda>n idle r. r\<lparr>d_state := n, d_idle_since := idle, d_solve_batch_sealed_at := (if length (occupants p sid) = 0 then Blank
      else d_solve_batch_sealed_at r), d_updated_at := At now\<rparr>"
  have "pool_rel R p (update_sessions (\<lambda>r. d_id r = sid) (?f n idle) p)" for n idle
    unfolding pool_rel_def
    by (auto simp: list_all2_refl R_refl session_keep_def occupants_def intro!: rel_sql_update)
  then show ?thesis using Some by (simp add: refresh_session_state_def Let_def)
qed (simp add: refresh_session_state_def)

lemma rel_refresh_of: "pool_rel R p (refresh_session_of now l p)"
  by (simp add: refresh_session_of_def rel_refresh_session)

lemma rel_block_reuse: "pool_rel R p (block_reuse now P p)"
  unfolding block_reuse_def by (rule rel_sessions) simp

lemma rel_zero_owner: "ids_ok p \<Longrightarrow> pool_rel R p (refresh_zero_owner_draining_sessions now p)"
  unfolding refresh_zero_owner_draining_sessions_def by (rule rel_fold) (simp_all add: rel_refresh_session)

lemma exact_of_cohort: "ids_ok p \<Longrightarrow> in_cohort p key l \<Longrightarrow> ls_exact_session_reservation_id l \<noteq> 0"
  by (auto simp: in_cohort_def cohort_ids_def ids_ok_def)

lemma rel_fail_cohort:
  assumes "ids_ok p"
  shows "pool_rel R p (fail_exact_session_reservation_cohort now key message settle p)"
proof -
  let ?reason = "if strip message = [] then ''exact-session reservation target became unavailable'' else strip message"
  let ?q = "update_leases (\<lambda>l. in_cohort p key l \<and> ls_state l \<in> {LAttaching, LActive, LReleasing}) (releasing_lease now ?reason) p"
  define p1 where "p1 = (if settle then block_reuse now (\<lambda>s. d_id s \<in> set (releasing_sessions ?q key)) ?q else p)"
  have q: "pool_rel R p ?q" by (rule rel_leases, rule R_settle) (auto simp: lease_write)
  then have p1: "pool_rel R p p1" unfolding p1_def using rel_trans [OF q rel_block_reuse] by simp
  then have ids: "ids_ok p1" using rel_ids assms by blast
  have fail: "pool_rel R p1 (update_leases (\<lambda>l. in_cohort p1 key l \<and> ls_state l \<in> S) (finished_lease now LFailed ?reason) p1)"
    if "S \<inter> lease_terminal_states = {}" for S
    using exact_of_cohort [OF ids] that by (intro rel_leases R_settle) (auto simp: lease_write)
  have "pool_rel R p1 (fail_exact_session_reservation_cohort now key message settle p)"
    unfolding fail_exact_session_reservation_cohort_def Let_def p1_def [symmetric]
    by (rule rel_trans [OF fail rel_reservations]) (auto simp: lease_terminal_states_def finished_reservation_def)
  then show ?thesis by (rule rel_trans [OF p1])
qed

lemma rel_expire_cohort:
  assumes "ids_ok p"
  shows "pool_rel R p (expire_exact_session_reservation_cohort now key p)"
proof -
  let ?reason = "''exact-session reservation cohort expired before solve permit''"
  define p1 where "p1 = update_leases (\<lambda>l. in_cohort p key l \<and> ls_state l \<in> {LAttaching, LActive, LReleasing} \<and> \<not> permitted l)
      (releasing_lease now ?reason) p"
  define p2 where "p2 = block_reuse now (\<lambda>s. d_id s \<in> set (releasing_sessions p1 key)) p1"
  define p3 where "p3 = update_leases (\<lambda>l. in_cohort p2 key l \<and> ls_state l \<in> {LQueued, LOffered, LLeased} \<and> \<not> permitted l)
      (finished_lease now LExpired ?reason) p2"
  have p1: "pool_rel R p p1" unfolding p1_def by (rule rel_leases, rule R_settle) (auto simp: lease_write)
  have p2: "pool_rel R p1 p2" unfolding p2_def by (rule rel_block_reuse)
  have p3: "pool_rel R p2 p3" unfolding p3_def by (rule rel_leases, rule R_settle) (auto simp: lease_write)
  have "pool_rel R p3 (expire_exact_session_reservation_cohort now key p)"
    unfolding expire_exact_session_reservation_cohort_def Let_def p1_def [symmetric] p2_def [symmetric] p3_def [symmetric]
    by (rule rel_reservations) (simp add: finished_reservation_def)
  then show ?thesis using p1 p2 p3 rel_trans by blast
qed

lemma rel_fail_target: "ids_ok p \<Longrightarrow> pool_rel R p (fail_exact_session_reservations_for_target now sid message p)"
  unfolding fail_exact_session_reservations_for_target_def by (rule rel_fold) (simp_all add: rel_fail_cohort)

lemma rel_release_reservations: "pool_rel R p (release_reservations now p)"
  unfolding release_reservations_def Let_def
  by (rule rel_trans [OF rel_reservations rel_reservations]) (simp_all add: released_reservation_def)

lemma rel_fail_invalid: "ids_ok p \<Longrightarrow> pool_rel R p (fail_invalid_cohort now key p)"
  unfolding fail_invalid_cohort_def Let_def by (rule rel_then [OF rel_fail_cohort rel_fold]) (simp_all add: rel_refresh_session)

lemma rel_refresh_exact:
  assumes "ids_ok p"
  shows "pool_rel R p (refresh_exact_session_reservations now p)"
proof -
  have a: "ids_ok q \<Longrightarrow> pool_rel R q (fail_terminal_siblings now q)" for q
    unfolding fail_terminal_siblings_def by (rule rel_fold) (simp_all add: rel_fail_cohort)
  have b: "ids_ok q \<Longrightarrow> pool_rel R q (expire_cohorts now q)" for q
    unfolding expire_cohorts_def by (rule rel_fold) (simp_all add: rel_expire_cohort)
  have c: "ids_ok q \<Longrightarrow> pool_rel R q (fail_invalid_targets now q)" for q
    unfolding fail_invalid_targets_def by (rule rel_fold) (simp_all add: rel_fail_invalid)
  show ?thesis unfolding refresh_exact_session_reservations_def
    by (rule rel_then [OF rel_then [OF rel_then [OF a b] rel_release_reservations] c]) (use assms in simp_all)
qed

lemma rel_canary_write: "pool_rel R p (update_canaries P f p)"
  by (rule rel_other) simp_all

lemma rel_abort_canary:
  assumes "ids_ok p"
  shows "pool_rel R p (abort_canary now c p)"
proof -
  have a: "pool_rel R q (update_leases (\<lambda>l. P l \<and> ls_state l \<in> {LQueued, LOffered}) (vacated_lease now LCancelled abort_reason) q)" for P q
    by (rule rel_leases, rule R_settle) (auto simp: lease_write)
  have b: "pool_rel R q (update_leases (\<lambda>l. P l \<and> ls_state l \<in> {LLeased, LAttaching, LActive}) (releasing_lease now abort_reason) q)" for P q
    by (rule rel_leases, rule R_settle) (auto simp: lease_write)
  show ?thesis unfolding abort_canary_def Let_def
    by (intro rel_trans [OF _ rel_refresh_session] rel_trans [OF _ rel_block_reuse] rel_trans [OF _ b] rel_trans [OF _ a] rel_canary_write)
qed

lemma rel_refresh_canaries: "ids_ok p \<Longrightarrow> pool_rel R p (refresh_mixed_canary_admissions now p)"
  unfolding refresh_mixed_canary_admissions_def finish_canaries_def
  by (intro rel_trans [OF _ rel_canary_write] rel_fold rel_abort_canary)

end

end
