(* ===== verification/Aedt_Step.thy ===== *)
theory Aedt_Step
  imports Aedt_Rel
begin

text \<open>
  The ways the tables of the AEDT pool evolve: writes that follow a row relation, an offer of a free
  slot, a solve permit for a session on which nobody holds one, and the insertion of a queued lease or
  of a starting session. The invariant of the pool holds along every such evolution.
\<close>

section \<open>Evolution\<close>

definition seal_session :: "int \<Rightarrow> aedt_session \<Rightarrow> aedt_session" where
  "seal_session now s = (bump_generation now s)\<lparr>d_solve_batch_sealed_at := stamp_or (d_solve_batch_sealed_at s) (At now)\<rparr>"

inductive evolves :: "(lease \<Rightarrow> lease \<Rightarrow> bool) \<Rightarrow> pool \<Rightarrow> pool \<Rightarrow> bool" for R where
  keep: "pool_rel R p q \<Longrightarrow> evolves R p q"
| offer: "s \<in> set (sessions p) \<Longrightarrow> k < d_slots_total s \<Longrightarrow> Some k \<notin> ls_slot_index ` set (occupants p (d_id s))
    \<Longrightarrow> evolves R p (update_leases (\<lambda>r. ls_id r = i \<and> ls_state r = LQueued \<and> D r) (offer_lease cfg now (d_id s) k) p)"
| permit: "s \<in> set (sessions p) \<Longrightarrow> list_all (\<lambda>l. \<not> permitted l) (occupants p (d_id s)) \<Longrightarrow> length ids \<le> 1
    \<Longrightarrow> evolves R p (update_leases (\<lambda>l. ls_session_id l = Some (d_id s) \<and> waiting_for_permit l \<and> ls_id l \<in> set ids)
          (permit_lease now (d_solve_batch_generation s + 1))
          (update_sessions (\<lambda>r. d_id r = d_id s) (seal_session now) p))"
| insert_lease: "ls_id l = lease_seq p + 1 \<Longrightarrow> ls_state l = LQueued \<Longrightarrow> ls_solve_permit_at l = Blank \<Longrightarrow> 0 \<le> ls_task_id l
    \<Longrightarrow> evolves R p (p\<lparr>leases := leases p @ [l], lease_seq := lease_seq p + 1\<rparr>)"
| insert_session: "d_id s = session_seq p + 1
    \<Longrightarrow> evolves R p (p\<lparr>sessions := sessions p @ [s], session_seq := session_seq p + 1\<rparr>)"
| insert_reservation: "x_id x = reservation_seq p + 1
    \<Longrightarrow> evolves R p (p\<lparr>reservations := reservations p @ [x], reservation_seq := reservation_seq p + 1\<rparr>)"
| chain: "evolves R p q \<Longrightarrow> evolves R q r \<Longrightarrow> evolves R p r"

section \<open>Invariant\<close>

definition slots_inv :: "pool \<Rightarrow> bool" where
  "slots_inv p = (\<forall>l \<in> set (leases p). ls_state l \<in> slot_states \<longrightarrow>
     (\<exists>s \<in> set (sessions p). \<exists>k < d_slots_total s. ls_session_id l = Some (d_id s) \<and> ls_slot_index l = Some k)
     \<and> (\<forall>m \<in> set (leases p). ls_id m \<noteq> ls_id l \<and> ls_state m \<in> slot_states \<and> ls_session_id m = ls_session_id l
          \<longrightarrow> ls_slot_index m \<noteq> ls_slot_index l))"

definition permits_inv :: "pool \<Rightarrow> bool" where
  "permits_inv p = ((\<forall>l \<in> set (leases p). ls_state l = LQueued \<longrightarrow> \<not> permitted l)
     \<and> (\<forall>s \<in> set (sessions p). \<forall>l \<in> set (leases p). occupies (d_id s) l \<and> permitted l
          \<longrightarrow> d_solve_batch_sealed_at s \<noteq> Blank \<and> ls_solve_permit_generation l = d_solve_batch_generation s)
     \<and> (\<forall>l \<in> set (leases p). \<forall>m \<in> set (leases p). \<forall>sid. occupies sid l \<and> occupies sid m \<and> permitted l \<and> permitted m
          \<longrightarrow> ls_id l = ls_id m))"

definition keys_inv :: "pool \<Rightarrow> bool" where
  "keys_inv p = (distinct (map ls_id (leases p)) \<and> distinct (map d_id (sessions p)) \<and> distinct (map x_id (reservations p)) \<and> ids_ok p
     \<and> list_all (\<lambda>l. ls_id l \<le> lease_seq p) (leases p) \<and> list_all (\<lambda>s. d_id s \<le> session_seq p) (sessions p)
     \<and> list_all (\<lambda>x. x_id x \<le> reservation_seq p) (reservations p) \<and> 0 \<le> reservation_seq p)"

definition pool_inv :: "pool \<Rightarrow> bool" where
  "pool_inv p = (keys_inv p \<and> slots_inv p \<and> permits_inv p)"

lemma map_sql_update: "(\<And>r. key (f r) = key r) \<Longrightarrow> map key (sql_update P f rows) = map key rows"
  by (simp add: sql_update_def)

lemma list_all2_map_eq: "list_all2 R xs ys \<Longrightarrow> (\<And>x y. R x y \<Longrightarrow> f y = f x) \<Longrightarrow> map f ys = map f xs"
  by (induction rule: list_all2_induct) auto

text \<open>Keys.\<close>

lemma list_all_image: "list_all (\<lambda>x. f x \<le> (n::int)) xs \<longleftrightarrow> (\<forall>i \<in> set (map f xs). i \<le> n)"
  by (simp add: list_all_iff)

lemma keys_inv_cong:
  "map ls_id (leases q) = map ls_id (leases p) \<Longrightarrow> map d_id (sessions q) = map d_id (sessions p)
   \<Longrightarrow> map x_id (reservations q) = map x_id (reservations p) \<Longrightarrow> lease_seq q = lease_seq p \<Longrightarrow> session_seq q = session_seq p
   \<Longrightarrow> reservation_seq q = reservation_seq p \<Longrightarrow> keys_inv q \<longleftrightarrow> keys_inv p"
  by (simp only: keys_inv_def ids_ok_def list_all_image list.set_map [symmetric])

lemma evolves_keys:
  assumes "evolves R p q" and "\<And>l m. R l m \<Longrightarrow> lease_move l m" and "keys_inv p"
  shows "keys_inv q"
  using assms(1,3)
proof (induction rule: evolves.induct)
  case (keep p q)
  have "map ls_id (leases q) = map ls_id (leases p)" "map d_id (sessions q) = map d_id (sessions p)"
    using keep(1) assms(2) unfolding pool_rel_def lease_move_def session_keep_def
    by (auto intro: list_all2_map_eq)
  then show ?case using keep keys_inv_cong [of q p] by (simp add: pool_rel_def)
next
  case (offer s p k i D cfg now)
  then show ?case by (subst keys_inv_cong [of _ p]) (simp_all add: map_sql_update offer_lease_def)
next
  case (permit s p ids now)
  then show ?case by (subst keys_inv_cong [of _ p]) (simp_all add: map_sql_update permit_lease_def seal_session_def bump_generation_def)
next
  case (insert_lease l p)
  then show ?case by (auto simp: keys_inv_def ids_ok_def list_all_iff)
next
  case (insert_session s p)
  then show ?case by (auto simp: keys_inv_def ids_ok_def list_all_iff)
next
  case (insert_reservation x p)
  then show ?case by (auto simp: keys_inv_def ids_ok_def list_all_iff)
qed blast

text \<open>Task ids.\<close>

definition tasks_inv :: "pool \<Rightarrow> bool" where
  "tasks_inv p = list_all (\<lambda>l. 0 \<le> ls_task_id l) (leases p)"

lemma tasks_inv_update: "(\<And>r. ls_task_id (f r) = ls_task_id r) \<Longrightarrow> tasks_inv p \<Longrightarrow> tasks_inv (update_leases P f p)"
  by (auto simp: tasks_inv_def list_all_iff sql_update_def)

lemma evolves_tasks:
  assumes "evolves R p q" and "\<And>l m. R l m \<Longrightarrow> lease_move l m" and "tasks_inv p"
  shows "tasks_inv q"
  using assms(1,3)
proof (induction rule: evolves.induct)
  case (keep p q)
  have "map ls_task_id (leases q) = map ls_task_id (leases p)"
    using keep(1) assms(2) unfolding pool_rel_def lease_move_def by (auto intro: list_all2_map_eq)
  then have "set (map ls_task_id (leases q)) = set (map ls_task_id (leases p))" by simp
  then show ?case using keep.prems unfolding tasks_inv_def list_all_iff by (metis (mono_tags) imageE imageI list.set_map)
next
  case (offer s p k i D cfg now)
  then show ?case by (intro tasks_inv_update) (simp_all add: offer_lease_def)
next
  case (permit s p ids now)
  have "tasks_inv (update_sessions (\<lambda>r. d_id r = d_id s) (seal_session now) p)" using permit.prems by (simp add: tasks_inv_def)
  then show ?case by (intro tasks_inv_update) (simp_all add: permit_lease_def)
qed (simp_all add: tasks_inv_def)

text \<open>Slots.\<close>

lemma slots_move:
  assumes "list_all2 lease_move (leases p) (leases q)"
    and new: "\<And>s. s \<in> set (sessions p) \<Longrightarrow> \<exists>s' \<in> set (sessions q). d_id s' = d_id s \<and> d_slots_total s' = d_slots_total s"
    and "slots_inv p"
  shows "slots_inv q"
proof -
  have old: "\<exists>l \<in> set (leases p). lease_move l l'" if "l' \<in> set (leases q)" for l'
    using list_all2_set2 [OF assms(1) that] .
  show ?thesis
    unfolding slots_inv_def
  proof (intro ballI impI conjI)
    fix l' assume l': "l' \<in> set (leases q)" "ls_state l' \<in> slot_states"
    then obtain l where l: "l \<in> set (leases p)" "lease_move l l'" using old by blast
    then obtain s k where "s \<in> set (sessions p)" "k < d_slots_total s" "ls_session_id l = Some (d_id s)" "ls_slot_index l = Some k"
      using l'(2) assms(3) unfolding slots_inv_def lease_move_def by blast
    moreover obtain s' where "s' \<in> set (sessions q)" "d_id s' = d_id s" "d_slots_total s' = d_slots_total s"
      using new [OF calculation(1)] by blast
    ultimately show "\<exists>s \<in> set (sessions q). \<exists>k < d_slots_total s. ls_session_id l' = Some (d_id s) \<and> ls_slot_index l' = Some k"
      using l(2) l'(2) unfolding lease_move_def by (intro bexI [of _ s'] exI [of _ k]) simp_all
    fix m' assume m': "m' \<in> set (leases q)" "ls_id m' \<noteq> ls_id l' \<and> ls_state m' \<in> slot_states \<and> ls_session_id m' = ls_session_id l'"
    then obtain m where m: "m \<in> set (leases p)" "lease_move m m'" using old by blast
    have "ls_slot_index m \<noteq> ls_slot_index l"
      using assms(3) l m l'(2) m'(2) unfolding slots_inv_def lease_move_def by metis
    then show "ls_slot_index m' \<noteq> ls_slot_index l'" using l m l'(2) m'(2) unfolding lease_move_def by metis
  qed
qed

lemma rel_lease_moves: "pool_rel R p q \<Longrightarrow> (\<And>l m. R l m \<Longrightarrow> lease_move l m) \<Longrightarrow> list_all2 lease_move (leases p) (leases q)"
  unfolding pool_rel_def by (blast intro: list_all2_mono)

lemma rel_slots_total:
  assumes "pool_rel R p q" and "s \<in> set (sessions p)"
  shows "\<exists>s' \<in> set (sessions q). d_id s' = d_id s \<and> d_slots_total s' = d_slots_total s"
proof -
  have "list_all2 (session_keep q) (sessions p) (sessions q)" using assms(1) by (simp add: pool_rel_def)
  then show ?thesis using assms(2) by (induction rule: list_all2_induct) (auto simp: session_keep_def)
qed

lemma slots_keep: "pool_rel R p q \<Longrightarrow> (\<And>l m. R l m \<Longrightarrow> lease_move l m) \<Longrightarrow> slots_inv p \<Longrightarrow> slots_inv q"
  by (rule slots_move [OF rel_lease_moves rel_slots_total])

lemma slots_offer:
  assumes "s \<in> set (sessions p)" and "k < d_slots_total s" and free: "Some k \<notin> ls_slot_index ` set (occupants p (d_id s))"
    and "slots_inv p"
  shows "slots_inv (update_leases (\<lambda>r. ls_id r = i \<and> ls_state r = LQueued \<and> D r) (offer_lease cfg now (d_id s) k) p)"
proof -
  let ?o = "offer_lease cfg now (d_id s) k" and ?P = "\<lambda>r. ls_id r = i \<and> ls_state r = LQueued \<and> D r"
  have o: "ls_id (?o r) = ls_id r" "ls_session_id (?o r) = Some (d_id s)" "ls_slot_index (?o r) = Some k" for r
    by (simp_all add: offer_lease_def)
  have "\<forall>m \<in> set (leases p). ls_state m \<in> slot_states \<and> ls_session_id m = Some (d_id s) \<longrightarrow> ls_slot_index m \<noteq> Some k"
    using free by (auto simp: occupants_def occupies_def image_iff)
  then show ?thesis using assms(1,2,4) unfolding slots_inv_def
    by (auto simp: sql_update_def o split: if_splits)
qed

lemma slots_insert_lease: "ls_state l = LQueued \<Longrightarrow> slots_inv p \<Longrightarrow> slots_inv (p\<lparr>leases := leases p @ [l], lease_seq := n\<rparr>)"
  unfolding slots_inv_def by (auto simp: slot_states_def)

lemma evolves_slots:
  assumes "evolves R p q" and "\<And>l m. R l m \<Longrightarrow> lease_move l m" and "slots_inv p"
  shows "slots_inv q"
  using assms(1,3)
proof (induction rule: evolves.induct)
  case (keep p q)
  then show ?case using slots_keep assms(2) by blast
next
  case (offer s p k i D cfg now)
  then show ?case by (rule slots_offer)
next
  case (permit s p ids now)
  show ?case
  proof (rule slots_move [OF _ _ permit.prems], goal_cases)
    case 1
    show ?case by (auto simp: permit_lease_def lease_move_def intro!: rel_sql_update)
  next
    case (2 r)
    then show ?case
      by (intro bexI [of _ "if d_id r = d_id s then seal_session now r else r"]) (auto simp: sql_update_def seal_session_def bump_generation_def)
  qed
next
  case (insert_lease l p)
  then show ?case by (simp add: slots_insert_lease)
next
  case (insert_session s p)
  then show ?case by (auto simp: slots_inv_def)
next
  case (insert_reservation x p)
  then show ?case by (simp add: slots_inv_def)
qed blast

text \<open>Permits.\<close>

lemma permits_invI:
  assumes "\<And>l. l \<in> set (leases p) \<Longrightarrow> ls_state l = LQueued \<Longrightarrow> \<not> permitted l"
    and "\<And>s l. s \<in> set (sessions p) \<Longrightarrow> l \<in> set (leases p) \<Longrightarrow> occupies (d_id s) l \<Longrightarrow> permitted l
          \<Longrightarrow> d_solve_batch_sealed_at s \<noteq> Blank \<and> ls_solve_permit_generation l = d_solve_batch_generation s"
    and "\<And>l m sid. l \<in> set (leases p) \<Longrightarrow> m \<in> set (leases p) \<Longrightarrow> occupies sid l \<Longrightarrow> occupies sid m \<Longrightarrow> permitted l \<Longrightarrow> permitted m
          \<Longrightarrow> ls_id l = ls_id m"
  shows "permits_inv p"
  unfolding permits_inv_def using assms by blast

lemma permits_queued: "permits_inv p \<Longrightarrow> l \<in> set (leases p) \<Longrightarrow> ls_state l = LQueued \<Longrightarrow> \<not> permitted l"
  and permits_session: "permits_inv p \<Longrightarrow> s \<in> set (sessions p) \<Longrightarrow> l \<in> set (leases p) \<Longrightarrow> occupies (d_id s) l \<Longrightarrow> permitted l
      \<Longrightarrow> d_solve_batch_sealed_at s \<noteq> Blank \<and> ls_solve_permit_generation l = d_solve_batch_generation s"
  and permits_unique: "permits_inv p \<Longrightarrow> l \<in> set (leases p) \<Longrightarrow> m \<in> set (leases p) \<Longrightarrow> occupies sid l \<Longrightarrow> occupies sid m
      \<Longrightarrow> permitted l \<Longrightarrow> permitted m \<Longrightarrow> ls_id l = ls_id m"
  unfolding permits_inv_def by blast+

lemma permits_keep:
  assumes rel: "pool_rel lease_keep p q" and inv: "permits_inv p"
  shows "permits_inv q"
proof -
  have old: "\<exists>l \<in> set (leases p). lease_keep l l'" if "l' \<in> set (leases q)" for l'
    using assms(1) that list_all2_set2 [of lease_keep "leases p" "leases q" l'] unfolding pool_rel_def by blast
  have prior: "\<exists>l \<in> set (leases p). ls_id l = ls_id l' \<and> occupies sid l \<and> permitted l
      \<and> ls_solve_permit_generation l = ls_solve_permit_generation l'"
    if "l' \<in> set (leases q)" "occupies sid l'" "permitted l'" for l' sid
    using old [OF that(1)] that(2,3) unfolding lease_keep_def lease_move_def permit_keep_def occupies_def permitted_def by metis
  have "\<not> permitted l'" if "l' \<in> set (leases q)" "ls_state l' = LQueued" for l'
    using old [OF that(1)] that(2) inv unfolding lease_keep_def permit_keep_def permits_inv_def permitted_def by metis
  moreover have "d_solve_batch_sealed_at s' \<noteq> Blank \<and> ls_solve_permit_generation l' = d_solve_batch_generation s'"
    if s': "s' \<in> set (sessions q)" and l': "l' \<in> set (leases q)" "occupies (d_id s') l'" "permitted l'" for s' l'
  proof -
    obtain s where s: "s \<in> set (sessions p)" "session_keep q s s'"
      using rel s' list_all2_set2 [of "session_keep q" "sessions p" "sessions q" s'] unfolding pool_rel_def by blast
    then have "occupants q (d_id s) \<noteq> []" using l' by (auto simp: occupants_Nil session_keep_def)
    then show ?thesis using prior [OF l'] s inv unfolding permits_inv_def session_keep_def by metis
  qed
  moreover have "ls_id l' = ls_id m'"
    if "l' \<in> set (leases q)" "m' \<in> set (leases q)" "occupies sid l'" "occupies sid m'" "permitted l'" "permitted m'" for l' m' sid
    using prior [OF that(1,3,5)] prior [OF that(2,4,6)] inv unfolding permits_inv_def by metis
  ultimately show ?thesis unfolding permits_inv_def by blast
qed

lemma permits_offer:
  assumes "permits_inv p"
  shows "permits_inv (update_leases (\<lambda>r. ls_id r = i \<and> ls_state r = LQueued \<and> D r) (offer_lease cfg now sid k) p)"
proof -
  let ?P = "\<lambda>r. ls_id r = i \<and> ls_state r = LQueued \<and> D r" and ?o = "offer_lease cfg now sid k"
  have o: "permitted (?o r) = permitted r" "ls_state (?o r) \<noteq> LQueued" "ls_id (?o r) = ls_id r" for r
    by (simp_all add: offer_lease_def permitted_def)
  have "\<exists>l \<in> set (leases p). l' = l \<or> (ls_state l = LQueued \<and> l' = ?o l)" if "l' \<in> set (sql_update ?P ?o (leases p))" for l'
    using that by (auto simp: sql_update_def)
  then have prior: "l' \<in> set (leases p) \<or> (\<not> permitted l' \<and> ls_state l' \<noteq> LQueued)" if "l' \<in> set (sql_update ?P ?o (leases p))" for l'
    using that permits_queued [OF assms] o by blast
  show ?thesis
  proof (rule permits_invI, unfold update_fields)
    show "ls_id l = ls_id m" if "l \<in> set (sql_update ?P ?o (leases p))" "m \<in> set (sql_update ?P ?o (leases p))"
      "occupies i l" "occupies i m" "permitted l" "permitted m" for l m i
      using prior that permits_unique [OF assms] by blast
  qed (use prior permits_queued [OF assms] permits_session [OF assms] in blast)+
qed

lemma permits_permit:
  fixes now :: int
  assumes "keys_inv p" and s: "s \<in> set (sessions p)" and none: "list_all (\<lambda>l. \<not> permitted l) (occupants p (d_id s))"
    and one: "length ids \<le> 1" and inv: "permits_inv p"
  defines "q \<equiv> update_leases (\<lambda>l. ls_session_id l = Some (d_id s) \<and> waiting_for_permit l \<and> ls_id l \<in> set ids)
          (permit_lease now (d_solve_batch_generation s + 1)) (update_sessions (\<lambda>r. d_id r = d_id s) (seal_session now) p)"
  shows "permits_inv q"
proof -
  let ?w = "permit_lease now (d_solve_batch_generation s + 1)"
  have w: "ls_id (?w l) = ls_id l" "ls_state (?w l) = ls_state l" "ls_session_id (?w l) = ls_session_id l" "occupies sid (?w l) = occupies sid l"
    "ls_solve_permit_generation (?w l) = d_solve_batch_generation s + 1" for l sid
    by (simp_all add: permit_lease_def occupies_def)
  have none': "\<not> permitted l" if "l \<in> set (leases p)" "occupies (d_id s) l" for l
    using none that by (simp add: occupants_def list_all_iff)
  have same: "r = s" if "r \<in> set (sessions p)" "d_id r = d_id s" for r
    using assms(1) s that unfolding keys_inv_def by (meson inj_onD distinct_map)
  have prior: "(\<exists>l \<in> set (leases p). l' = ?w l \<and> ls_session_id l = Some (d_id s) \<and> ls_state l = LActive \<and> ls_id l \<in> set ids)
      \<or> l' \<in> set (leases p)" if "l' \<in> set (leases q)" for l'
    using that by (auto simp: q_def sql_update_def waiting_for_permit_def)
  have on_s: "ls_id l' \<in> set ids \<and> ls_solve_permit_generation l' = d_solve_batch_generation s + 1"
    if "l' \<in> set (leases q)" "occupies (d_id s) l'" "permitted l'" for l'
    using prior [OF that(1)] that(2,3) none' w by auto
  have off_s: "l' \<in> set (leases p)" if "l' \<in> set (leases q)" "occupies sid l'" "sid \<noteq> d_id s" for l' sid
    using prior [OF that(1)] that(2,3) w by (auto simp: occupies_def)
  have single: "i = j" if "i \<in> set ids" "j \<in> set ids" for i j :: int
    using that one by (cases ids) auto
  have sess: "(r' \<in> set (sessions p) \<and> d_id r' \<noteq> d_id s) \<or> r' = seal_session now s" if "r' \<in> set (sessions q)" for r'
    using that same by (auto simp: q_def sql_update_def)
  have seal: "d_id (seal_session now s) = d_id s" "d_solve_batch_sealed_at (seal_session now s) \<noteq> Blank"
    "d_solve_batch_generation (seal_session now s) = d_solve_batch_generation s + 1"
    by (cases "d_solve_batch_sealed_at s"; simp add: seal_session_def bump_generation_def)+
  show ?thesis
  proof (rule permits_invI)
    show "\<not> permitted l'" if "l' \<in> set (leases q)" "ls_state l' = LQueued" for l'
      using prior [OF that(1)] that(2) permits_queued [OF inv] w(2) by force
    show "d_solve_batch_sealed_at r' \<noteq> Blank \<and> ls_solve_permit_generation l' = d_solve_batch_generation r'"
      if "r' \<in> set (sessions q)" "l' \<in> set (leases q)" "occupies (d_id r') l'" "permitted l'" for r' l'
      using sess [OF that(1)]
    proof
      assume "r' \<in> set (sessions p) \<and> d_id r' \<noteq> d_id s"
      then show ?thesis using off_s [OF that(2,3)] permits_session [OF inv _ _ that(3,4)] by simp
    next
      assume "r' = seal_session now s"
      then show ?thesis using seal on_s [OF that(2)] that(3,4) by simp
    qed
    show "ls_id l' = ls_id m'"
      if "l' \<in> set (leases q)" "m' \<in> set (leases q)" "occupies sid l'" "occupies sid m'" "permitted l'" "permitted m'" for l' m' sid
    proof (cases "sid = d_id s")
      case True
      then show ?thesis using on_s [OF that(1)] on_s [OF that(2)] that single by simp
    next
      case False
      then show ?thesis using off_s [OF that(1,3)] off_s [OF that(2,4)] permits_unique [OF inv _ _ that(3-6)] by simp
    qed
  qed
qed

lemma permits_insert_session:
  assumes "keys_inv p" and "slots_inv p" and "permits_inv p" and "d_id s = session_seq p + 1"
  shows "permits_inv (p\<lparr>sessions := sessions p @ [s], session_seq := n\<rparr>)"
proof -
  have "\<not> occupies (d_id s) l" if "l \<in> set (leases p)" for l
    using assms(1,2,4) that unfolding keys_inv_def slots_inv_def occupies_def list_all_iff by fastforce
  then show ?thesis using assms(3) unfolding permits_inv_def by auto
qed

theorem evolves_pool_inv:
  assumes "evolves lease_keep p q" and "pool_inv p"
  shows "pool_inv q"
  using assms
proof (induction rule: evolves.induct)
  case (keep p q)
  have "evolves lease_keep p q" using keep(1) by (rule evolves.keep)
  then have "keys_inv q" "slots_inv q"
    using keep.prems evolves_keys [of lease_keep p q] evolves_slots [of lease_keep p q] by (simp_all add: pool_inv_def lease_keep_def)
  then show ?case using keep permits_keep by (simp add: pool_inv_def)
next
  case (offer s p k i D cfg now)
  then show ?case using evolves_keys [OF evolves.offer] slots_offer permits_offer by (simp add: pool_inv_def lease_keep_def)
next
  case (permit s p ids now)
  have e: "evolves lease_keep p (update_leases (\<lambda>l. ls_session_id l = Some (d_id s) \<and> waiting_for_permit l \<and> ls_id l \<in> set ids)
      (permit_lease now (d_solve_batch_generation s + 1)) (update_sessions (\<lambda>r. d_id r = d_id s) (seal_session now) p))" (is "evolves _ p ?q")
    using permit(1-3) by (rule evolves.permit)
  have "keys_inv ?q" "slots_inv ?q" using evolves_keys [OF e] evolves_slots [OF e] permit.prems by (simp_all add: pool_inv_def lease_keep_def)
  then show ?case using permit permits_permit [of p s ids now] by (simp add: pool_inv_def)
next
  case (insert_lease l p)
  then show ?case using evolves_keys [OF evolves.insert_lease [OF insert_lease(1-4)]] slots_insert_lease
    by (auto simp: pool_inv_def lease_keep_def permits_inv_def permitted_def occupies_def slot_states_def)
next
  case (insert_session s p)
  then show ?case using evolves_keys [OF evolves.insert_session] evolves_slots [OF evolves.insert_session] permits_insert_session
    by (simp add: pool_inv_def lease_keep_def)
next
  case (insert_reservation x p)
  then show ?case using evolves_keys [OF evolves.insert_reservation] by (simp add: pool_inv_def slots_inv_def permits_inv_def lease_keep_def)
qed blast

end
