(* ===== verification/Aedt_Ops.thy ===== *)
theory Aedt_Ops
  imports Aedt_Step
begin

text \<open>
  Every operation of the AEDT pool is an evolution of its tables. The lemmas are stated in the locale
  of the row relations, so that they hold both for the invariant and for what a client can cause.
\<close>

section \<open>Placement\<close>

lemma free_slot_exists:
  assumes "length (occupants p (d_id s)) < d_slots_total s"
  shows "\<exists>k. free_slot p s = Some k \<and> k < d_slots_total s \<and> Some k \<notin> ls_slot_index ` set (occupants p (d_id s))"
proof (cases "free_slot p s")
  case None
  then have "Some ` {..<d_slots_total s} \<subseteq> ls_slot_index ` set (occupants p (d_id s))"
    by (auto simp: free_slot_def find_None_iff)
  then have "card (Some ` {..<d_slots_total s}) \<le> card (set (occupants p (d_id s)))"
    by (meson card_image_le card_mono finite_imageI finite_set le_trans)
  also have "\<dots> \<le> length (occupants p (d_id s))" by (rule card_length)
  finally show ?thesis using assms by (simp add: card_image)
next
  case (Some k)
  then show ?thesis by (auto simp: free_slot_def find_Some_iff)
qed

lemma find_in: "find P xs = Some x \<Longrightarrow> x \<in> set xs \<and> P x"
  by (auto simp: find_Some_iff)

lemma ex_bool [simp]: "Ex Not" "Ex (\<lambda>b::bool. b)"
  by (rule exI [of _ False], simp, rule exI [of _ True], simp)

lemma candidate_in: "find (session_accepts p l) (candidate_sessions cfg now p l) = Some s \<Longrightarrow> s \<in> set (sessions p) \<and> session_accepts p l s"
  by (drule find_in) (simp add: candidate_sessions_def)

lemma accepts_room: "session_accepts p l s \<Longrightarrow> length (occupants p (d_id s)) < d_slots_total s"
  by (auto simp: session_accepts_def lease_fits_session_def Let_def split: if_splits)

lemma filter_unique_key:
  assumes "distinct (map key xs)" and "x \<in> set xs" and "P x" and "\<And>y. P y \<Longrightarrow> key y = key x"
  shows "length (filter P xs) = 1"
proof -
  have "set (filter P xs) = {x}" using assms by (auto simp: distinct_map inj_on_def)
  moreover have "distinct (filter P xs)" using assms(1) by (simp add: distinct_map)
  ultimately show ?thesis using distinct_card by fastforce
qed

lemma accepts_reservation:
  assumes "keys_inv p" and "session_accepts p l s" and "reservations q = reservations p"
  shows "\<exists>r. consume_reservation now l q = Inr r \<and> leases r = leases q \<and> sessions r = sessions q \<and> map x_id (reservations r) = map x_id (reservations q)
    \<and> lease_seq r = lease_seq q \<and> session_seq r = session_seq q \<and> reservation_seq r = reservation_seq q"
proof (cases "ls_exact_session_reservation_id l = 0")
  case False
  then obtain x where x: "find_reservation p (ls_exact_session_reservation_id l) = Some x" "x_state x = RClaimed" "x_lease_id x = Some (ls_id l)"
    using assms(2) by (auto simp: session_accepts_def Let_def split: option.splits)
  then have "x \<in> set (reservations q)" "x_id x = ls_exact_session_reservation_id l"
    using assms(3) by (auto simp: find_reservation_def tbl_get_def find_Some_iff)
  then have "length (filter (\<lambda>x. x_id x = ls_exact_session_reservation_id l \<and> x_state x = RClaimed \<and> x_lease_id x = Some (ls_id l))
      (reservations q)) = 1"
    using assms(1,3) x(2,3) by (intro filter_unique_key [of x_id _ x]) (simp_all add: keys_inv_def)
  then show ?thesis using False by (simp add: consume_reservation_def Let_def map_sql_update update_reservations_def)
qed (simp add: consume_reservation_def)

context lease_relation
begin

lemma evolves_refl [simp]: "evolves R p p"
  by (rule evolves.keep) simp

lemma place_on_session_ok:
  assumes "keys_inv p" and "s \<in> set (sessions p)" and "session_accepts p l s"
  shows "\<exists>q b. place_on_session cfg now l s p = Inr (q, b) \<and> evolves R p q"
proof -
  obtain k where k: "free_slot p s = Some k" "k < d_slots_total s" "Some k \<notin> ls_slot_index ` set (occupants p (d_id s))"
    using free_slot_exists [OF accepts_room [OF assms(3)]] by blast
  define P :: "lease \<Rightarrow> bool" where "P = (\<lambda>r. ls_id r = ls_id l \<and> ls_state r = LQueued \<and> stamp_after (ls_client_deadline_at r) now)"
  define p1 where "p1 = update_leases P (offer_lease cfg now (d_id s) k) p"
  have e: "evolves R p p1" unfolding p1_def P_def by (rule evolves.offer [OF assms(2) k(2,3)])
  obtain p2 where p2: "consume_reservation now l p1 = Inr p2" "leases p2 = leases p1" "sessions p2 = sessions p1"
    "map x_id (reservations p2) = map x_id (reservations p1)" "lease_seq p2 = lease_seq p1" "session_seq p2 = session_seq p1" "reservation_seq p2 = reservation_seq p1"
    using accepts_reservation [OF assms(1,3), of p1] by (auto simp: p1_def)
  have "pool_rel R p1 p2" using p2 by (simp add: pool_rel_def list_all2_refl R_refl session_keep_def)
  moreover define p3 where "p3 = (if ls_session_profile l \<noteq> [] \<and> d_session_profile s = []
      then update_sessions (\<lambda>r. d_id r = d_id s \<and> d_session_profile r = [])
             (\<lambda>r. r\<lparr>d_session_profile := ls_session_profile l, d_updated_at := At now\<rparr>) p2 else p2)"
  have "pool_rel R p2 p3" unfolding p3_def by (auto intro: rel_sessions)
  ultimately have "pool_rel R p1 (refresh_session_state now (d_id s) p3)"
    using rel_trans rel_refresh_session by blast
  then have "evolves R p (refresh_session_state now (d_id s) p3)" using evolves.chain [OF e evolves.keep] by blast
  then show ?thesis
    unfolding place_on_session_def k(1) option.case Let_def P_def [symmetric] p1_def [symmetric] p2(1) sum.case p3_def [symmetric]
    by (cases "list_ex P (leases p)") simp_all
qed

lemma place_lease_ok:
  assumes "keys_inv p"
  shows "\<exists>q b. place_lease cfg now l p = Inr (q, b) \<and> evolves R p q"
proof (cases "find (session_accepts p l) (candidate_sessions cfg now p l)")
  case (Some s)
  then obtain q b where "place_on_session cfg now l s p = Inr (q, b)" "evolves R p q"
    using place_on_session_ok assms candidate_in by blast
  then show ?thesis by (simp add: place_lease_def Some)
qed (simp add: place_lease_def)

lemma place_all_ok:
  assumes "keys_inv p"
  shows "\<exists>q m. place_all cfg now ls n p = Inr (q, m) \<and> evolves R p q"
  using assms
proof (induction ls arbitrary: n p)
  case (Cons l ls)
  obtain q b where q: "place_lease cfg now l p = Inr (q, b)" "evolves R p q" using place_lease_ok [OF Cons.prems] by blast
  then have "keys_inv q" using evolves_keys Cons.prems R_move by blast
  then obtain r m where "place_all cfg now ls (if b then Suc n else n) q = Inr (r, m)" "evolves R q r" using Cons.IH by blast
  then show ?case using q evolves.chain by auto
qed simp

lemma keys_ids: "keys_inv p \<Longrightarrow> ids_ok p"
  by (simp add: keys_inv_def)

lemma place_queued_ok:
  assumes "keys_inv p"
  shows "\<exists>q n. place_queued_leases cfg now ids refresh p = Inr (q, n) \<and> evolves R p q"
proof (cases "operational cfg")
  case True
  define p1 where "p1 = refresh_mixed_canary_admissions now p"
  define p2 where "p2 = (if refresh then refresh_exact_session_reservations now p1 else p1)"
  define p3 where "p3 = (if ids = [] then p2\<lparr>placement_cursor := (if queued_leases cfg now ids p2 = [] then 0
      else ls_id (last (queued_leases cfg now ids p2)))\<rparr> else p2)"
  have ok: "ids_ok p" using assms by (rule keys_ids)
  have p1: "pool_rel R p p1" unfolding p1_def by (rule rel_refresh_canaries [OF ok])
  have "pool_rel R p1 p2" unfolding p2_def using rel_refresh_exact rel_ids [OF p1 ok] by simp
  moreover have "pool_rel R p2 p3" unfolding p3_def by (simp add: rel_other)
  ultimately have "pool_rel R p p3" using p1 rel_trans by blast
  then have e: "evolves R p p3" by (rule evolves.keep)
  then have "keys_inv p3" using evolves_keys assms R_move by blast
  then obtain q n where "place_all cfg now (queued_leases cfg now ids p2) 0 p3 = Inr (q, n)" "evolves R p3 q" using place_all_ok by blast
  moreover have "place_queued_leases cfg now ids refresh p = place_all cfg now (queued_leases cfg now ids p2) 0 p3"
    using True by (simp only: place_queued_leases_def Let_def p1_def p2_def p3_def not_True_eq_False if_False)
  ultimately show ?thesis using evolves.chain [OF e] by auto
qed (simp add: place_queued_leases_def)

lemma placed_ok: "keys_inv p \<Longrightarrow> placed (place_queued_leases cfg now ids refresh p) = Inr q \<Longrightarrow> evolves R p q"
  using place_queued_ok [of p cfg now ids refresh] by (auto simp: placed_def)

lemma keep_then_placed:
  assumes "keys_inv p" and "pool_rel R p q" and "placed (place_queued_leases cfg now ids refresh q) = Inr r"
  shows "evolves R p r"
proof -
  have e: "evolves R p q" using assms(2) by (rule evolves.keep)
  then have "keys_inv q" using evolves_keys assms(1) R_move by blast
  then show ?thesis using evolves.chain [OF e placed_ok] assms(3) by blast
qed

end

section \<open>Solve permits\<close>

lemma select_wave_single: "length (select_wave [] waiting) \<le> 1"
  by (cases waiting) (simp_all add: select_wave_def Let_def)

lemma get_session_in: "get_session p sid = Some s \<Longrightarrow> s \<in> set (sessions p) \<and> d_id s = sid"
  by (auto simp: get_session_def tbl_get_def find_Some_iff)

lemma session_unique:
  "keys_inv p \<Longrightarrow> s \<in> set (sessions p) \<Longrightarrow> r \<in> set (sessions p) \<Longrightarrow> d_id r = d_id s \<Longrightarrow> r = s"
  unfolding keys_inv_def by (meson inj_onD distinct_map)

lemma get_session_update:
  assumes "\<And>s. d_id (f s) = d_id s"
  shows "get_session (update_sessions (\<lambda>r. d_id r = sid) f p) sid = map_option f (get_session p sid)"
proof -
  have "find (\<lambda>r. d_id r = sid) (sql_update (\<lambda>r. d_id r = sid) f xs) = map_option f (find (\<lambda>r. d_id r = sid) xs)" for xs
    by (induction xs) (auto simp: sql_update_def assms)
  then show ?thesis by (simp add: get_session_def tbl_get_def)
qed

lemma update_sessions_cong:
  "(\<And>r. r \<in> set (sessions p) \<Longrightarrow> P r = Q r \<and> (Q r \<longrightarrow> f r = g r)) \<Longrightarrow> update_sessions P f p = update_sessions Q g p"
  by (auto simp: update_sessions_def sql_update_def intro!: map_cong)

lemma seal_fields [simp]: "d_id (seal_session now s) = d_id s"
  "d_solve_batch_generation (seal_session now s) = d_solve_batch_generation s + 1"
  by (simp_all add: seal_session_def bump_generation_def)

text \<open>Nobody on an unsealed session has a permit; nobody on a sealed one whose wave is over has one either.\<close>

lemma unsealed_unpermitted:
  assumes "permits_inv p" and "s \<in> set (sessions p)" and "d_solve_batch_sealed_at s = Blank"
  shows "list_all (\<lambda>l. \<not> permitted l) (occupants p (d_id s))"
  using permits_session [OF assms(1,2)] assms(3) by (auto simp: occupants_def list_all_iff)

lemma wave_over_unpermitted:
  assumes "permits_inv p" and "s \<in> set (sessions p)"
    and "\<not> list_ex (\<lambda>l. ls_state l \<in> lease_live_states) (granted_wave p (d_id s) (d_solve_batch_generation s))"
  shows "list_all (\<lambda>l. \<not> permitted l) (occupants p (d_id s))"
  using permits_session [OF assms(1,2)] assms(3)
  by (auto simp: occupants_def list_all_iff list_ex_iff granted_wave_def lease_live_states_def occupies_def)

context lease_relation
begin

lemma evolves_wave:
  assumes "keys_inv p" and "get_session p sid = Some s" and "list_all (\<lambda>l. \<not> permitted l) (occupants p sid)"
  shows "evolves R p (fst (grant_wave now [] sid occ (update_sessions (\<lambda>r. d_id r = sid) (seal_session now) p)))"
proof -
  let ?q = "update_sessions (\<lambda>r. d_id r = sid) (seal_session now) p" and ?w = "filter waiting_for_permit occ"
  have s: "s \<in> set (sessions p)" "d_id s = sid" using get_session_in [OF assms(2)] by auto
  have wave: "evolves R p (update_leases (\<lambda>l. ls_session_id l = Some sid \<and> waiting_for_permit l \<and> ls_id l \<in> set ids)
      (permit_lease now (d_solve_batch_generation s + 1)) ?q)" if "length ids \<le> 1" for ids
    using evolves.permit [of s p ids R now] s assms(3) that by simp
  have "update_leases (\<lambda>_. False) f r = r" for f r by (simp add: update_leases_def sql_update_def)
  then have "evolves R p ?q" using wave [of "[]"] by simp
  moreover have "evolves R p (update_leases (\<lambda>l. ls_session_id l = Some sid \<and> waiting_for_permit l \<and> ls_id l \<in> set (map ls_id (select_wave [] ?w)))
      (permit_lease now (d_solve_batch_generation s + 1)) ?q)"
    using select_wave_single by (intro wave) simp
  ultimately show ?thesis by (simp add: grant_wave_def Let_def get_session_update assms(2))
qed

lemma rel_refuse: "pool_rel R p (refuse_continuation now sid p)"
  unfolding refuse_continuation_def
proof (rule rel_trans [OF rel_sessions])
  show "pool_rel R q (update_leases (\<lambda>l. ls_session_id l = Some sid \<and> waiting_for_permit l) (releasing_lease now wave_failure) q)" for q
    by (rule rel_leases, rule R_settle) (auto simp: lease_write waiting_for_permit_def)
qed simp

lemma evolves_grant_core:
  assumes inv: "pool_inv q" and q: "q = refresh_exact_session_reservations now (refresh_mixed_canary_admissions now p)"
    and e: "evolves R p q"
  shows "evolves R p (fst (grant_solve_batch_if_ready now [] sid allow p))"
proof (cases "0 < sid \<and> (\<exists>s. get_session q sid = Some s \<and> d_state s \<in> {SReady, SBusy})")
  case False
  then show ?thesis using e by (auto simp: grant_solve_batch_if_ready_def q [symmetric] Let_def split: option.splits)
next
  case True
  then obtain s where s: "get_session q sid = Some s" "d_state s \<in> {SReady, SBusy}" and pos: "0 < sid" by blast
  have ins: "s \<in> set (sessions q)" "d_id s = sid" using get_session_in [OF s(1)] by auto
  have keys: "keys_inv q" and permits: "permits_inv q" using inv by (simp_all add: pool_inv_def)
  let ?occ = "sort_key ls_id (occupants q sid)"
  have wave: "evolves R p (fst (grant_wave now [] sid ?occ (update_sessions P f q)))"
    if "list_all (\<lambda>l. \<not> permitted l) (occupants q sid)" "\<And>r. r = s \<Longrightarrow> P r \<and> f r = seal_session now r" "\<And>r. P r \<Longrightarrow> d_id r = sid" for P f
  proof -
    have "update_sessions P f q = update_sessions (\<lambda>r. d_id r = sid) (seal_session now) q"
    proof (rule update_sessions_cong)
      fix r assume r: "r \<in> set (sessions q)"
      show "P r = (d_id r = sid) \<and> (d_id r = sid \<longrightarrow> f r = seal_session now r)"
      proof (cases "d_id r = sid")
        case True
        then have "r = s" using session_unique [OF keys ins(1) r] ins(2) by simp
        then show ?thesis using that(2) ins(2) by simp
      qed (use that(3) in blast)
    qed
    then show ?thesis using evolves.chain [OF e evolves_wave [OF keys s(1) that(1)]] by simp
  qed
  show ?thesis
  proof (cases "d_solve_batch_sealed_at s = Blank")
    case True
    have "evolves R p (fst (grant_wave now [] sid ?occ (update_sessions (\<lambda>r. d_id r = sid \<and> d_solve_batch_sealed_at r = Blank)
        (\<lambda>r. (bump_generation now r)\<lparr>d_solve_batch_sealed_at := At now\<rparr>) q)))"
      using unsealed_unpermitted [OF permits ins(1) True] ins True by (intro wave) (auto simp: seal_session_def)
    then show ?thesis using s pos e True by (auto simp: grant_solve_batch_if_ready_def q [symmetric] Let_def)
  next
    case False
    have "seal_session now s = bump_generation now s"
      using False by (cases "d_solve_batch_sealed_at s") (simp_all add: seal_session_def bump_generation_def)
    then have "evolves R p (fst (grant_wave now [] sid ?occ (update_sessions (\<lambda>r. d_id r = sid) (bump_generation now) q)))"
      if "\<not> list_ex (\<lambda>l. ls_state l \<in> lease_live_states) (granted_wave q sid (d_solve_batch_generation s))"
      using wave_over_unpermitted [OF permits ins(1)] that ins by (intro wave) auto
    moreover have "evolves R p (refuse_continuation now sid q)" using evolves.chain [OF e evolves.keep [OF rel_refuse]] .
    ultimately show ?thesis using s pos e False by (auto simp: grant_solve_batch_if_ready_def q [symmetric] Let_def)
  qed
qed

end

end
