(* ===== verification/Aedt_Calls.thy ===== *)
theory Aedt_Calls
  imports Aedt_Ops
begin

text \<open>
  The endpoints as evolutions: the writes of each endpoint follow the row relation, apart from the
  placement, permits and insertions they may trigger.
\<close>

section \<open>Calls of a client\<close>

lemma update_one_Inr: "update_one P f m p = Inr q \<longleftrightarrow> list_ex P (leases p) \<and> q = update_leases P f p"
  by (auto simp: update_one_def)

lemma authorize_Inr: "authorize_lease p lid h = Inr l \<Longrightarrow> l \<in> set (leases p) \<and> ls_id l = lid \<and> ls_client_token_hash l = h"
  by (auto simp: authorize_lease_def find_lease_def tbl_get_def find_Some_iff split: option.splits if_splits)

context lease_relation
begin

lemma evolves_commit: "(\<And>q. r = Inr q \<Longrightarrow> evolves R p q) \<Longrightarrow> evolves R p (fst (commit p r))"
  by (cases r) (simp_all add: commit_def)

lemma evolves_with_lease:
  "(\<And>l. l \<in> set (leases p) \<Longrightarrow> ls_id l = lid \<Longrightarrow> evolves R p (fst (f l))) \<Longrightarrow> evolves R p (fst (with_lease lid h f p))"
  unfolding with_lease_def using authorize_Inr [of p lid h] by (cases "authorize_lease p lid h") auto

lemma evolves_heartbeat_transaction:
  assumes "keys_inv p"
  shows "evolves R p (fst (heartbeat_transaction cfg now lid h phase p))"
  unfolding heartbeat_transaction_def
proof (rule evolves_with_lease)
  fix l assume "l \<in> set (leases p)" "ls_id l = lid"
  let ?q = "update_leases (\<lambda>r. ls_id r = lid \<and> ls_state r = ls_state l \<and> ls_client_token_hash r = h) (heartbeat_write cfg now phase) p"
  have "pool_rel R p ?q" if "ls_state l \<in> lease_live_states"
    by (rule rel_leases, rule R_settle) (use that in \<open>auto simp: lease_write\<close>)
  then have "evolves R p r" if "ls_state l \<in> lease_live_states"
    "(case update_one (\<lambda>r. ls_id r = lid \<and> ls_state r = ls_state l \<and> ls_client_token_hash r = h) (heartbeat_write cfg now phase) m p of
        Inl e \<Rightarrow> Inl e | Inr q \<Rightarrow> if ls_state l = LQueued \<and> operational cfg then placed (place_queued_leases cfg now [lid] True q) else Inr q) = Inr r"
    for r m
    using that keep_then_placed [OF assms, of ?q cfg now "[lid]" True r] evolves.keep [of R p ?q] by (auto simp: update_one_def split: if_splits)
  then show "evolves R p (fst (if ls_state l \<notin> lease_live_states then (p, Some (lease_is l))
       else commit p (case update_one (\<lambda>r. ls_id r = lid \<and> ls_state r = ls_state l \<and> ls_client_token_hash r = h)
                 (heartbeat_write cfg now phase) ''lease state changed while heartbeating'' p of
            Inl e \<Rightarrow> Inl e
          | Inr q \<Rightarrow> if ls_state l = LQueued \<and> operational cfg then placed (place_queued_leases cfg now [lid] True q) else Inr q)))"
    using evolves_commit by simp
qed

lemma evolves_heartbeat_lease: "keys_inv p \<Longrightarrow> evolves R p (fst (heartbeat_lease cfg now seen lid h phase p))"
  using evolves_heartbeat_transaction [of p] by (simp add: heartbeat_lease_def Let_def split: sum.split option.split)

lemma rel_fail_offer:
  assumes "ids_ok p" and "ls_exact_session_reservation_id l \<noteq> 0"
  shows "pool_rel R p (fail_offer now l p)"
proof -
  have a: "pool_rel R p (case find_reservation p i of None \<Rightarrow> p | Some x \<Rightarrow> fail_exact_session_reservation_cohort now (x_reservation_key x) m False p)" for i m
    using rel_fail_cohort [OF assms(1)] by (simp split: option.split)
  have b: "pool_rel R q (update_leases (\<lambda>r. ls_id r = ls_id l \<and> ls_state r = LOffered) (finished_lease now LFailed m) q)" for q m
    by (rule rel_leases, rule R_settle) (auto simp: lease_write)
  show ?thesis unfolding fail_offer_def Let_def by (intro rel_trans [OF _ rel_refresh_of] rel_trans [OF _ b] a)
qed

lemma rel_revoke_offer:
  assumes "revoke_offer cfg now l p = Inr q"
  shows "pool_rel R p q"
proof -
  have a: "pool_rel R p (update_leases (\<lambda>r. ls_id r = ls_id l \<and> ls_state r = LOffered) (revoked_lease cfg now) p)"
    by (rule rel_leases, rule R_settle) (auto simp: lease_write)
  have b: "pool_rel R r (update_reservations P (unconsume now) r)" for P r by (rule rel_reservations) (simp add: unconsume_def)
  show ?thesis using assms rel_trans [OF a rel_refresh_of [of _ now l]] rel_trans [OF rel_trans [OF a b] rel_refresh_of [of _ now l]]
    by (auto simp: revoke_offer_def update_one_def Let_def split: if_splits)
qed

lemma evolves_accept_lease:
  assumes "ids_ok p"
  shows "evolves R p (fst (accept_lease cfg now lid h p))"
proof -
  have acc: "evolves R p (update_leases (\<lambda>r. ls_id r = lid \<and> ls_state r = LOffered \<and> stamp_after (ls_offer_expires_at r) now) (accepted_lease cfg now) p)"
    by (rule evolves.keep, rule rel_leases, rule R_settle) (auto simp: lease_write)
  have rev: "evolves R p q" if "revoke_offer cfg now l p = Inr q" for l q using rel_revoke_offer [OF that] by (rule evolves.keep)
  have fail: "evolves R p (fail_offer now l p)" if "ls_exact_session_reservation_id l \<noteq> 0" for l
    using rel_fail_offer [OF assms that] by (rule evolves.keep)
  show ?thesis unfolding accept_lease_def
  proof (rule evolves_with_lease, goal_cases)
    case (1 l)
    have "evolves R p (fst (commit p (revoke_offer cfg now l p)))" by (rule evolves_commit) (rule rev)
    moreover have "evolves R p (fst (commit p (update_one (\<lambda>r. ls_id r = lid \<and> ls_state r = LOffered \<and> stamp_after (ls_offer_expires_at r) now)
        (accepted_lease cfg now) m p)))" for m
      by (rule evolves_commit) (simp add: update_one_Inr acc)
    ultimately show ?case using fail by simp
  qed
qed

lemma evolves_complete_pipeline: "evolves R p (fst (complete_native_pipeline cfg now lid h generation p))"
proof -
  have "evolves R p (update_leases (\<lambda>r. ls_id r = lid \<and> ls_state r = LActive \<and> ls_client_token_hash r = h
      \<and> ls_session_id r = Some sid \<and> ls_solve_permit_generation r = g) (completed_pipeline cfg now sid g) p)" for sid g
    by (rule evolves.keep, rule rel_leases, rule R_settle) (auto simp: lease_write)
  then have "evolves R p (fst (commit p (update_one (\<lambda>r. ls_id r = lid \<and> ls_state r = LActive \<and> ls_client_token_hash r = h
      \<and> ls_session_id r = Some sid \<and> ls_solve_permit_generation r = g) (completed_pipeline cfg now sid g) m p)))" for sid g m
    by (intro evolves_commit) (simp add: update_one_Inr)
  then have "evolves R p (fst (with_lease lid h (\<lambda>l.
        let sid = or_zero (ls_session_id l); authorized = ls_solve_permit_generation l in
        if ls_state l \<noteq> LActive then (p, e1 l)
        else if \<not> permitted l \<or> sid \<le> 0 \<or> authorized \<le> 0 then (p, e2)
        else if generation \<noteq> authorized then (p, e3 authorized)
        else if granted_wave p sid authorized = [] then (p, e4)
        else commit p (update_one (\<lambda>r. ls_id r = lid \<and> ls_state r = LActive \<and> ls_client_token_hash r = h
             \<and> ls_session_id r = Some sid \<and> ls_solve_permit_generation r = authorized) (completed_pipeline cfg now sid authorized) m p)) p))" for e1 e2 e3 e4 m
    by (intro evolves_with_lease) (simp add: Let_def)
  then show ?thesis unfolding complete_native_pipeline_def by simp
qed

lemma evolves_bind_name: "evolves R p (fst (bind_lease_project_name now lid h name p))"
proof -
  have "evolves R p (update_leases P (\<lambda>r. r\<lparr>ls_project_name := n, ls_updated_at := At now\<rparr>) p)" for P n
    by (rule evolves.keep, rule rel_leases, rule R_settle) (auto simp: lease_write)
  then have "evolves R p (fst (commit p (update_one P (\<lambda>r. r\<lparr>ls_project_name := n, ls_updated_at := At now\<rparr>) m p)))" for P n m
    by (intro evolves_commit) (simp add: update_one_Inr)
  then show ?thesis unfolding bind_lease_project_name_def Let_def by (auto intro!: evolves_with_lease)
qed

text \<open>A cancel lets go of a project only when the client never owned it.\<close>

lemma rel_cancel:
  assumes "cancel_lease now lid h reason p = (q, e)" and "\<And>l m. l \<in> set (leases p) \<Longrightarrow> m \<in> set (leases p) \<Longrightarrow> ls_id l = ls_id m \<Longrightarrow> l = m"
  shows "pool_rel R p q"
proof (cases "authorize_lease p lid h")
  case (Inr l)
  have l: "l \<in> set (leases p)" "ls_id l = lid" using authorize_Inr [OF Inr] by auto
  let ?P = "\<lambda>r. ls_id r = lid \<and> ls_state r = ls_state l \<and> ls_client_token_hash r = h"
  have a: "pool_rel R p (update_leases ?P (cancelling_lease now m) p)" if "owns_project l" "or_zero (ls_session_id l) \<noteq> 0" for m
    using that l assms(2) by (intro rel_leases R_settle) (auto simp: lease_write owns_project_def)
  have b: "pool_rel R p (update_leases ?P (vacated_lease now LCancelled m) p)"
    if "ls_state l \<notin> lease_terminal_states" "\<not> (owns_project l \<and> or_zero (ls_session_id l) \<noteq> 0)" for m
  proof (intro rel_leases R_settle)
    fix r assume r: "r \<in> set (leases p)" "?P r"
    then have "r = l" using l assms(2) by blast
    then show "lease_keep r (vacated_lease now LCancelled m r)" "owner_keep r (vacated_lease now LCancelled m r)"
      using that by (auto simp: lease_write owns_project_def)
  qed
  show ?thesis
    using assms(1) rel_trans [OF a rel_block_reuse] rel_trans [OF b rel_refresh_of] Inr
    by (auto simp: cancel_lease_def with_lease_def Let_def commit_def update_one_def split: if_splits)
qed (use assms(1) in \<open>simp add: cancel_lease_def with_lease_def\<close>)

lemma keys_unique: "keys_inv p \<Longrightarrow> l \<in> set (leases p) \<Longrightarrow> m \<in> set (leases p) \<Longrightarrow> ls_id l = ls_id m \<Longrightarrow> l = m"
  unfolding keys_inv_def by (meson inj_onD distinct_map)

lemma rel_cancel_lease: "keys_inv p \<Longrightarrow> pool_rel R p (fst (cancel_lease now lid h reason p))"
  using rel_cancel [of now lid h reason p] keys_unique by (metis prod.collapse)

lemma rel_drain_allocation: "pool_rel R p (drain_allocation now reason aid p)"
  unfolding drain_allocation_def by (rule rel_other) simp_all

lemma rel_suspect: "pool_rel R p (suspect_transport now m sid p)" "pool_rel R p (suspect_death now m sid p)"
  unfolding suspect_transport_def suspect_death_def by (rule rel_sessions, simp)+

lemma rel_quarantine_solver: "pool_rel R p (quarantine_solver now grace m lid sid aid p)"
proof -
  have a: "pool_rel R p (update_leases (\<lambda>l. ls_id l = lid \<and> ls_state l \<in> {LLeased, LAttaching, LActive}) (cancelling_lease now t) p)" for t
    by (rule rel_leases, rule R_settle) (auto simp: lease_write)
  show ?thesis unfolding quarantine_solver_def Let_def
    by (intro rel_trans [OF _ rel_drain_allocation] rel_trans [OF a rel_sessions]) simp
qed

lemma rel_note: "pool_rel R p (update_leases (\<lambda>r. ls_id r = lid) (note_fault now phase kind m) p)"
  by (rule rel_leases, rule R_settle) (auto simp: lease_write)

lemma rel_keys: "pool_rel R p q \<Longrightarrow> keys_inv p \<Longrightarrow> keys_inv q"
  using evolves_keys evolves.keep R_move by blast

lemma rel_report_project_fault:
  assumes "keys_inv p"
  shows "pool_rel R p (fst (report_project_fault now seen lid h kind phase grace message p))"
proof (cases "authorize_lease seen lid h")
  case (Inr l)
  define p1 where "p1 = update_leases (\<lambda>r. ls_id r = lid) (note_fault now (lower (strip phase)) (lower (strip kind)) (strip message)) p"
  have p1: "pool_rel R p p1" unfolding p1_def by (rule rel_note)
  have cancel: "pool_rel R p (fst (cancel_lease now lid h t q))" if "pool_rel R p q" for t q
    using rel_trans [OF that rel_cancel_lease] rel_keys [OF that assms] by blast
  have suspect: "pool_rel R p (suspect_transport now t sid p1)" for t sid using rel_trans [OF p1 rel_suspect(1)] .
  have death: "pool_rel R p (drain_allocation now t aid (suspect_death now u sid p1))" for t u aid sid
    using rel_trans [OF rel_trans [OF p1 rel_suspect(2)] rel_drain_allocation] .
  have solver: "pool_rel R p (quarantine_solver now grace t lid sid aid p1)" for t sid aid
    using rel_trans [OF p1 rel_quarantine_solver] .
  show ?thesis unfolding report_project_fault_def Inr sum.case Let_def p1_def [symmetric]
    by (auto simp: cancel [OF p1] cancel [OF suspect] death solver p1 split: option.split)
qed (simp add: report_project_fault_def)

end

section \<open>The two relations\<close>

interpretation keeps: lease_relation lease_keep
  by unfold_locales (rule lease_keep_trans, assumption+, simp_all add: lease_keep_def)

interpretation client: lease_relation client_keep
  by unfold_locales (unfold client_keep_def lease_keep_def, blast intro: lease_move_trans owner_keep_trans, blast+)

lemma refreshed_inv:
  assumes "pool_inv p"
  shows "pool_inv (refresh_exact_session_reservations now (refresh_mixed_canary_admissions now p))"
proof -
  have "ids_ok p" using assms by (simp add: pool_inv_def keys_inv_def)
  then have "pool_rel lease_keep p (refresh_exact_session_reservations now (refresh_mixed_canary_admissions now p))"
    using keeps.rel_then [OF keeps.rel_refresh_canaries keeps.rel_refresh_exact] by blast
  then show ?thesis using evolves_pool_inv [OF evolves.keep] assms by blast
qed

context lease_relation
begin

lemma evolves_grant:
  assumes "pool_inv p"
  shows "evolves R p (fst (grant_solve_batch_if_ready now [] sid allow p))"
proof (rule evolves_grant_core [OF refreshed_inv [OF assms] refl])
  have "ids_ok p" using assms by (simp add: pool_inv_def keys_inv_def)
  then show "evolves R p (refresh_exact_session_reservations now (refresh_mixed_canary_admissions now p))"
    using rel_then [OF rel_refresh_canaries rel_refresh_exact] by (blast intro: evolves.keep)
qed

lemma write_then_grant:
  assumes "pool_inv p" and "\<And>l. l \<in> set (leases p) \<Longrightarrow> P l \<Longrightarrow> lease_keep l (f l) \<and> owner_keep l (f l)"
  shows "evolves R p (fst (grant_solve_batch_if_ready now [] sid allow (update_leases P f p)))"
proof -
  have "pool_rel lease_keep p (update_leases P f p)" using assms(2) by (intro keeps.rel_leases) blast
  then have "pool_inv (update_leases P f p)" using evolves_pool_inv [OF evolves.keep] assms(1) by blast
  moreover have "pool_rel R p (update_leases P f p)" using assms(2) by (intro rel_leases R_settle) blast+
  ultimately show ?thesis using evolves.chain [OF evolves.keep evolves_grant] by blast
qed

lemma evolves_activate_lease:
  assumes "pool_inv p"
  shows "evolves R p (fst (activate_lease cfg now [] seen lid h p))"
proof (cases "authorize_lease seen lid h")
  case (Inr l)
  let ?P = "\<lambda>r. ls_id r = lid \<and> ls_state r = ls_state l"
  have "evolves R p (fst (grant_solve_batch_if_ready now [] sid False (update_leases ?P (activated_lease cfg now) p)))"
    if "ls_state l \<in> {LLeased, LAttaching}" for sid
    by (rule write_then_grant [OF assms]) (use that in \<open>auto simp: lease_write\<close>)
  then have "evolves R p (fst (commit p (case update_one ?P (activated_lease cfg now) m p of Inl e \<Rightarrow> Inl e
      | Inr q \<Rightarrow> Inr (fst (grant_solve_batch_if_ready now [] sid False q)))))"
    if "ls_state l \<in> {LLeased, LAttaching}" for sid m
    using that by (intro evolves_commit) (auto simp: update_one_def split: if_splits)
  then show ?thesis using Inr by (cases "ls_protocol_version l < 2"; cases "ls_state l") (auto simp: activate_lease_def)
qed (simp add: activate_lease_def)

lemma evolves_request_permit:
  assumes "pool_inv p"
  shows "evolves R p (fst (request_solve_permit cfg now [] lid h seal p))"
proof -
  have "evolves R p (fst (grant_solve_batch_if_ready now [] sid seal
      (update_leases (\<lambda>r. ls_id r = lid \<and> ls_state r = LActive \<and> ls_client_token_hash r = h) (permit_heartbeat cfg now) p)))" for sid
    by (rule write_then_grant [OF assms]) (auto simp: lease_write)
  then show ?thesis unfolding request_solve_permit_def by (intro evolves_with_lease) simp
qed

end

section \<open>Requests\<close>

context lease_relation
begin

lemma rel_claims:
  "claim_reservation now i exact p = Inr q \<Longrightarrow> pool_rel R p q"
  "claim_canary_slot now i canary q = Inr r \<Longrightarrow> pool_rel R q r"
  by (auto simp: claim_reservation_def claim_canary_slot_def Let_def split: option.splits if_splits
      intro!: rel_reservations rel_other)

lemma evolves_insert_lease:
  assumes "insert_lease cfg now r grp profile deadline affinity exact canary p = Inr (q, i)"
  shows "evolves R p q"
proof -
  let ?l = "new_lease cfg now r (lease_seq p + 1) grp profile deadline affinity exact (map_option snd canary)"
  let ?p = "p\<lparr>leases := leases p @ [?l], lease_seq := lease_seq p + 1\<rparr>"
  obtain a b where "claim_reservation now (lease_seq p + 1) exact ?p = Inr a" "claim_canary_slot now (lease_seq p + 1) canary a = Inr b" "q = b"
    using assms by (auto simp: insert_lease_def Let_def split: if_splits sum.splits)
  then have "pool_rel R ?p q" using rel_claims rel_trans by blast
  moreover have "evolves R p ?p" by (rule evolves.insert_lease) (simp_all add: new_lease_def)
  ultimately show ?thesis using evolves.chain evolves.keep by blast
qed

lemma rel_supersede:
  assumes "keys_inv p" and "l \<in> set (leases p)" and "replaceable now p l"
  shows "pool_rel R p (supersede now l p)"
proof (cases "ls_state l \<in> lease_terminal_states")
  case True
  have "pool_rel R p (update_leases (\<lambda>r. ls_id r = ls_id l) (\<lambda>r. r\<lparr>ls_request_key := superseded_key l, ls_updated_at := At now\<rparr>) p)"
    by (rule rel_leases, rule R_settle) (auto simp: lease_write)
  then show ?thesis using True by (simp add: supersede_def)
next
  case False
  then have st: "ls_state l \<in> {LQueued, LOffered}" using assms(3) by (auto simp: replaceable_def Let_def)
  have "pool_rel R p (update_leases (\<lambda>r. ls_id r = ls_id l)
      (\<lambda>r. (vacated_lease now LExpired m r)\<lparr>ls_request_key := superseded_key l\<rparr>) p)" for m
  proof (intro rel_leases R_settle)
    fix r assume "r \<in> set (leases p)" "ls_id r = ls_id l"
    then have "r = l" using keys_unique [OF assms(1)] assms(2) by blast
    then show "lease_keep r ((vacated_lease now LExpired m r)\<lparr>ls_request_key := superseded_key l\<rparr>)"
      "owner_keep r ((vacated_lease now LExpired m r)\<lparr>ls_request_key := superseded_key l\<rparr>)"
      using st by (auto simp: lease_write)
  qed
  then show ?thesis using False rel_trans [OF _ rel_refresh_of] by (simp add: supersede_def)
qed

lemma evolves_find_or_insert:
  assumes "keys_inv p" and "find_or_insert cfg now r grp profile deadline affinity exact canary p = Inr (q, i)"
  shows "evolves R p q"
proof (cases "find (\<lambda>l. ls_request_key l = strip (lr_request_key r)) (leases p)")
  case None
  then show ?thesis using assms(2) evolves_insert_lease by (simp add: find_or_insert_def)
next
  case (Some l)
  have l: "l \<in> set (leases p)" using find_in [OF Some] by simp
  show ?thesis
  proof (cases "ls_client_token_hash l = lr_token_hash r")
    case False
    then have ins: "replaceable now p l" "insert_lease cfg now r grp profile deadline affinity exact canary (supersede now l p) = Inr (q, i)"
      using assms(2) Some by (auto simp: find_or_insert_def split: if_splits)
    show ?thesis using evolves.chain [OF evolves.keep [OF rel_supersede [OF assms(1) l ins(1)]] evolves_insert_lease [OF ins(2)]] .
  qed (use assms(2) Some in \<open>simp add: find_or_insert_def\<close>)
qed

lemma evolves_request_lease:
  assumes "keys_inv p"
  shows "evolves R p (fst (request_lease cfg clock r p))"
proof (cases "check_request cfg clock r")
  case (Inr c)
  obtain grp profile deadline where c: "c = (grp, profile, deadline)" by (cases c)
  let ?now = "round_second clock"
  define p1 where "p1 = refresh_exact_session_reservations ?now (refresh_mixed_canary_admissions ?now p)"
  have rel: "pool_rel R p p1" unfolding p1_def using rel_then [OF rel_refresh_canaries rel_refresh_exact keys_ids] keys_ids assms by blast
  have keys: "keys_inv p1" using rel_keys [OF rel assms] .
  have "evolves R p q" if tr: "request_transaction cfg ?now r grp profile deadline p = Inr (q, i)" for q i
  proof -
    obtain affinity exact canary u where u: "find_or_insert cfg ?now r grp profile deadline affinity exact canary p1 = Inr (u, i)"
      "q = u \<or> placed (place_queued_leases cfg ?now [i] False u) = Inr q"
      using tr unfolding request_transaction_def Let_def p1_def [symmetric] by (auto split: sum.splits if_splits)
    have e: "evolves R p u" using evolves.chain [OF evolves.keep [OF rel] evolves_find_or_insert [OF keys u(1)]] .
    then have "keys_inv u" using evolves_keys assms R_move by blast
    then have "evolves R u q" using u(2) placed_ok by auto
    then show ?thesis using evolves.chain [OF e] by simp
  qed
  then show ?thesis using Inr c by (auto simp: request_lease_def split: sum.split)
qed (simp add: request_lease_def)

end

section \<open>Admission\<close>

context lease_relation
begin

lemma rel_pin: "pool_rel R p (pin_task cfg now tid aid node p)" "pool_rel R p (unpin_task now tid p)"
  unfolding pin_task_def unpin_task_def by (rule rel_other; simp)+

lemma evolves_insert_reservation: "evolves R p (insert_reservation now key sid g profile family policy expires tid p)"
  unfolding insert_reservation_def by (rule evolves.insert_reservation) (simp add: new_reservation_def)

lemma evolves_insert_cohort: "evolves R p (fold (insert_reservation now key sid g profile family policy expires) ids p)"
proof (induction ids arbitrary: p)
  case (Cons i ids)
  show ?case using evolves.chain [OF evolves_insert_reservation Cons.IH] by simp
qed simp

lemma evolves_create_exact:
  assumes "ids_ok p"
  shows "evolves R p (fst (create_exact_session_reservation cfg now key sid g profile ids ttl p))"
proof -
  have e: "evolves R p (refresh_exact_session_reservations now p)" using rel_refresh_exact [OF assms] by (rule evolves.keep)
  show ?thesis unfolding create_exact_session_reservation_def Let_def
    using e evolves.chain [OF e evolves_insert_cohort] by (auto simp: commit_def split: option.split sum.split)
qed

lemma evolves_reserve_auto: "evolves R p (fst (reserve_auto cfg now pa rt allowed profile family policy p))"
  unfolding reserve_auto_def
  using evolves.keep [OF rel_pin(2)] evolves.chain [OF evolves_insert_reservation evolves.keep [OF rel_pin(1)]]
  by (auto split: option.split prod.split)

lemma evolves_admit_task:
  assumes "ids_ok q"
  shows "evolves R q (fst (admit_task cfg now pa allowed profile family policy t q))"
proof -
  show ?thesis unfolding admit_task_def Let_def
    using evolves_reserve_auto evolves.keep [OF rel_pin(1)] evolves.chain [OF evolves.keep [OF rel_fail_cohort [OF assms]] evolves_reserve_auto]
    by (auto split: option.split)
qed

lemma evolves_prepare:
  assumes "ids_ok p"
  shows "evolves R p (fst (prepare_pooled_task_session cfg now pa p))"
proof -
  let ?q = "refresh_exact_session_reservations now p"
  have rel: "pool_rel R p ?q" using rel_refresh_exact [OF assms] .
  have e: "evolves R p ?q" using rel by (rule evolves.keep)
  have "evolves R p (fst (admit_task cfg now pa allowed profile family policy t ?q))" for allowed profile family policy t
    using evolves.chain [OF e evolves_admit_task] rel_ids [OF rel assms] by blast
  then show ?thesis unfolding prepare_pooled_task_session_def Let_def
    using e by (auto simp: case_prod_unfold split: option.split sum.split)
qed

lemma rel_create_canary:
  assumes "ids_ok p"
  shows "pool_rel R p (fst (create_mixed_canary_admission now canonical suffix nonce sid families ttl validated p))"
proof -
  have e: "pool_rel R p (refresh_mixed_canary_admissions now p)" using rel_refresh_canaries [OF assms] .
  have i: "pool_rel R q (insert_canary now sid suffix profile n x nonce cohort q)" for q profile n x cohort
    by (rule rel_other) (simp_all add: insert_canary_def Let_def)
  show ?thesis unfolding create_mixed_canary_admission_def Let_def
    using rel_trans [OF e i] by (auto split: option.split sum.split)
qed

end

end
