(* ===== verification/Aedt_Control.thy ===== *)
theory Aedt_Control
  imports Aedt_Calls
begin

text \<open>
  The calls of a session host and the sections of the reconciliation pass as evolutions, and the pool
  as a state machine: an action is one call, a run is any sequence of calls, each at its own time and
  with whatever it read before its transaction.
\<close>

section \<open>Writes of the host and of the reconciliation\<close>

abbreviation keeps :: "pool \<Rightarrow> pool \<Rightarrow> bool" where
  "keeps \<equiv> pool_rel lease_keep"

abbreviation grows :: "pool \<Rightarrow> pool \<Rightarrow> bool" where
  "grows \<equiv> evolves lease_keep"

lemma keeps_leases: "(\<And>l. l \<in> set (leases p) \<Longrightarrow> P l \<Longrightarrow> lease_keep l (f l)) \<Longrightarrow> keeps p (update_leases P f p)"
  by (rule keeps.rel_leases)

lemma keeps_tasks: "keeps p (update_pool_tasks P f p)" and keeps_allocations: "keeps p (update_pool_allocations Q g p)"
  by (rule keeps.rel_other; simp)+

lemma keeps_finish:
  assumes "\<And>l. l \<in> set (leases p) \<Longrightarrow> P l \<Longrightarrow> ls_state l \<notin> lease_terminal_states" and "st \<in> lease_terminal_states"
  shows "keeps p (update_leases P (finished_lease now st m) p)"
  using assms by (intro keeps_leases) (auto simp: lease_write)

lemma keeps_reopen: "keeps p (reopen_allocation now aid p)"
  by (simp add: reopen_allocation_def keeps_allocations)

lemma claim_start_keeps: "keeps p (fst (fst (claim_start now ok h p)))"
  by (auto simp: claim_start_def claimed_session_def Let_def intro!: keeps.rel_sessions split: option.split)

lemma register_session_keeps: "keeps p (fst (register_session cfg now ok sid r p))"
proof -
  have a: "keeps p (update_sessions P (registered_session now r st) p)" for P st
    by (rule keeps.rel_sessions) (simp add: registered_session_def)
  show ?thesis
    by (auto simp: register_session_def Let_def intro: a keeps.rel_trans [OF a keeps_reopen] split: option.split)
qed

lemma fail_session_start_keeps: "keeps p (fst (fail_session_start now ok sid host m p))"
  by (auto simp: fail_session_start_def Let_def intro: keeps.rel_sessions)

lemma bind_host_task_keeps: "keeps p (fst (bind_session_host_task now sid tid p))"
  by (auto simp: bind_session_host_task_def Let_def intro: keeps.rel_sessions split: option.split)

lemma clear_barrier_keeps: "keeps p (clear_barrier now sid p)"
  unfolding clear_barrier_def by (rule keeps.rel_sessions) simp

lemma heartbeat_recovery_keeps: "keeps p (heartbeat_recovery now ok s p)"
proof -
  have "keeps p (update_sessions P (recovered_session now b) p)" for P b
    by (rule keeps.rel_sessions) (simp add: recovered_session_def)
  then show ?thesis unfolding heartbeat_recovery_def
    using keeps.rel_trans [OF _ keeps_reopen] by (auto intro: keeps.rel_sessions)
qed

lemma heartbeat_session_grows:
  assumes "keys_inv p"
  shows "grows p (fst (heartbeat_session cfg now ok seen sid h v p))"
proof -
  have rel: "keeps p (heartbeat_recovery now ok s (clear_barrier now sid p))" for s
    using keeps.rel_trans [OF clear_barrier_keeps heartbeat_recovery_keeps] .
  have "grows p (fst (commit p (if c then placed (place_queued_leases cfg now [] True (heartbeat_recovery now ok s (clear_barrier now sid p)))
      else Inr (heartbeat_recovery now ok s (clear_barrier now sid p)))))" for c s
    using keeps.keep_then_placed [OF assms rel] evolves.keep [OF rel] by (intro keeps.evolves_commit) (auto split: if_splits)
  then show ?thesis
    by (auto simp: heartbeat_session_def Let_def split: option.split)
qed

lemma finish_release_keeps:
  assumes "ids_ok p"
  shows "keeps p (finish_release now sid lid success m p)"
proof -
  define p1 where "p1 = update_leases (\<lambda>r. ls_id r = lid \<and> ls_session_id r = Some sid \<and> ls_state r = LReleasing)
      (finished_lease now (if success then LReleased else LFailed) m) p"
  define p2 where "p2 = update_sessions (\<lambda>s. d_id s = sid \<and> d_state s \<notin> {SClosed, SFailed})
      (\<lambda>s. s\<lparr>d_reuse_blocked_at := At now, d_updated_at := At now\<rparr>) p1"
  define p3 where "p3 = (if success then p2 else failed_cleanup now m sid p2)"
  have p1: "keeps p p1" unfolding p1_def by (rule keeps_finish) (auto simp: lease_terminal_states_def)
  have p2: "keeps p1 p2" unfolding p2_def by (rule keeps.rel_sessions) simp
  have "keeps q (failed_cleanup now m sid q)" for q unfolding failed_cleanup_def by (rule keeps.rel_sessions) simp
  then have "keeps p2 p3" by (simp add: p3_def)
  then have "keeps p p3" using p1 p2 keeps.rel_trans by blast
  then show ?thesis unfolding finish_release_def Let_def p1_def [symmetric] p2_def [symmetric] p3_def [symmetric]
    by (rule keeps.rel_then [OF keeps.rel_trans [OF _ keeps.rel_refresh_session] keeps.rel_refresh_exact]) (use assms in simp_all)
qed

lemma complete_release_grows:
  assumes "keys_inv p"
  shows "grows p (fst (complete_release cfg now seen sid h lid success message p))"
proof -
  have rel: "keeps p (finish_release now sid lid success m p)" for m
    using finish_release_keeps keeps.keys_ids [OF assms] by blast
  have "grows p (fst (commit p (if operational cfg then placed (place_queued_leases cfg now [] True (finish_release now sid lid success m p))
      else Inr (finish_release now sid lid success m p))))" for m
    using keeps.keep_then_placed [OF assms rel] evolves.keep [OF rel] by (intro keeps.evolves_commit) (auto split: if_splits)
  then show ?thesis unfolding complete_release_def Let_def
    by (cases success; cases "operational cfg") (simp_all split: sum.split option.split)
qed

lemma report_session_fault_keeps: "keeps p (fst (report_session_fault now seen sid h kind m p))"
proof -
  have a: "keeps p (native_probe_suspect now t sid p)" for t
    unfolding native_probe_suspect_def Let_def by (rule keeps.rel_sessions) simp
  have b: "keeps p (confirmed_death now t sid aid p)" for t aid
    unfolding confirmed_death_def by (rule keeps.rel_trans [OF keeps.rel_sessions keeps.rel_drain_allocation]) simp
  show ?thesis by (simp add: report_session_fault_def Let_def a b split: sum.split)
qed

lemma close_session_keeps:
  assumes "ids_ok p"
  shows "keeps p (fst (close_session cfg now seen sid h success message requeue p))"
proof -
  have a: "keeps p (fail_exact_session_reservations_for_target now sid t p)" for t
    using keeps.rel_fail_target [OF assms] .
  have b: "keeps q (update_leases (\<lambda>l. occupies sid l \<and> ls_exact_session_reservation_id l = 0) (requeued_lease cfg now t) q)" for t q
    by (rule keeps_leases) (auto simp: lease_write occupies_def)
  have c: "keeps q (update_leases (occupies sid) (finished_lease now LFailed t) q)" for t q
    by (rule keeps_finish) (auto simp: occupies_def slot_states_def lease_terminal_states_def)
  have d: "keeps q (update_sessions (\<lambda>r. d_id r = sid) (\<lambda>r. r\<lparr>d_state := st, d_failure_message := t, d_closed_at := At now, d_updated_at := At now\<rparr>) q)"
    for q st t by (rule keeps.rel_sessions) simp
  have e: "keeps p (if x then if y then drain_allocation now t1 aid q else q else q)" if "keeps p q" for x y t1 aid q
    using that keeps.rel_trans [OF that keeps.rel_drain_allocation] by simp
  define mid where "mid t1 t2 t3 = (let p1 = fail_exact_session_reservations_for_target now sid t1 p in
      if occupants p sid = [] then p1
      else if requeue then update_leases (\<lambda>l. occupies sid l \<and> ls_exact_session_reservation_id l = 0) (requeued_lease cfg now t2) p1
      else update_leases (occupies sid) (finished_lease now LFailed t3) p1)" for t1 t2 t3
  have "keeps p (mid t1 t2 t3)" for t1 t2 t3
    unfolding mid_def Let_def using a keeps.rel_trans [OF a b] keeps.rel_trans [OF a c] by simp
  then have f: "keeps p (update_sessions (\<lambda>r. d_id r = sid)
      (\<lambda>r. r\<lparr>d_state := st, d_failure_message := t, d_closed_at := At now, d_updated_at := At now\<rparr>) (mid t1 t2 t3))" for st t t1 t2 t3
    using keeps.rel_trans [OF _ d] by blast
  then have g: "keeps p (drain_allocation now t4 aid (update_sessions (\<lambda>r. d_id r = sid)
      (\<lambda>r. r\<lparr>d_state := st, d_failure_message := t, d_closed_at := At now, d_updated_at := At now\<rparr>) (mid t1 t2 t3)))" for st t t1 t2 t3 t4 aid
    using keeps.rel_trans [OF _ keeps.rel_drain_allocation] by blast
  have "fst (close_session cfg now seen sid h success message requeue p) = p
      \<or> (\<exists>t1 t2 t3 t4 st t aid. fst (close_session cfg now seen sid h success message requeue p)
          \<in> {update_sessions (\<lambda>r. d_id r = sid)
               (\<lambda>r. r\<lparr>d_state := st, d_failure_message := t, d_closed_at := At now, d_updated_at := At now\<rparr>) (mid t1 t2 t3),
             drain_allocation now t4 aid (update_sessions (\<lambda>r. d_id r = sid)
               (\<lambda>r. r\<lparr>d_state := st, d_failure_message := t, d_closed_at := At now, d_updated_at := At now\<rparr>) (mid t1 t2 t3))})"
    unfolding close_session_def mid_def Let_def by (simp split: sum.split option.split) blast
  then show ?thesis using f g by auto
qed

lemma reap_dead_keeps: "keeps p (fst (reap_dead_session now seen absent sid i p))"
proof -
  have "keeps p (log_reap sid (update_sessions P (\<lambda>r. r\<lparr>d_state := SClosed, d_closed_at := At now, d_updated_at := At now\<rparr>) p))" for P
    by (rule keeps.rel_trans [OF keeps.rel_sessions keeps.rel_other]) (simp_all add: log_reap_def)
  then show ?thesis by (simp add: reap_dead_session_def split: sum.split option.split)
qed

section \<open>The reconciliation pass\<close>

text \<open>A step of a loop over rows that were read before it: the row may have changed, its id has not.\<close>

lemma keeps_rows:
  assumes "\<And>x q. x \<in> set xs \<Longrightarrow> ids_ok q \<Longrightarrow> keeps q (g x q)" and "ids_ok p"
  shows "keeps p (fold g xs p)"
  by (rule keeps.rel_fold) (use assms in blast)+

lemma retire_start_keeps: "keeps p (retire_start now reason s p)"
  unfolding retire_start_def Let_def by (rule keeps.rel_trans [OF keeps_tasks keeps.rel_sessions]) simp

lemma retire_account_keeps: "ids_ok p \<Longrightarrow> keeps p (retire_blocked_account now reasons account p)"
  unfolding retire_blocked_account_def by (rule keeps_rows) (rule retire_start_keeps)

lemma refresh_owners_keeps: "ids_ok p \<Longrightarrow> keeps p (refresh_owners now p)"
  unfolding refresh_owners_def by (rule keeps.rel_then [OF keeps.rel_refresh_exact keeps.rel_zero_owner])

lemma drain_pressured_account_keeps: "keeps (fst pn) (fst (drain_pressured_account now account pn))"
  by (auto simp: drain_pressured_account_def Let_def intro!: keeps.rel_sessions split: option.split)

lemma drain_pressured_keeps:
  assumes "ids_ok p"
  shows "keeps p (drain_pressured now accounts p)"
proof -
  have fold: "keeps (fst pn) (fst (fold (drain_pressured_account now) as pn))" for as pn
  proof (induction as arbitrary: pn)
    case (Cons a as)
    show ?case using keeps.rel_trans [OF drain_pressured_account_keeps Cons.IH] by simp
  qed simp
  obtain q n where q: "fold (drain_pressured_account now) accounts (p, 0) = (q, n)" by (cases "fold (drain_pressured_account now) accounts (p, 0)")
  then have "keeps p q" using fold [of "(p, 0)" accounts] by simp
  then show ?thesis using keeps.rel_then [OF _ refresh_owners_keeps assms] by (simp add: drain_pressured_def q)
qed

lemma request_drain_keeps: "keeps p (request_sessions_drain now m ids p)"
  unfolding request_sessions_drain_def by (auto intro!: keeps.rel_sessions)

lemma rotate_keeps: "keeps p (rotate_allocations cfg now p)"
proof -
  define q where "q = (if pc_allocation_max_age_seconds cfg = 0 then p
      else update_pool_allocations
        (\<lambda>a. a_state a \<in> {Warm, Active} \<and> startswith (sql_lower (a_drain_reason a)) ''aedt pool''
           \<and> stamp_until (a_created_at a) (earlier now (pc_allocation_max_age_seconds cfg)))
        (\<lambda>a. a\<lparr>a_state := Draining, a_drain_reason := age_rotation, a_drain_at := stamp_or (a_drain_at a) (At now), a_updated_at := At now\<rparr>) p)"
  have "keeps p q" unfolding q_def using keeps_allocations by simp
  then show ?thesis unfolding rotate_allocations_def Let_def q_def [symmetric] by (rule keeps.rel_trans [OF _ request_drain_keeps])
qed

lemma reconcile_drains_keeps:
  assumes "ids_ok p"
  shows "keeps p (reconcile_drains cfg now rq p)"
proof -
  define p1 where "p1 = refresh_owners now (refresh_zero_owner_draining_sessions now p)"
  have p1: "keeps p p1" unfolding p1_def by (rule keeps.rel_then [OF keeps.rel_zero_owner refresh_owners_keeps]) (use assms in simp_all)
  then have "ids_ok p1" using keeps.rel_ids assms by blast
  define p2 where "p2 = (if rq_execute rq \<and> operational cfg
      then fold (retire_blocked_account now (rev (filter (\<lambda>e. fst e \<noteq> []) (map (\<lambda>(a, r). (strip a, strip r)) (rq_start_block_reasons rq)))))
             (clean_accounts (rq_excluded_start_accounts rq)) p1 else p1)"
  have p2: "keeps p1 p2" unfolding p2_def using \<open>ids_ok p1\<close> by (auto intro!: keeps_rows retire_account_keeps)
  then have "ids_ok p2" using keeps.rel_ids \<open>ids_ok p1\<close> by blast
  define p3 where "p3 = (if rq_execute rq \<and> operational cfg then drain_pressured now (clean_accounts (rq_storage_pressure_accounts rq)) p2 else p2)"
  have p3: "keeps p2 p3" unfolding p3_def using drain_pressured_keeps \<open>ids_ok p2\<close> by simp
  have "keeps p3 (if rq_execute rq then rotate_allocations cfg now p3 else p3)" using rotate_keeps by simp
  then show ?thesis unfolding reconcile_drains_def Let_def p1_def [symmetric] p2_def [symmetric] p3_def [symmetric]
    using p1 p2 p3 keeps.rel_trans by blast
qed

text \<open>
  The loops over leases write by id alone, and branch on the row they read before the loop. A step
  touches the row with its id and no other, so each step still finds the row it read.
\<close>

lemma keeps_lease_loop:
  assumes step: "\<And>l q. l \<in> set (leases q) \<Longrightarrow> P l \<Longrightarrow> keys_inv q \<Longrightarrow> keeps q (g l q)"
    and others: "\<And>l q r. r \<in> set (leases q) \<Longrightarrow> ls_id r \<noteq> ls_id l \<Longrightarrow> r \<in> set (leases (g l q))"
    and "keys_inv p" "set xs \<subseteq> set (leases p)" "distinct (map ls_id xs)" "list_all P xs"
  shows "keeps p (fold g xs p)"
  using assms(3-)
proof (induction xs arbitrary: p)
  case (Cons x xs)
  then have one: "keeps p (g x p)" using step by simp
  moreover have "r \<in> set (leases (g x p))" if "r \<in> set xs" for r
  proof (rule others)
    show "r \<in> set (leases p)" using Cons.prems(2) that by auto
    have "ls_id r \<in> ls_id ` set xs" using that by simp
    then show "ls_id r \<noteq> ls_id x" using Cons.prems(3) by auto
  qed
  ultimately have "keeps (g x p) (fold g xs (g x p))" using Cons.IH [of "g x p"] Cons.prems keeps.rel_keys [OF one] by auto
  then show ?case using keeps.rel_trans [OF one] by simp
qed simp

lemma keeps_read_loop:
  assumes "\<And>l q. l \<in> set (leases q) \<Longrightarrow> P l \<Longrightarrow> keys_inv q \<Longrightarrow> keeps q (g l q)"
    and "\<And>l q r. r \<in> set (leases q) \<Longrightarrow> ls_id r \<noteq> ls_id l \<Longrightarrow> r \<in> set (leases (g l q))"
    and "keys_inv p"
  shows "keeps p (fold g (filter P (leases p)) p)"
  using assms by (intro keeps_lease_loop [of P]) (auto simp: keys_inv_def distinct_map list_all_iff inj_on_def)

lemma keeps_one:
  assumes "keys_inv p" and "l \<in> set (leases p)" and "lease_keep l (f l)"
  shows "keeps p (update_leases (\<lambda>r. ls_id r = ls_id l) f p)"
proof (rule keeps_leases)
  show "lease_keep r (f r)" if "r \<in> set (leases p)" "ls_id r = ls_id l" for r
    using keeps.keys_unique [OF assms(1) that(1) assms(2) that(2)] assms(3) by simp
qed

lemma refresh_leases [simp]: "leases (refresh_session_state now sid p) = leases p"
  "leases (refresh_session_of now l p) = leases p" "leases (block_reuse now Q p) = leases p"
  by (simp_all add: refresh_session_of_def refresh_session_state_def block_reuse_def Let_def split: option.split)

lemma sql_update_other: "r \<in> set rows \<Longrightarrow> \<not> P r \<Longrightarrow> r \<in> set (sql_update P f rows)"
  by (force simp: sql_update_def)

lemma cancelling_keep: "ls_state l \<in> {LLeased, LAttaching, LActive} \<Longrightarrow> lease_keep l (cancelling_lease now m l)"
  and vacated_keep: "ls_state l \<notin> lease_terminal_states \<Longrightarrow> lease_keep l (vacated_lease now LCancelled m l)"
    "ls_state l \<notin> lease_terminal_states \<Longrightarrow> lease_keep l (vacated_lease now LExpired m l)"
  and finished_keep: "ls_state l \<notin> lease_terminal_states \<Longrightarrow> lease_keep l (finished_lease now LExpired m l)"
  by (auto simp: lease_write)

lemma end_terminal_keeps:
  assumes "keys_inv p"
  shows "keeps p (end_terminal_leases now p)"
  unfolding end_terminal_leases_def
proof (rule keeps_lease_loop [of "\<lambda>l. ls_state l \<notin> lease_terminal_states"])
  show "keeps q (end_terminal_lease now l q)"
    if l: "l \<in> set (leases q)" "ls_state l \<notin> lease_terminal_states" "keys_inv q" for l q
  proof (cases "ls_state l \<in> {LAttaching, LActive} \<and> or_zero (ls_session_id l) \<noteq> 0")
    case True
    then have "keeps q (update_leases (\<lambda>r. ls_id r = ls_id l) (cancelling_lease now m) q)" for m
      using l by (intro keeps_one cancelling_keep) auto
    then show ?thesis using True keeps.rel_trans [OF _ keeps.rel_block_reuse] by (simp add: end_terminal_lease_def)
  next
    case False
    have "keeps q (update_leases (\<lambda>r. ls_id r = ls_id l) (vacated_lease now LCancelled m) q)" for m
      using l by (intro keeps_one vacated_keep) auto
    then show ?thesis using False keeps.rel_trans [OF _ keeps.rel_refresh_of] by (auto simp: end_terminal_lease_def)
  qed
  show "r \<in> set (leases (end_terminal_lease now l q))" if "r \<in> set (leases q)" "ls_id r \<noteq> ls_id l" for l q r
    using that by (simp add: end_terminal_lease_def Let_def sql_update_other)
  show "keys_inv p" using assms .
qed (use assms in \<open>auto simp: keys_inv_def distinct_map inj_on_def list_all_iff lease_terminal_states_def\<close>)

lemma requeue_stale_keeps: "ids_ok p \<Longrightarrow> keeps p (requeue_stale_offers now p)"
  unfolding requeue_stale_offers_def
proof (rule keeps_rows)
  fix l :: lease and q :: pool
  have "keeps q (update_leases (\<lambda>r. ls_id r = ls_id l \<and> ls_state r = LOffered) (withdrawn_lease now) q)"
    by (rule keeps_leases) (auto simp: lease_write)
  moreover have "keeps r (update_reservations P (unconsume now) r)" for r P
    by (rule keeps.rel_reservations) (simp add: unconsume_def)
  ultimately show "keeps q (requeue_stale_offer now l q)"
    unfolding requeue_stale_offer_def using keeps.rel_trans keeps.rel_refresh_of by blast
qed

lemma quarantine_silent_keeps: "keeps p (quarantine_silent_owner now sid p)"
  unfolding quarantine_silent_owner_def by (rule keeps.rel_sessions) simp

lemma quarantine_silent_leases [simp]: "leases (quarantine_silent_owner now sid p) = leases p"
  by (simp add: quarantine_silent_owner_def)

lemma expire_leases_keeps:
  assumes "keys_inv p"
  shows "keeps p (expire_leases cfg now p)"
  unfolding expire_leases_def
proof (rule keeps_read_loop [OF _ _ assms])
  show "keeps q (expire_lease now l q)" if l: "l \<in> set (leases q)" "lease_overdue cfg now l" "keys_inv q" for l q
  proof -
    have st: "ls_state l \<in> {LQueued, LOffered, LLeased, LAttaching, LActive}" using l(2) by (simp add: lease_overdue_def)
    have a: "keeps q (update_leases (\<lambda>r. ls_id r = ls_id l) (finished_lease now LExpired m) q)"
      "keeps q (update_leases (\<lambda>r. ls_id r = ls_id l) (vacated_lease now LExpired m) q)" for m
      using l st by (auto intro!: keeps_one finished_keep vacated_keep simp: lease_terminal_states_def)
    have b: "keeps q (update_leases (\<lambda>r. ls_id r = ls_id l) (cancelling_lease now m) q)" if "ls_state l \<in> {LLeased, LAttaching, LActive}" for m
      using l that by (auto intro!: keeps_one cancelling_keep)
    have c: "keeps q (if x then block_reuse now P q1 else q1)" if "keeps q q1" for x P q1
      using that keeps.rel_trans [OF that keeps.rel_block_reuse] by simp
    show ?thesis
    proof (cases "ls_state l \<in> {LLeased, LAttaching, LActive}")
      case True
      have "keeps q (quarantine_silent_owner now i (if x then block_reuse now P (update_leases (\<lambda>r. ls_id r = ls_id l) (cancelling_lease now m) q)
          else update_leases (\<lambda>r. ls_id r = ls_id l) (cancelling_lease now m) q))" for i x P m
        using keeps.rel_trans [OF c [OF b [OF True]] quarantine_silent_keeps] .
      moreover have "ls_state l \<noteq> LQueued" "ls_state l \<noteq> LOffered" using True by auto
      ultimately show ?thesis using c [OF b [OF True]] by (simp only: expire_lease_def Let_def if_False split: if_split) blast
    next
      case False
      then show ?thesis using st a keeps.rel_trans [OF a(2) keeps.rel_refresh_of] by (auto simp: expire_lease_def)
    qed
  qed
  show "r \<in> set (leases (expire_lease now l q))" if "r \<in> set (leases q)" "ls_id r \<noteq> ls_id l" for l q r
    using that by (simp add: expire_lease_def Let_def sql_update_other)
qed

lemma session_marks_keep:
  "keeps p (mark_silent_sessions now c p)" "keeps p (quarantine_lost_releases now c p)" "keeps p (mark_late_starts cfg now p)"
  "keeps p (drain_orphaned_idle now p)" "keeps p (recycle_allocations now c p)"
  unfolding mark_silent_sessions_def quarantine_lost_releases_def mark_late_starts_def drain_orphaned_idle_def recycle_allocations_def
  by (rule keeps.rel_sessions keeps_allocations; simp)+

lemma fail_lost_keeps: "keeps p (fail_lost_releases now c p)"
  unfolding fail_lost_releases_def by (rule keeps_leases) (auto simp: lease_write release_lost_def)

lemma reap_sessions_keeps: "ids_ok p \<Longrightarrow> keeps p (reap_sessions cfg now c p)"
  unfolding reap_sessions_def
proof (rule keeps_rows)
  fix sid q
  have "keeps q (update_leases (occupies sid) (finished_lease now LFailed m) q)" for m
    by (rule keeps_finish) (auto simp: occupies_def slot_states_def lease_terminal_states_def)
  moreover have "keeps q (update_sessions P (\<lambda>s. s\<lparr>d_state := SFailed, d_failure_message := m s, d_closed_at := At now, d_updated_at := At now\<rparr>) q)"
    for q P m by (rule keeps.rel_sessions) simp
  ultimately show "keeps q (reap_session now sid q)" unfolding reap_session_def by (rule keeps.rel_trans)
qed

lemma recover_keeps: "ids_ok p \<Longrightarrow> keeps p (recover_allocations now p)"
  unfolding recover_allocations_def
proof (rule keeps_rows)
  fix aid q
  have "keeps r (update_sessions P (\<lambda>s. s\<lparr>d_drain_requested_at := Blank, d_updated_at := At now\<rparr>) r)" for P r
    by (rule keeps.rel_sessions) simp
  then have "keeps q (update_sessions P (\<lambda>s. s\<lparr>d_drain_requested_at := Blank, d_updated_at := At now\<rparr>) (update_pool_allocations Q g q))" for P Q g
    by (rule keeps.rel_trans [OF keeps_allocations])
  then show "keeps q (recover_allocation now aid q)" by (simp add: recover_allocation_def Let_def)
qed

lemma reconcile_ownership_keeps:
  assumes "keys_inv p"
  shows "keeps p (reconcile_ownership cfg now p)"
proof -
  let ?a = "end_terminal_leases now p"
  let ?b = "requeue_stale_offers now ?a"
  have a: "keeps p ?a" using end_terminal_keeps [OF assms] .
  then have "keys_inv ?a" using keeps.rel_keys assms by blast
  then have b: "keeps ?a ?b" using requeue_stale_keeps keeps.keys_ids by blast
  then have "keys_inv ?b" using keeps.rel_keys \<open>keys_inv ?a\<close> by blast
  then have "keeps ?b (expire_leases cfg now ?b)" by (rule expire_leases_keeps)
  then have c: "keeps p (expire_leases cfg now ?b)" using a b keeps.rel_trans by blast
  show ?thesis unfolding reconcile_ownership_def Let_def
    by (intro keeps.rel_then [OF _ reap_sessions_keeps] keeps.rel_trans [OF _ session_marks_keep(5)]
        keeps.rel_trans [OF _ session_marks_keep(3)] keeps.rel_trans [OF _ fail_lost_keeps]
        keeps.rel_trans [OF _ session_marks_keep(2)] keeps.rel_trans [OF c session_marks_keep(1)] keeps.keys_ids [OF assms])
qed

lemma execute_plan_grows:
  assumes "ids_ok p"
  shows "grows p (execute_plan cfg now plan p)"
proof -
  define p1 where "p1 = fold (rebalance_account now) (sort (pp_rebalance_drains plan)) p"
  define p2 where "p2 = (if pp_drain_needed plan = 0 then p1 else drain_excess now (pp_drain_needed plan) p1)"
  have "keeps p p1" unfolding p1_def
    by (rule keeps_rows [OF _ assms]) (simp add: rebalance_account_def Let_def drained_session_def keeps.rel_sessions)
  moreover have "keeps p1 p2" unfolding p2_def drain_excess_def Let_def by (auto intro: keeps.rel_sessions)
  ultimately have "grows p p2" using keeps.rel_trans evolves.keep by blast
  moreover have "grows q (fold (insert_session cfg now) xs q)" for xs q
  proof (induction xs arbitrary: q)
    case (Cons x xs)
    have "grows q (insert_session cfg now x q)" unfolding insert_session_def by (rule evolves.insert_session) (simp add: new_session_def)
    then show ?case using evolves.chain [OF _ Cons.IH] by simp
  qed simp
  ultimately show ?thesis unfolding execute_plan_def Let_def p1_def [symmetric] p2_def [symmetric] using evolves.chain by blast
qed

lemma reconcile_grows:
  assumes "keys_inv p"
  shows "grows p (fst (reconcile cfg now plan rq p))"
proof -
  define p1 where "p1 = reconcile_ownership cfg now (reconcile_drains cfg now rq p)"
  define p2 where "p2 = (if rq_execute rq then drain_orphaned_idle now (recover_allocations now p1) else p1)"
  have d: "keeps p (reconcile_drains cfg now rq p)" using reconcile_drains_keeps keeps.keys_ids [OF assms] .
  then have "keys_inv (reconcile_drains cfg now rq p)" using keeps.rel_keys assms by blast
  then have p1: "keeps p p1" unfolding p1_def using keeps.rel_trans [OF d reconcile_ownership_keeps] by blast
  then have "ids_ok p1" using keeps.rel_keys assms keeps.keys_ids by blast
  then have "keeps p1 p2" unfolding p2_def using keeps.rel_trans [OF recover_keeps session_marks_keep(4)] by simp
  then have p2: "keeps p p2" using keeps.rel_trans [OF p1] by blast
  have e: "grows p (execute_plan cfg now (plan p3) p3)" if "placed (place_queued_leases cfg now [] False p2) = Inr p3" for p3
  proof -
    have g: "grows p p3" using keeps.keep_then_placed [OF assms p2 that] .
    then have "keys_inv p3" using evolves_keys assms by (fastforce simp: lease_keep_def)
    then show ?thesis using evolves.chain [OF g execute_plan_grows] keeps.keys_ids by blast
  qed
  show ?thesis unfolding reconcile_def Let_def p1_def [symmetric] p2_def [symmetric]
    by (rule keeps.evolves_commit) (use evolves.keep [OF p2] e in \<open>auto split: if_splits sum.splits\<close>)
qed

section \<open>The pool as a state machine\<close>

text \<open>
  One call of the service. \<open>seen\<close> is the state an endpoint read before its own transaction, any pool at
  all; the results of a remote probe and the scaling plan are fields of the action.
\<close>

datatype pool_call =
    Request_Lease lease_request
  | Heartbeat_Lease pool int string string
  | Accept_Lease int string
  | Activate_Lease pool int string
  | Request_Solve_Permit int string bool
  | Complete_Native_Pipeline int string int
  | Bind_Project_Name int string string
  | Cancel_Lease int string string
  | Report_Project_Fault pool int string string string int string
  | Claim_Start bool host_claim
  | Register_Session bool int registration
  | Fail_Session_Start bool int string string
  | Bind_Host_Task int int
  | Heartbeat_Session bool pool int string liveness
  | Complete_Release pool int string int bool string
  | Report_Session_Fault pool int string string string
  | Close_Session pool int string bool string bool
  | Reap_Dead_Session pool bool int session_identity
  | Create_Exact_Reservation string int int "pool_error + string" "int list" int
  | Prepare_Pooled_Task pooled_admission
  | Create_Mixed_Canary "string \<Rightarrow> pool_error + string" string "nat \<Rightarrow> string" int "(string \<times> string \<times> int) list" int bool
  | Reconcile "pool \<Rightarrow> pool_plan" reconcile_request

fun pool_exec :: "pool_config \<Rightarrow> int \<Rightarrow> pool_call \<Rightarrow> pool \<Rightarrow> pool" where
  "pool_exec cfg now (Request_Lease r) p = fst (request_lease cfg now r p)"
| "pool_exec cfg now (Heartbeat_Lease seen lid h phase) p = fst (heartbeat_lease cfg now seen lid h phase p)"
| "pool_exec cfg now (Accept_Lease lid h) p = fst (accept_lease cfg now lid h p)"
| "pool_exec cfg now (Activate_Lease seen lid h) p = fst (activate_lease cfg now [] seen lid h p)"
| "pool_exec cfg now (Request_Solve_Permit lid h seal) p = fst (request_solve_permit cfg now [] lid h seal p)"
| "pool_exec cfg now (Complete_Native_Pipeline lid h generation) p = fst (complete_native_pipeline cfg now lid h generation p)"
| "pool_exec cfg now (Bind_Project_Name lid h name) p = fst (bind_lease_project_name now lid h name p)"
| "pool_exec cfg now (Cancel_Lease lid h reason) p = fst (cancel_lease now lid h reason p)"
| "pool_exec cfg now (Report_Project_Fault seen lid h kind phase grace message) p =
     fst (report_project_fault now seen lid h kind phase grace message p)"
| "pool_exec cfg now (Claim_Start ok h) p = fst (fst (claim_start now ok h p))"
| "pool_exec cfg now (Register_Session ok sid r) p = fst (register_session cfg now ok sid r p)"
| "pool_exec cfg now (Fail_Session_Start ok sid host m) p = fst (fail_session_start now ok sid host m p)"
| "pool_exec cfg now (Bind_Host_Task sid tid) p = fst (bind_session_host_task now sid tid p)"
| "pool_exec cfg now (Heartbeat_Session ok seen sid h v) p = fst (heartbeat_session cfg now ok seen sid h v p)"
| "pool_exec cfg now (Complete_Release seen sid h lid success m) p = fst (complete_release cfg now seen sid h lid success m p)"
| "pool_exec cfg now (Report_Session_Fault seen sid h kind m) p = fst (report_session_fault now seen sid h kind m p)"
| "pool_exec cfg now (Close_Session seen sid h success m requeue) p = fst (close_session cfg now seen sid h success m requeue p)"
| "pool_exec cfg now (Reap_Dead_Session seen absent sid i) p = fst (reap_dead_session now seen absent sid i p)"
| "pool_exec cfg now (Create_Exact_Reservation key sid g profile ids ttl) p =
     fst (create_exact_session_reservation cfg now key sid g profile ids ttl p)"
| "pool_exec cfg now (Prepare_Pooled_Task pa) p = fst (prepare_pooled_task_session cfg now pa p)"
| "pool_exec cfg now (Create_Mixed_Canary canonical suffix nonce sid families ttl validated) p =
     fst (create_mixed_canary_admission now canonical suffix nonce sid families ttl validated p)"
| "pool_exec cfg now (Reconcile plan rq) p = fst (reconcile cfg now plan rq p)"

definition pool_run :: "pool_config \<Rightarrow> (int \<times> pool_call) list \<Rightarrow> pool \<Rightarrow> pool" where
  "pool_run cfg calls p = fold (\<lambda>(now, c). pool_exec cfg now c) calls p"

fun client_call :: "pool_call \<Rightarrow> bool" where
  "client_call (Request_Lease r) = True"
| "client_call (Heartbeat_Lease seen lid h phase) = True"
| "client_call (Accept_Lease lid h) = True"
| "client_call (Activate_Lease seen lid h) = True"
| "client_call (Request_Solve_Permit lid h seal) = True"
| "client_call (Complete_Native_Pipeline lid h generation) = True"
| "client_call (Bind_Project_Name lid h name) = True"
| "client_call (Cancel_Lease lid h reason) = True"
| "client_call (Report_Project_Fault seen lid h kind phase grace message) = True"
| "client_call _ = False"

definition fresh_pool :: "pool \<Rightarrow> bool" where
  "fresh_pool p = (leases p = [] \<and> sessions p = [] \<and> reservations p = [] \<and> 0 \<le> reservation_seq p)"

lemma fresh_inv: "fresh_pool p \<Longrightarrow> pool_inv p"
  by (simp add: fresh_pool_def pool_inv_def keys_inv_def ids_ok_def slots_inv_def permits_inv_def)

context lease_relation
begin

lemma evolves_client_call:
  assumes "pool_inv p" and "client_call c"
  shows "evolves R p (pool_exec cfg now c p)"
proof -
  have k: "keys_inv p" using assms(1) by (simp add: pool_inv_def)
  show ?thesis using assms(2)
    by (cases c) (simp_all add: evolves_request_lease [OF k] evolves_heartbeat_lease [OF k] evolves_accept_lease [OF keys_ids [OF k]]
        evolves_activate_lease [OF assms(1)] evolves_request_permit [OF assms(1)] evolves_complete_pipeline evolves_bind_name
        evolves.keep [OF rel_cancel_lease [OF k]] evolves.keep [OF rel_report_project_fault [OF k]])
qed

end

lemma pool_exec_grows:
  assumes "pool_inv p"
  shows "grows p (pool_exec cfg now c p)"
proof (cases "client_call c")
  case True
  then show ?thesis by (rule keeps.evolves_client_call [OF assms])
next
  case False
  have k: "keys_inv p" "ids_ok p" using assms keeps.keys_ids by (simp_all add: pool_inv_def)
  show ?thesis using False
    by (cases c) (simp_all add: evolves.keep [OF claim_start_keeps] evolves.keep [OF register_session_keeps]
        evolves.keep [OF fail_session_start_keeps] evolves.keep [OF bind_host_task_keeps] heartbeat_session_grows [OF k(1)]
        complete_release_grows [OF k(1)] evolves.keep [OF report_session_fault_keeps] evolves.keep [OF close_session_keeps [OF k(2)]]
        evolves.keep [OF reap_dead_keeps] reconcile_grows [OF k(1)]
        keeps.evolves_create_exact [OF k(2)] keeps.evolves_prepare [OF k(2)] evolves.keep [OF keeps.rel_create_canary [OF k(2)]])
qed

lemma pool_run_grows:
  assumes "pool_inv p"
  shows "grows p (pool_run cfg calls p) \<and> pool_inv (pool_run cfg calls p)"
  using assms
proof (induction calls arbitrary: p)
  case (Cons c calls)
  obtain now a where c: "c = (now, a)" by (cases c)
  have e: "grows p (pool_exec cfg now a p)" using pool_exec_grows [OF Cons.prems] .
  then have "pool_inv (pool_exec cfg now a p)" using evolves_pool_inv Cons.prems by blast
  then show ?case using Cons.IH [of "pool_exec cfg now a p"] evolves.chain [OF e] by (simp add: pool_run_def c)
qed (simp add: pool_run_def)

lemma client_run:
  assumes "pool_inv p" and "list_all (client_call \<circ> snd) calls"
  shows "evolves client_keep p (pool_run cfg calls p)"
  using assms
proof (induction calls arbitrary: p)
  case (Cons c calls)
  obtain now a where c: "c = (now, a)" by (cases c)
  have e: "evolves client_keep p (pool_exec cfg now a p)" using client.evolves_client_call Cons.prems c by simp
  have "pool_inv (pool_exec cfg now a p)" using evolves_pool_inv [OF pool_exec_grows] Cons.prems(1) by blast
  then show ?case using Cons.IH [of "pool_exec cfg now a p"] Cons.prems(2) evolves.chain [OF e] by (simp add: pool_run_def c)
qed (simp add: pool_run_def)

end
