(* ===== verification/Aedt_Safety.thy ===== *)
theory Aedt_Safety
  imports Aedt_Control
begin

text \<open>
  What the AEDT pool promises, over every sequence of calls: slots and solve permits are exclusive,
  placement does not raise and stays within the target, a client cannot free the slot of a project it
  owns, and a finished lease stays finished.
\<close>

section \<open>Rows along an evolution\<close>

definition slot_kept :: "lease \<Rightarrow> lease \<Rightarrow> bool" where
  "slot_kept l l' = (ls_id l' = ls_id l \<and> ls_exact_session_reservation_id l' = ls_exact_session_reservation_id l
     \<and> ls_session_id l' = ls_session_id l \<and> ls_slot_index l' = ls_slot_index l)"

lemma sql_update_in: "r \<in> set rows \<Longrightarrow> (if P r then f r else r) \<in> set (sql_update P f rows)"
  by (auto simp: sql_update_def)

lemma rel_row: "pool_rel R p q \<Longrightarrow> l \<in> set (leases p) \<Longrightarrow> \<exists>l' \<in> set (leases q). R l l'"
  unfolding pool_rel_def by (metis (no_types, lifting) in_set_conv_nth list_all2_conv_all_nth)

text \<open>A property of rows that the relation and a permit keep, and that a queued lease does not have, persists.\<close>

lemma evolves_row:
  assumes "evolves R p q" and "l \<in> set (leases p)" and "K l"
    and move: "\<And>l l'. R l l' \<Longrightarrow> K l \<Longrightarrow> K l' \<and> S l l'"
    and settled: "\<And>l. K l \<Longrightarrow> ls_state l \<noteq> LQueued"
    and permit: "\<And>now g l. K l \<Longrightarrow> K (permit_lease now g l) \<and> S l (permit_lease now g l)"
    and refl: "\<And>l. S l l" and trans: "\<And>l m n. S l m \<Longrightarrow> S m n \<Longrightarrow> S l n"
  shows "\<exists>l' \<in> set (leases q). K l' \<and> S l l'"
  using assms(1-3)
proof (induction arbitrary: l rule: evolves.induct)
  case (keep p q)
  then show ?case using rel_row move by blast
next
  case (offer s p k i D cfg now)
  then have "l \<in> set (leases (update_leases (\<lambda>r. ls_id r = i \<and> ls_state r = LQueued \<and> D r) (offer_lease cfg now (d_id s) k) p))"
    using settled by (auto intro: sql_update_other)
  then show ?case using offer.prems refl by blast
next
  case (permit s p ids now)
  let ?P = "\<lambda>l. ls_session_id l = Some (d_id s) \<and> waiting_for_permit l \<and> ls_id l \<in> set ids"
  let ?w = "permit_lease now (d_solve_batch_generation s + 1)"
  have "(if ?P l then ?w l else l) \<in> set (sql_update ?P ?w (leases p))" using sql_update_in permit.prems(1) .
  moreover have "K (if ?P l then ?w l else l) \<and> S l (if ?P l then ?w l else l)" using assms(6) permit.prems(2) refl by simp
  ultimately show ?case by (intro bexI) simp_all
next
  case (chain p q r)
  then show ?case using trans by meson
qed (use refl in auto)

lemma terminal_row:
  assumes "grows p q" and "l \<in> set (leases p)" and "ls_state l \<in> lease_terminal_states"
  shows "\<exists>l' \<in> set (leases q). ls_id l' = ls_id l \<and> ls_state l' = ls_state l"
proof -
  have "\<exists>l' \<in> set (leases q). ls_state l' \<in> lease_terminal_states \<and> (ls_id l' = ls_id l \<and> ls_state l' = ls_state l)"
    using assms(1-3)
  proof (rule evolves_row)
    show "ls_state l' \<in> lease_terminal_states \<and> ls_id l' = ls_id l \<and> ls_state l' = ls_state l"
      if "lease_keep l l'" "ls_state l \<in> lease_terminal_states" for l l'
      using that by (simp add: lease_keep_def lease_move_def)
  qed (auto simp: lease_terminal_states_def permit_lease_def)
  then show ?thesis by blast
qed

lemma owner_row:
  assumes "evolves client_keep p q" and "l \<in> set (leases p)" and "holds_project l" and "ls_exact_session_reservation_id l = 0"
  shows "\<exists>l' \<in> set (leases q). holds_project l' \<and> slot_kept l l'"
proof -
  have "\<exists>l' \<in> set (leases q). (holds_project l' \<and> ls_exact_session_reservation_id l' = 0) \<and> slot_kept l l'"
    using assms(1,2)
  proof (rule evolves_row)
    show "holds_project l \<and> ls_exact_session_reservation_id l = 0" using assms by simp
    show "(holds_project l' \<and> ls_exact_session_reservation_id l' = 0) \<and> slot_kept l l'"
      if "client_keep l l'" "holds_project l \<and> ls_exact_session_reservation_id l = 0" for l l'
      using that by (auto simp: client_keep_def lease_move_def owner_keep_def holds_project_def slot_states_def slot_kept_def)
  qed (auto simp: holds_project_def permit_lease_def slot_kept_def)
  then show ?thesis by blast
qed

section \<open>Invariants read off\<close>

lemma length_unique: "distinct xs \<Longrightarrow> (\<And>x y. x \<in> set xs \<Longrightarrow> y \<in> set xs \<Longrightarrow> x = y) \<Longrightarrow> length xs \<le> 1"
proof (rule ccontr)
  assume a: "distinct xs" "\<And>x y. x \<in> set xs \<Longrightarrow> y \<in> set xs \<Longrightarrow> x = y" "\<not> length xs \<le> 1"
  then obtain x y zs where "xs = x # y # zs" by (cases xs; cases "tl xs") fastforce+
  then show False using a(1) a(2) [of x y] by simp
qed

lemma occupants_keys: "keys_inv p \<Longrightarrow> distinct (map ls_id (occupants p sid))"
  by (simp add: keys_inv_def occupants_def distinct_map_filter)

lemma slots_distinct:
  assumes "keys_inv p" and "slots_inv p" and "s \<in> set (sessions p)"
  shows "distinct (map ls_slot_index (occupants p (d_id s)))
    \<and> set (map ls_slot_index (occupants p (d_id s))) \<subseteq> Some ` {..<d_slots_total s}"
proof
  have "inj_on ls_slot_index (set (occupants p (d_id s)))"
  proof (rule inj_onI)
    fix l m assume l: "l \<in> set (occupants p (d_id s))" "m \<in> set (occupants p (d_id s))" "ls_slot_index l = ls_slot_index m"
    then have "ls_id l = ls_id m" using assms(2) unfolding slots_inv_def occupants_def occupies_def by force
    then show "l = m" using l keeps.keys_unique [OF assms(1)] by (auto simp: occupants_def)
  qed
  then show "distinct (map ls_slot_index (occupants p (d_id s)))"
    using occupants_keys [OF assms(1)] by (simp add: distinct_map)
  have "\<exists>k < d_slots_total s. ls_slot_index l = Some k" if l: "l \<in> set (occupants p (d_id s))" for l
  proof -
    have o: "l \<in> set (leases p)" "ls_state l \<in> slot_states" "ls_session_id l = Some (d_id s)"
      using l by (auto simp: occupants_def occupies_def)
    then obtain r k where r: "r \<in> set (sessions p)" "k < d_slots_total r" "d_id r = d_id s" "ls_slot_index l = Some k"
      using assms(2) unfolding slots_inv_def by force
    then show ?thesis using session_unique [OF assms(1) assms(3) r(1)] by auto
  qed
  then show "set (map ls_slot_index (occupants p (d_id s))) \<subseteq> Some ` {..<d_slots_total s}" by fastforce
qed

lemma permits_single:
  assumes "keys_inv p" and "permits_inv p"
  shows "length (filter permitted (occupants p sid)) \<le> 1"
proof (rule length_unique)
  have "distinct (occupants p sid)" using occupants_keys [OF assms(1)] by (simp add: distinct_map)
  then show "distinct (filter permitted (occupants p sid))" by simp
  fix l m assume "l \<in> set (filter permitted (occupants p sid))" "m \<in> set (filter permitted (occupants p sid))"
  then have "l \<in> set (leases p)" "m \<in> set (leases p)" "occupies sid l" "occupies sid m" "permitted l" "permitted m"
    by (auto simp: occupants_def)
  then show "l = m" using keeps.keys_unique [OF assms(1)] permits_unique [OF assms(2)] by blast
qed

section \<open>The admission target\<close>

definition lease_tasks :: "pool \<Rightarrow> (int \<times> int) list" where
  "lease_tasks p = map (\<lambda>l. (ls_id l, ls_task_id l)) (leases p)"

lemma refresh_reservations [simp]: "reservations (refresh_session_state now sid p) = reservations p"
  by (simp add: refresh_session_state_def Let_def split: option.split)

lemma place_on_session_keys:
  assumes "keys_inv p" and "place_on_session cfg now l s p = Inr (q, True)"
  shows "lease_tasks q = lease_tasks p"
    and "l' \<in> set (leases q) \<Longrightarrow> ls_id l' \<noteq> ls_id l \<Longrightarrow> l' \<in> set (leases p)"
    and "x \<in> set (reservations q) \<Longrightarrow> x_state x \<in> {RReserved, RClaimed} \<Longrightarrow> x \<in> set (reservations p)
      \<and> (ls_exact_session_reservation_id l = 0 \<or> x_id x \<noteq> ls_exact_session_reservation_id l)"
proof -
  obtain k where k: "free_slot p s = Some k" using assms(2) by (auto simp: place_on_session_def split: option.splits)
  define P :: "lease \<Rightarrow> bool" where "P = (\<lambda>r. ls_id r = ls_id l \<and> ls_state r = LQueued \<and> stamp_after (ls_client_deadline_at r) now)"
  define p1 where "p1 = update_leases P (offer_lease cfg now (d_id s) k) p"
  obtain p2 where p2: "consume_reservation now l p1 = Inr p2" and q: "leases q = leases p2" "reservations q = reservations p2"
    using assms(2) by (auto simp: place_on_session_def k Let_def P_def [symmetric] p1_def [symmetric] split: if_splits sum.splits)
  have l2: "leases p2 = leases p1" using p2 by (auto simp: consume_reservation_def Let_def split: if_splits)
  show "lease_tasks q = lease_tasks p"
    unfolding lease_tasks_def q(1) l2 p1_def by (auto simp: sql_update_def offer_lease_def)
  show "l' \<in> set (leases p)" if "l' \<in> set (leases q)" "ls_id l' \<noteq> ls_id l"
    using that by (auto simp: q(1) l2 p1_def P_def sql_update_def offer_lease_def split: if_splits)
  define C :: "exact_reservation \<Rightarrow> bool" where "C = (\<lambda>x. x_id x = ls_exact_session_reservation_id l \<and> x_state x = RClaimed \<and> x_lease_id x = Some (ls_id l))"
  have p1r: "reservations p1 = reservations p" by (simp add: p1_def)
  show "x \<in> set (reservations p) \<and> (ls_exact_session_reservation_id l = 0 \<or> x_id x \<noteq> ls_exact_session_reservation_id l)"
    if x: "x \<in> set (reservations q)" "x_state x \<in> {RReserved, RClaimed}"
  proof (cases "ls_exact_session_reservation_id l = 0")
    case True
    then have "p2 = p1" using p2 by (simp add: consume_reservation_def)
    then show ?thesis using x True by (simp add: q p1r)
  next
    case False
    then have one: "length (filter C (reservations p)) = 1" and
      p2': "reservations p2 = sql_update C (\<lambda>x. x\<lparr>x_state := RConsumed, x_consumed_at := At now, x_updated_at := At now\<rparr>) (reservations p)"
      using p2 by (auto simp: consume_reservation_def Let_def C_def [symmetric] p1r update_reservations_def split: if_splits)
    obtain y where y: "y \<in> set (reservations p)" "C y" using one by (metis filter_False length_0_conv zero_neq_one)
    have xp: "x \<in> set (reservations p)" "\<not> C x" using x p2' by (auto simp: q sql_update_def split: if_splits)
    have "x_id x \<noteq> ls_exact_session_reservation_id l"
    proof
      assume "x_id x = ls_exact_session_reservation_id l"
      then have "x_id x = x_id y" using y(2) by (simp add: C_def)
      then have "x = y" using assms(1) xp(1) y(1) unfolding keys_inv_def by (meson distinct_map inj_onD)
      then show False using xp(2) y(2) by simp
    qed
    then show ?thesis using xp(1) by simp
  qed
qed

lemma placed_within_target:
  assumes keys: "keys_inv p" and l: "(ls_id l, ls_task_id l) \<in> set (lease_tasks p)" "0 \<le> ls_task_id l"
    and "place_lease cfg now l p = Inr (q, True)"
  shows "admitted_project_count q 0 0 0 \<le> pc_target_projects cfg"
proof -
  let ?K = "set (admission_keys p (ls_task_id l) (ls_exact_session_reservation_id l) (ls_id l))"
  obtain s where s: "place_on_session cfg now l s p = Inr (q, True)" and lt: "int (card ?K) < pc_target_projects cfg"
    using assms(4) by (auto simp: place_lease_def admitted_project_count_def split: if_splits option.splits)
  note after = place_on_session_keys [OF keys s]
  have key: "lease_admission_key m = lease_admission_key l" if "m \<in> set (leases q)" "ls_id m = ls_id l" for m
  proof -
    have "(ls_id m, ls_task_id m) \<in> set (lease_tasks q)" using that(1) by (simp add: lease_tasks_def)
    then have "(ls_id m, ls_task_id m) \<in> set (lease_tasks p)" by (simp only: after(1))
    moreover have "distinct (map fst (lease_tasks p))" using keys by (simp add: keys_inv_def lease_tasks_def comp_def)
    ultimately have "ls_task_id m = ls_task_id l" using l(1) that(2) eq_key_imp_eq_value by metis
    then show ?thesis using that(2) by (simp add: lease_admission_key_def)
  qed
  have task: "Task_Key t = lease_admission_key l" if "t = ls_task_id l" "ls_task_id l \<noteq> 0" for t
    using that l(2) by (simp add: lease_admission_key_def)
  have lease_in: "lease_admission_key m \<in> insert (lease_admission_key l) ?K" if m: "m \<in> set (leases q)" "ls_state m \<in> slot_states" for m
  proof (cases "ls_id m = ls_id l")
    case True
    then show ?thesis using key m by simp
  next
    case False
    then have mp: "m \<in> set (leases p)" using after(2) m(1) by blast
    show ?thesis
    proof (cases "ls_task_id l \<noteq> 0 \<and> ls_task_id m = ls_task_id l")
      case True
      then show ?thesis using l(2) by (simp add: lease_admission_key_def)
    next
      case False
      then have "m \<in> set (filter (\<lambda>r. ls_state r \<in> slot_states \<and> (ls_id l = 0 \<or> ls_id r \<noteq> ls_id l)
          \<and> (ls_task_id l = 0 \<or> ls_task_id r \<noteq> ls_task_id l)) (leases p))"
        using mp m(2) \<open>ls_id m \<noteq> ls_id l\<close> by auto
      then show ?thesis unfolding admission_keys_def set_append set_map by blast
    qed
  qed
  have res_in: "Task_Key (x_task_id x) \<in> insert (lease_admission_key l) ?K"
    if x: "x \<in> set (reservations q)" "x_state x \<in> {RReserved, RClaimed}" for x
  proof (cases "ls_task_id l \<noteq> 0 \<and> x_task_id x = ls_task_id l")
    case True
    then show ?thesis using task by blast
  next
    case False
    then have "x \<in> set (filter (\<lambda>y. x_state y \<in> {RReserved, RClaimed} \<and> (ls_exact_session_reservation_id l = 0 \<or> x_id y \<noteq> ls_exact_session_reservation_id l)
        \<and> (ls_task_id l = 0 \<or> x_task_id y \<noteq> ls_task_id l)) (reservations p))"
      using after(3) [OF x] x(2) by auto
    then show ?thesis unfolding admission_keys_def set_append set_map by blast
  qed
  have "set (admission_keys q 0 0 0) \<subseteq> insert (lease_admission_key l) ?K"
    unfolding admission_keys_def [of q] set_append set_map using lease_in res_in by (auto simp del: insert_iff)
  then have "card (set (admission_keys q 0 0 0)) \<le> card (insert (lease_admission_key l) ?K)" by (intro card_mono) simp_all
  also have "\<dots> \<le> Suc (card ?K)" by (rule card_insert_le_m1) simp_all
  finally show ?thesis using lt by (simp add: admitted_project_count_def)
qed

lemma place_lease_unplaced: "place_lease cfg now l p = Inr (q, False) \<Longrightarrow> q = p"
  by (auto simp: place_lease_def place_on_session_def Let_def split: if_splits option.splits sum.splits)

lemma place_lease_tasks:
  assumes "keys_inv p" and "place_lease cfg now l p = Inr (q, b)"
  shows "lease_tasks q = lease_tasks p"
proof (cases b)
  case True
  then obtain s where "place_on_session cfg now l s p = Inr (q, True)"
    using assms(2) by (auto simp: place_lease_def split: if_splits option.splits)
  then show ?thesis by (rule place_on_session_keys(1) [OF assms(1)])
next
  case False
  then have "q = p" using assms(2) by (intro place_lease_unplaced) simp
  then show ?thesis by simp
qed

lemma place_all_target:
  assumes "place_all cfg now ls n p = Inr (q, m)" and "keys_inv p"
    and "\<forall>l \<in> set ls. (ls_id l, ls_task_id l) \<in> set (lease_tasks p) \<and> 0 \<le> ls_task_id l"
  shows "(m = n \<and> q = p) \<or> (n < m \<and> admitted_project_count q 0 0 0 \<le> pc_target_projects cfg)"
  using assms
proof (induction ls arbitrary: n p)
  case (Cons l ls)
  obtain r b where r: "place_lease cfg now l p = Inr (r, b)" "place_all cfg now ls (if b then Suc n else n) r = Inr (q, m)"
    using Cons.prems(1) by (auto split: sum.splits)
  have "grows p r" using keeps.place_lease_ok [OF Cons.prems(2), of cfg now l] r(1) by auto
  then have k: "keys_inv r" using evolves_keys Cons.prems(2) keeps.R_move by blast
  have t: "lease_tasks r = lease_tasks p" using place_lease_tasks [OF Cons.prems(2) r(1)] .
  have IH: "(m = (if b then Suc n else n) \<and> q = r) \<or> ((if b then Suc n else n) < m \<and> admitted_project_count q 0 0 0 \<le> pc_target_projects cfg)"
    using Cons.IH [OF r(2) k] Cons.prems(3) t by simp
  show ?case
  proof (cases b)
    case True
    then have "admitted_project_count r 0 0 0 \<le> pc_target_projects cfg"
      using Cons.prems(3) r(1) by (intro placed_within_target [OF Cons.prems(2), of l]) auto
    then show ?thesis using IH True by auto
  next
    case False
    then have "r = p" using r(1) by (intro place_lease_unplaced) simp
    then show ?thesis using IH False by simp
  qed
qed simp

lemma queued_in: "l \<in> set (queued_leases cfg now ids p) \<Longrightarrow> l \<in> set (leases p)"
  by (auto simp: queued_leases_def Let_def split: if_splits dest!: in_set_takeD)

lemma place_queued_target:
  assumes "place_queued_leases cfg now ids refresh p = Inr (q, n)" and "keys_inv p" and "tasks_inv p" and "0 < n"
  shows "admitted_project_count q 0 0 0 \<le> pc_target_projects cfg"
proof (cases "operational cfg")
  case True
  define p1 where "p1 = refresh_mixed_canary_admissions now p"
  define p2 where "p2 = (if refresh then refresh_exact_session_reservations now p1 else p1)"
  define p3 where "p3 = (if ids = [] then p2\<lparr>placement_cursor := (if queued_leases cfg now ids p2 = [] then 0
      else ls_id (last (queued_leases cfg now ids p2)))\<rparr> else p2)"
  have ok: "ids_ok p" using assms(2) by (rule keeps.keys_ids)
  have p1: "keeps p p1" unfolding p1_def by (rule keeps.rel_refresh_canaries [OF ok])
  have "keeps p1 p2" unfolding p2_def using keeps.rel_refresh_exact keeps.rel_ids [OF p1 ok] by simp
  then have p2: "keeps p p2" using p1 keeps.rel_trans by blast
  then have inv: "keys_inv p2" "tasks_inv p2"
    using keeps.rel_keys assms(2) evolves_tasks [OF evolves.keep keeps.R_move assms(3)] by blast+
  have p3: "leases p3 = leases p2" "keys_inv p3" using inv(1) by (simp_all add: p3_def keys_inv_def ids_ok_def)
  have "place_all cfg now (queued_leases cfg now ids p2) 0 p3 = Inr (q, n)"
    using assms(1) True by (simp only: place_queued_leases_def Let_def p1_def p2_def p3_def not_True_eq_False if_False)
  then have "(n = 0 \<and> q = p3) \<or> (0 < n \<and> admitted_project_count q 0 0 0 \<le> pc_target_projects cfg)"
    using p3(2)
  proof (rule place_all_target)
    show "\<forall>l \<in> set (queued_leases cfg now ids p2). (ls_id l, ls_task_id l) \<in> set (lease_tasks p3) \<and> 0 \<le> ls_task_id l"
      using queued_in inv(2) by (fastforce simp: lease_tasks_def p3(1) tasks_inv_def list_all_iff)
  qed
  then show ?thesis using assms(4) by simp
next
  case False
  then show ?thesis using assms(1,4) by (simp add: place_queued_leases_def)
qed

lemma run_inv:
  assumes "fresh_pool p"
  shows "pool_inv (pool_run cfg calls p)" and "tasks_inv (pool_run cfg calls p)"
proof -
  note inv = fresh_inv [OF assms]
  show "pool_inv (pool_run cfg calls p)" using pool_run_grows [OF inv] by blast
  have "tasks_inv p" using assms by (simp add: fresh_pool_def tasks_inv_def)
  then show "tasks_inv (pool_run cfg calls p)" using evolves_tasks keeps.R_move pool_run_grows [OF inv] by blast
qed

section \<open>Solve waves\<close>

lemma empty_tables [simp]:
  "canaries p = [] \<Longrightarrow> refresh_mixed_canary_admissions now p = p"
  "reservations p = [] \<Longrightarrow> refresh_exact_session_reservations now p = p"
  "reservations p = [] \<Longrightarrow> exact_session_reservations_are_active p sid"
  "canaries p = [] \<Longrightarrow> mixed_canary_batch_is_complete p sid"
proof -
  have "update_canaries P f p = p" if "canaries p = []" for P f using that by (simp add: update_canaries_def sql_update_def)
  then show "canaries p = [] \<Longrightarrow> refresh_mixed_canary_admissions now p = p"
    by (simp add: refresh_mixed_canary_admissions_def finish_canaries_def)
  have "update_reservations P f p = p" if "reservations p = []" for P f using that by (simp add: update_reservations_def sql_update_def)
  then show "reservations p = [] \<Longrightarrow> refresh_exact_session_reservations now p = p"
    by (simp add: refresh_exact_session_reservations_def fail_terminal_siblings_def expire_cohorts_def release_reservations_def
        fail_invalid_targets_def sorted_set_def Let_def)
  show "reservations p = [] \<Longrightarrow> exact_session_reservations_are_active p sid" by (simp add: exact_session_reservations_are_active_def)
  show "canaries p = [] \<Longrightarrow> mixed_canary_batch_is_complete p sid"
    by (simp add: mixed_canary_batch_is_complete_def sort_desc_def split: option.split)
qed

lemma grant_wave_first:
  assumes "filter waiting_for_permit occ = w # ws" and "w \<in> set (leases p)" and "ls_session_id w = Some sid"
  shows "\<exists>g. permit_lease now g w \<in> set (leases (fst (grant_wave now safe sid occ p)))
    \<and> sessions (fst (grant_wave now safe sid occ p)) = sessions p"
proof -
  have first: "w \<in> set (select_wave safe (w # ws))" by (simp add: select_wave_def Let_def)
  have wait: "waiting_for_permit w" using assms(1) by (metis filter_eq_ConsD)
  show ?thesis
    using first wait assms by (fastforce simp: grant_wave_def Let_def sql_update_def image_iff intro!: rev_bexI [OF assms(2)])
qed

definition wave_due :: "pool \<Rightarrow> aedt_session \<Rightarrow> bool" where
  "wave_due p s =
     (let occ = occupants p (d_id s) in
      if d_solve_batch_sealed_at s = Blank
      then list_all (\<lambda>l. ls_state l = LActive) occ \<and> (d_slots_total s \<le> length occ \<or> list_ex ls_exclusive_session occ)
      else granted_wave p (d_id s) (d_solve_batch_generation s) \<noteq> []
           \<and> list_all (wave_attested (d_id s) (d_solve_batch_generation s)) (granted_wave p (d_id s) (d_solve_batch_generation s)))"

lemma waiting_on_session: "filter waiting_for_permit (sort_key ls_id (occupants p sid)) = w # ws
    \<Longrightarrow> w \<in> set (leases p) \<and> occupies sid w \<and> ls_session_id w = Some sid"
  by (drule arg_cong [of _ _ set]) (auto simp: occupants_def occupies_def)

lemma permit_occupies [simp]: "occupies sid (permit_lease now g l) = occupies sid l" "permitted (permit_lease now g l)"
  "ls_id (permit_lease now g l) = ls_id l"
  by (cases "ls_solve_permit_at l"; simp add: permit_lease_def occupies_def permitted_def)+

lemma wave_granted:
  assumes "get_session p sid = Some s" and "d_state s \<in> {SReady, SBusy}" and "0 < sid"
    and "reservations p = []" and "canaries p = []" and due: "wave_due p s"
    and w: "filter waiting_for_permit (sort_key ls_id (occupants p sid)) = w # ws"
  shows "\<exists>l \<in> set (occupants (fst (grant_solve_batch_if_ready now safe sid allow p)) sid). permitted l \<and> ls_id l = ls_id w"
proof -
  let ?occ = "sort_key ls_id (occupants p sid)"
  have sid: "d_id s = sid" using get_session_in [OF assms(1)] by simp
  have row: "\<exists>l \<in> set (occupants (fst (grant_wave now safe sid ?occ q)) sid). permitted l \<and> ls_id l = ls_id w" if lq: "leases q = leases p" for q
  proof -
    obtain g where g: "permit_lease now g w \<in> set (leases (fst (grant_wave now safe sid ?occ q)))"
      using grant_wave_first [OF w, of q sid now safe] waiting_on_session [OF w] lq by auto
    then have "permit_lease now g w \<in> set (occupants (fst (grant_wave now safe sid ?occ q)) sid)"
      using waiting_on_session [OF w] by (simp add: occupants_def)
    then show ?thesis by (intro bexI) simp_all
  qed
  have wait: "filter waiting_for_permit ?occ \<noteq> []" "?occ \<noteq> []" using w by auto
  show ?thesis
  proof (cases "d_solve_batch_sealed_at s = Blank")
    case True
    then have "list_all (\<lambda>l. ls_state l = LActive) ?occ"
      "max 1 (d_slots_total s) \<le> length ?occ \<or> list_ex ls_exclusive_session ?occ"
      using due sid wait(2) by (auto simp: wave_due_def Let_def list_all_iff list_ex_iff Suc_le_eq)
    then have "grant_solve_batch_if_ready now safe sid allow p = grant_wave now safe sid ?occ
        (update_sessions (\<lambda>r. d_id r = sid \<and> d_solve_batch_sealed_at r = Blank) (\<lambda>r. (bump_generation now r)\<lparr>d_solve_batch_sealed_at := At now\<rparr>) p)"
      using True assms(1-5) wait(2)
      by (auto simp: grant_solve_batch_if_ready_def Let_def list_all_iff list_ex_iff)
    then show ?thesis using row by simp
  next
    case False
    then have g: "granted_wave p sid (d_solve_batch_generation s) \<noteq> []"
      "list_all (wave_attested sid (d_solve_batch_generation s)) (granted_wave p sid (d_solve_batch_generation s))"
      using due sid by (auto simp: wave_due_def Let_def)
    then have "\<not> list_ex (\<lambda>l. ls_state l \<in> lease_live_states) (granted_wave p sid (d_solve_batch_generation s))"
      by (auto simp: list_all_iff list_ex_iff wave_attested_def lease_live_states_def slot_states_def)
    then have "grant_solve_batch_if_ready now safe sid allow p = grant_wave now safe sid ?occ
        (update_sessions (\<lambda>r. d_id r = sid) (bump_generation now) p)"
      using False assms(1-5) wait(1) g by (simp add: grant_solve_batch_if_ready_def Let_def)
    then show ?thesis using row by simp
  qed
qed

section \<open>A small pool\<close>

definition demo_pool_config :: pool_config where
  "demo_pool_config =
     \<lparr>pc_enabled = True, pc_adapter_ready = True, pc_validation_passed = True, pc_target_projects = 4,
      pc_projects_per_session = 2, pc_project_cpus = 4, pc_project_memory_mb = 8192, pc_lease_ttl_seconds = 900,
      pc_queued_stale_seconds = 60, pc_offer_ack_seconds = 60, pc_admission_deadline_seconds = 600,
      pc_session_heartbeat_timeout_seconds = 120, pc_unhealthy_recycle_grace_seconds = 300,
      pc_session_start_timeout_seconds = 600, pc_allocation_max_age_seconds = 0\<rparr>"

definition demo_fresh_pool :: pool where
  "demo_fresh_pool =
     \<lparr>leases = [], lease_seq = 0, sessions = [], session_seq = 0, reservations = [], reservation_seq = 0,
      canaries = [], canary_seq = 0, canary_slots = [], canary_slot_seq = 0,
      pool_base = empty_db\<lparr>db_allocations := [(alloc_row_of 0 7 ''a'' ''c'' ''n'' 8 16384 0 [] ''cpu'' False [] [])\<lparr>a_state := Warm\<rparr>]\<rparr>,
      placement_cursor = 0\<rparr>"

definition demo_lease_request :: "string \<Rightarrow> string \<Rightarrow> lease_request" where
  "demo_lease_request key token =
     \<lparr>lr_request_key = key, lr_project_name = key, lr_placement_group = None, lr_workload_family = ''f'',
      lr_session_profile = Inr ''p'', lr_project_namespace = [], lr_isolation_policy = [], lr_workspace_path = ''w'',
      lr_protocol_version = 2, lr_client_deadline_at = Blank, lr_admission_timeout_seconds = None, lr_client_token = [],
      lr_token_hash = token, lr_task_id = 0, lr_allocation_id = 0, lr_node_name = [], lr_requested_session_id = 0,
      lr_exclusive_session = False, lr_mixed_validated = False\<rparr>"

text \<open>A session of two slots starts and registers; two projects are requested, accepted and activated.\<close>

definition demo_started :: "(int \<times> pool_call) list" where
  "demo_started =
     [(1000000, Reconcile (\<lambda>p. \<lparr>pp_rebalance_drains = [], pp_drain_needed = 0,
          pp_placements = [\<lparr>sp_allocation_id = 7, sp_account_name = ''a'', sp_node_name = ''n''\<rparr>]\<rparr>)
        \<lparr>rq_execute = True, rq_excluded_start_accounts = [], rq_start_block_reasons = [], rq_storage_pressure_accounts = []\<rparr>),
      (2000000, Claim_Start True \<lparr>hc_allocation_id = 7, hc_node_name = ''n'', hc_host_id = ''h'', hc_actual_node_name = [],
        hc_slurm_job_id = [], hc_host_process_id = ''1'', hc_session_id = 0\<rparr>),
      (3000000, Register_Session True 1 \<lparr>rg_host_id = ''h'', rg_endpoint = ''n:5'', rg_process_id = ''9'', rg_session_profile = ''p'',
        rg_presented_token_hash = None, rg_issued_token_hash = ''t''\<rparr>)]"

definition demo_accepted :: "(int \<times> pool_call) list" where
  "demo_accepted = demo_started
     @ [(4000000, Request_Lease (demo_lease_request ''r'' ''x'')), (5000000, Request_Lease (demo_lease_request ''s'' ''y'')),
        (6000000, Accept_Lease 1 ''x''), (7000000, Accept_Lease 2 ''y'')]"

definition demo_lease :: "int \<Rightarrow> string \<Rightarrow> lease" where
  "demo_lease i token = new_lease demo_pool_config 4000000 (demo_lease_request token token) i token ''p'' 604000000 (0, []) None None"

definition demo_attaching_pool :: pool where
  "demo_attaching_pool = demo_fresh_pool\<lparr>leases := [(demo_lease 1 ''x'')\<lparr>ls_state := LAttaching, ls_session_id := Some 1\<rparr>,
     (demo_lease 2 ''y'')\<lparr>ls_state := LAttaching, ls_session_id := Some 1\<rparr>]\<rparr>"

definition demo_active :: "(int \<times> pool_call) list" where
  "demo_active = demo_accepted
     @ [(8000000, Activate_Lease demo_attaching_pool 1 ''x''), (9000000, Activate_Lease demo_attaching_pool 2 ''y'')]"

lemma demo_is_fresh: "fresh_pool demo_fresh_pool"
  by (simp add: fresh_pool_def demo_fresh_pool_def ids_ok_def)

definition demo_active_pool :: pool where
  "demo_active_pool = pool_run demo_pool_config demo_active demo_fresh_pool"

lemma demo_session: "hd (sessions demo_active_pool) \<in> set (sessions demo_active_pool) \<and> d_id (hd (sessions demo_active_pool)) = 1"
proof -
  have "sessions demo_active_pool \<noteq> []" by code_simp
  moreover have "d_id (hd (sessions demo_active_pool)) = 1" by code_simp
  ultimately show ?thesis by simp
qed

section \<open>Properties\<close>

text \<open>C3. Whatever calls of clients, hosts and the reconciliation reach the pool, in any order, at any time and with any
  stale reading, the live leases of a session sit on distinct slots and are at most as many as its slots.\<close>

theorem session_slots_exclusive:
  assumes "fresh_pool p" and "s \<in> set (sessions (pool_run cfg calls p))"
  shows "distinct (map ls_slot_index (occupants (pool_run cfg calls p) (d_id s)))
    \<and> length (occupants (pool_run cfg calls p) (d_id s)) \<le> d_slots_total s"
proof -
  let ?q = "pool_run cfg calls p"
  have "distinct (map ls_slot_index (occupants ?q (d_id s)))"
    and sub: "set (map ls_slot_index (occupants ?q (d_id s))) \<subseteq> Some ` {..<d_slots_total s}"
    using slots_distinct [OF _ _ assms(2)] run_inv(1) [OF assms(1)] by (simp_all add: pool_inv_def)
  moreover have "length (occupants ?q (d_id s)) = card (set (map ls_slot_index (occupants ?q (d_id s))))"
    using distinct_card [OF calculation(1)] by simp
  moreover have "\<dots> \<le> d_slots_total s" using card_mono [OF _ sub] by (simp add: card_image)
  ultimately show ?thesis by simp
qed

theorem session_slots_exclusive_witness:
  "length (occupants demo_active_pool 1) = 2 \<and> length (occupants demo_active_pool 1) \<le> d_slots_total (hd (sessions demo_active_pool))"
proof -
  have "length (occupants demo_active_pool 1) = 2" by code_simp
  then show ?thesis
    using session_slots_exclusive [OF demo_is_fresh, of "hd (sessions demo_active_pool)" demo_pool_config demo_active] demo_session
    by (simp add: demo_active_pool_def)
qed

text \<open>C4. At most one project of a session holds a solve permit at any moment of any run, and its permit is of the
  generation the session is sealed with: native solves on one Desktop are serial.\<close>

theorem one_solve_per_session:
  assumes "fresh_pool p" and "s \<in> set (sessions (pool_run cfg calls p))"
  shows "length (filter permitted (occupants (pool_run cfg calls p) (d_id s))) \<le> 1
    \<and> list_all (\<lambda>l. ls_solve_permit_generation l = d_solve_batch_generation s)
        (filter permitted (occupants (pool_run cfg calls p) (d_id s)))"
  using permits_single permits_session [OF _ assms(2)] run_inv(1) [OF assms(1)]
  by (auto simp: pool_inv_def list_all_iff occupants_def)

theorem one_solve_per_session_witness:
  "length (filter permitted (occupants demo_active_pool 1)) = 1"
proof -
  have "filter permitted (occupants demo_active_pool 1) \<noteq> []" by code_simp
  moreover have "length (filter permitted (occupants demo_active_pool 1)) \<le> 1"
    using one_solve_per_session [OF demo_is_fresh, of "hd (sessions demo_active_pool)" demo_pool_config demo_active] demo_session
    by (simp add: demo_active_pool_def)
  ultimately show ?thesis by (cases "filter permitted (occupants demo_active_pool 1)") simp_all
qed


text \<open>A sealed session whose first wave has been released and attested.\<close>

definition demo_wave_session :: aedt_session where
  "demo_wave_session = (new_session demo_pool_config 1000000 1 \<lparr>sp_allocation_id = 7, sp_account_name = ''a'', sp_node_name = ''n''\<rparr>)
     \<lparr>d_state := SBusy, d_solve_batch_sealed_at := At 9000000, d_solve_batch_generation := 1\<rparr>"

definition demo_wave_pool :: pool where
  "demo_wave_pool = demo_fresh_pool
     \<lparr>sessions := [demo_wave_session],
      leases := [(demo_lease 1 ''x'')\<lparr>ls_state := LReleased, ls_session_id := Some 1, ls_slot_index := Some 0, ls_solve_permit_at := At 9000000,
          ls_solve_permit_generation := 1, ls_native_pipeline_completed_at := At 10000000, ls_native_pipeline_session_id := 1,
          ls_native_pipeline_generation := 1\<rparr>,
        (demo_lease 2 ''y'')\<lparr>ls_state := LActive, ls_session_id := Some 1, ls_slot_index := Some 1\<rparr>]\<rparr>"


text \<open>C18. Placement never raises: neither the unguarded search for a free slot nor the check that a reservation was
  consumed can fail, in any state a run reaches.\<close>

theorem placement_never_raises:
  assumes "fresh_pool p"
  shows "\<exists>q n. place_queued_leases cfg' now ids refresh (pool_run cfg calls p) = Inr (q, n)"
  using keeps.place_queued_ok run_inv(1) [OF assms] by (meson pool_inv_def)

theorem placement_never_raises_witness:
  "\<exists>q n. place_queued_leases demo_pool_config 10000000 [] True demo_active_pool = Inr (q, n)"
  unfolding demo_active_pool_def by (rule placement_never_raises [OF demo_is_fresh])

text \<open>C19. Placement respects the target: after a pass that offered at least one slot, the distinct projects that own or are
  promised a slot are at most \<open>target_projects\<close>.\<close>

theorem placement_within_target:
  assumes "fresh_pool p" and "place_queued_leases cfg now ids refresh (pool_run cfg' calls p) = Inr (q, n)" and "0 < n"
  shows "admitted_project_count q 0 0 0 \<le> pc_target_projects cfg"
  using place_queued_target [OF assms(2)] run_inv [OF assms(1)] assms(3) by (simp add: pool_inv_def)

text \<open>A lease requested before its session is ready.\<close>

definition demo_waiting :: "(int \<times> pool_call) list" where
  "demo_waiting = (500000, Request_Lease (demo_lease_request ''r'' ''x'')) # demo_started"

theorem placement_within_target_witness:
  "\<exists>q. place_queued_leases demo_pool_config 4000000 [] True (pool_run demo_pool_config demo_waiting demo_fresh_pool) = Inr (q, 1)
     \<and> admitted_project_count q 0 0 0 \<le> 4"
proof -
  let ?p = "pool_run demo_pool_config demo_waiting demo_fresh_pool"
  have "map_option snd (case place_queued_leases demo_pool_config 4000000 [] True ?p of Inl e \<Rightarrow> None | Inr r \<Rightarrow> Some r) = Some 1"
    by code_simp
  then obtain q where q: "place_queued_leases demo_pool_config 4000000 [] True ?p = Inr (q, 1)" by (auto split: sum.splits)
  then show ?thesis using placement_within_target [OF demo_is_fresh q] by (simp add: demo_pool_config_def)
qed



text \<open>C20. A lease that is released, failed, cancelled or expired stays so under every later call.\<close>

theorem finished_lease_final:
  assumes "fresh_pool p" and "l \<in> set (leases (pool_run cfg calls p))" and "ls_state l \<in> lease_terminal_states"
  shows "\<exists>l' \<in> set (leases (pool_run cfg' later_calls (pool_run cfg calls p))). ls_id l' = ls_id l \<and> ls_state l' = ls_state l"
  using terminal_row [OF conjunct1 [OF pool_run_grows [OF run_inv(1) [OF assms(1)]]] assms(2,3)] .

definition demo_cancelled :: "(int \<times> pool_call) list" where
  "demo_cancelled = [(4000000, Request_Lease (demo_lease_request ''r'' ''x'')), (5000000, Cancel_Lease 1 ''x'' [])]"

theorem finished_lease_final_witness:
  "\<exists>l \<in> set (leases (pool_run demo_pool_config ((6000000, Request_Lease (demo_lease_request ''s'' ''x'')) # demo_started)
       (pool_run demo_pool_config demo_cancelled demo_fresh_pool))). ls_id l = 1 \<and> ls_state l = LCancelled"
proof -
  have "map (\<lambda>l. (ls_id l, ls_state l)) (leases (pool_run demo_pool_config demo_cancelled demo_fresh_pool)) = [(1, LCancelled)]" by code_simp
  then obtain l where l: "l \<in> set (leases (pool_run demo_pool_config demo_cancelled demo_fresh_pool))" "ls_id l = 1" "ls_state l = LCancelled"
    by (auto simp: map_eq_Cons_conv)
  then have "ls_state l \<in> lease_terminal_states" by (simp add: lease_terminal_states_def)
  then show ?thesis
    using finished_lease_final [OF demo_is_fresh l(1), of demo_pool_config "(6000000, Request_Lease (demo_lease_request ''s'' ''x'')) # demo_started"]
    unfolding l(2,3) by blast
qed



end
