(* ===== verification/Shell_Quote.thy ===== *)
theory Shell_Quote
  imports Slurm_Output
begin

text \<open>
  The shell texts of \<open>slurm_scheduler/slurm.py\<close>. \<open>shell_quote\<close> is Python's \<open>shlex.quote\<close>;
  \<open>shell_words\<close> is the POSIX shell's reading of a simple command: blanks separate words, single
  quotes keep everything, double quotes keep what is not special in them, and any other special
  character outside quotes ends the fragment (\<open>None\<close>). The lemmas show that a command built by
  quoting its arguments reads back as exactly those arguments, whatever they contain.
\<close>

section \<open>Quoting\<close>

text \<open>Letters, digits and \<open>_@%+=:,./-\<close>.\<close>

definition shell_safe :: "char \<Rightarrow> bool" where
  "shell_safe c = (let n = code c in (48 \<le> n \<and> n \<le> 57) \<or> (65 \<le> n \<and> n \<le> 90) \<or> (97 \<le> n \<and> n \<le> 122)
     \<or> n \<in> {37, 43, 44, 45, 46, 47, 58, 61, 64, 95})"

fun escape_quotes :: "string \<Rightarrow> string" where
  "escape_quotes [] = []"
| "escape_quotes (c # cs) = (if code c = 39 then [CHR 0x27, CHR 0x22, CHR 0x27, CHR 0x22, CHR 0x27] @ escape_quotes cs
                             else c # escape_quotes cs)"

definition shell_quote :: "string \<Rightarrow> string" where
  "shell_quote s = (if s \<noteq> [] \<and> list_all shell_safe s then s
                    else [CHR 0x27] @ escape_quotes s @ [CHR 0x27])"

section \<open>The shell's words\<close>

datatype quoting = Bare | Single | Double

definition word_of :: "string option \<Rightarrow> string" where
  "word_of w = (case w of None \<Rightarrow> [] | Some v \<Rightarrow> v)"

text \<open>The words of a text read in a quoting state, with the word begun so far.\<close>

fun read_words :: "quoting \<Rightarrow> string option \<Rightarrow> string \<Rightarrow> string list option" where
  "read_words Bare w [] = Some (case w of None \<Rightarrow> [] | Some v \<Rightarrow> [v])"
| "read_words Bare w (c # cs) =
     (if code c = 32 then (case w of None \<Rightarrow> read_words Bare None cs
                           | Some v \<Rightarrow> map_option (\<lambda>ws. v # ws) (read_words Bare None cs))
      else if code c = 39 then read_words Single (Some (word_of w)) cs
      else if code c = 34 then read_words Double (Some (word_of w)) cs
      else if shell_safe c then read_words Bare (Some (word_of w @ [c])) cs else None)"
| "read_words Single w [] = None"
| "read_words Single w (c # cs) =
     (if code c = 39 then read_words Bare w cs else read_words Single (Some (word_of w @ [c])) cs)"
| "read_words Double w [] = None"
| "read_words Double w (c # cs) =
     (if code c = 34 then read_words Bare w cs
      else if code c \<in> {36, 92, 96} then None
      else read_words Double (Some (word_of w @ [c])) cs)"

definition shell_words :: "string \<Rightarrow> string list option" where
  "shell_words s = read_words Bare None s"

lemma word_of_simps [simp]: "word_of None = []" "word_of (Some v) = v"
  by (simp_all add: word_of_def)

lemma safe_not_special: "shell_safe c \<Longrightarrow> code c \<noteq> 32 \<and> code c \<noteq> 39 \<and> code c \<noteq> 34"
  unfolding shell_safe_def Let_def by (elim disjE) auto

lemma read_safe:
  "list_all shell_safe s \<Longrightarrow> s \<noteq> [] \<Longrightarrow> read_words Bare w (s @ r) = read_words Bare (Some (word_of w @ s)) r"
proof (induction s arbitrary: w)
  case (Cons c s)
  then show ?case using safe_not_special [of c] by (cases "s = []") auto
qed simp

lemma code_39: "code c = 39 \<longleftrightarrow> c = CHR 0x27"
proof -
  have "code c = 39 \<longleftrightarrow> code c = code (CHR 0x27)" by simp
  also have "\<dots> \<longleftrightarrow> c = CHR 0x27" by (rule of_char_eq_iff)
  finally show ?thesis .
qed

lemma read_single:
  "read_words Single (Some v) (escape_quotes s @ CHR 0x27 # r) = read_words Bare (Some (v @ s)) r"
proof (induction s arbitrary: v)
  case (Cons c s)
  show ?case
  proof (cases "code c = 39")
    case True
    then show ?thesis using Cons.IH [of "v @ [c]"] by (simp add: code_39)
  next
    case False
    then show ?thesis using Cons.IH [of "v @ [c]"] by simp
  qed
qed simp

lemma read_quote: "read_words Bare w (shell_quote s @ r) = read_words Bare (Some (word_of w @ s)) r"
proof (cases "s \<noteq> [] \<and> list_all shell_safe s")
  case True
  then show ?thesis using read_safe [of s w r] by (simp add: shell_quote_def)
next
  case False
  have "read_words Bare w (CHR 0x27 # escape_quotes s @ CHR 0x27 # r)
      = read_words Single (Some (word_of w)) (escape_quotes s @ CHR 0x27 # r)" by simp
  also have "\<dots> = read_words Bare (Some (word_of w @ s)) r" by (rule read_single)
  finally show ?thesis using False unfolding shell_quote_def by (simp only: if_False append_Cons append_Nil append_assoc)
qed

lemma read_blank [simp]: "read_words Bare (Some v) (CHR '' '' # r) = map_option (\<lambda>ws. v # ws) (read_words Bare None r)"
  by simp

lemma join_simps [simp]: "join sep [] = []" "join sep [w] = w" "join sep (w # v # vs) = w @ sep @ join sep (v # vs)"
  by (simp_all add: join_def)

lemma read_quoted_list:
  "ws \<noteq> [] \<Longrightarrow> read_words Bare None (join '' '' (map shell_quote ws)) = Some ws"
proof (induction ws rule: induct_list012)
  case (2 w)
  then show ?case using read_quote [of None w "[]"] by simp
next
  case (3 w v vs)
  then show ?case using read_quote [of None w "CHR '' '' # join '' '' (map shell_quote (v # vs))"] by simp
qed simp

text \<open>A fixed command word followed by quoted arguments.\<close>

lemma words_command:
  assumes "list_all shell_safe c" and "c \<noteq> []"
  shows "read_words Bare None (c @ CHR '' '' # s) = map_option (\<lambda>ws. c # ws) (read_words Bare None s)"
  using read_safe [OF assms, of None "CHR '' '' # s"] by simp

end
