(* ===== verification/Spec2Isabelle.thy ===== *)
theory Spec2Isabelle
  imports Pressure_Episode Fair_Queue Attach Pestat Retention Web_Guard Fea_Admission Placement Reclaim Launch_Spec Aedt_Safety Shell_Quote
begin

text \<open>
  A verification of the Slurm scheduler (\<open>src/slurm_scheduler/\<close>): a Python service that keeps tasks and
  Slurm allocations in a SQLite database, decides where and when a task runs, launches it through a
  remote wrapper, and shares long-lived AEDT Desktop processes between projects.

  \<^bold>\<open>Parts and theories.\<close> The scheduler (\<open>scheduler.py\<close>) reads rows, decides, and writes rows; other
  threads of the same process, the web application and a restarted process do the same on the same
  tables. The pool service (\<open>aedt_pool.py\<close>) is the control plane of the shared Desktops; its clients and
  hosts call it over HTTP.

    \<^item> \<open>Prelude\<close>: Python's texts, dictionaries, sorting, timestamps. \<open>Models\<close>: \<open>models.py\<close>.
    \<^item> \<open>Store\<close>: \<open>db.py\<close>. A table is the list of its rows, one field per column; a writer is one SQL
      statement, so an atomic function; the conditional writers return whether they changed a row.
      The locales \<open>keyed_table\<close> and \<open>guarded_table\<close> state what a client may rely on (a lookup after a
      write, the uniqueness of ids, the invariant a guarded write keeps) and are interpreted on the
      tables. \<open>Pressure_Episode\<close>: the durable claim of a memory-pressure episode.
    \<^item> \<open>Task_Kind\<close>, \<open>License\<close>, \<open>Fair_Queue\<close>, \<open>Capacity\<close>: classification of rows and running caps,
      license admission, the fair queue and the probe rotation, the recomputation of free capacity.
    \<^item> \<open>Lifecycle\<close>, \<open>Attach\<close>, \<open>Launch_Spec\<close>: the life of an allocation; the attach protocol, with threads
      as program counters and every interleaving of threads, operators, probes and restarts as a list
      of actions; and the abstract claim/launch machine the protocol refines.
    \<^item> \<open>Fea_Admission\<close>, \<open>Placement\<close>, \<open>Reclaim\<close>: admission of bursty FEA workers on measured load, the
      choice of an allocation and the claim on it, and what takes work away again.
    \<^item> \<open>Inventory\<close>, \<open>Pestat\<close>: parsers of what Slurm prints and plans over its nodes (\<open>inventory.py\<close>,
      \<open>pestat.py\<close>, \<open>inventory_freshness.py\<close>). \<open>Retention\<close>: \<open>retention.py\<close> and the path check before a
      remote removal. \<open>Web_Guard\<close>: \<open>observer_guard.py\<close>, \<open>web_read_guard.py\<close>, \<open>web_supervisor.py\<close>.
    \<^item> \<open>Slurm_Output\<close>, \<open>Shell_Quote\<close>: the parsers of \<open>slurm.py\<close>, and the quoting it uses with the shell's
      reading of a quoted command.
    \<^item> \<open>Aedt_Pool\<close>, \<open>Aedt_Lease\<close>, \<open>Aedt_Request\<close>, \<open>Aedt_Host\<close>, \<open>Aedt_Reserve\<close>, \<open>Aedt_Reconcile\<close>:
      \<open>aedt_pool.py\<close>. Its five tables
      are the record \<open>pool\<close>, with the store's tasks and allocations in \<open>pool_base\<close>. Every endpoint runs in
      one \<open>BEGIN IMMEDIATE\<close> transaction and is one function from pool to pool and an error; what an
      endpoint reads before its transaction is an argument \<open>seen\<close>, any pool at all.
    \<^item> \<open>Aedt_Rel\<close>, \<open>Aedt_Step\<close>, \<open>Aedt_Ops\<close>, \<open>Aedt_Calls\<close>, \<open>Aedt_Control\<close>, \<open>Aedt_Safety\<close>: what they promise. The
      locale \<open>lease_relation\<close> has the lemmas of the operations once, for every relation between the rows
      before and after; it is interpreted for the invariant (\<open>keeps\<close>) and for what a client can cause
      (\<open>client\<close>). \<open>evolves\<close> is the step relation the operations are shown to follow, \<open>pool_run\<close> any
      sequence of calls.

  \<^bold>\<open>What the lemmas show.\<close> For the attach protocol: no task is launched twice under one claim, restart
  recovery requeues only what was not launched, terminal rows are final for conditional writers, and
  the protocol refines the abstract machine. For allocations: a close without force leaves no live
  work, capacity equals total minus reservations, transitions are legal, profiles stay apart. For
  admission: licenses, memory floors, ramps and pooled density are never exceeded, also by racing
  claims. For fairness: the queue order is a permutation that is fair among projects, and every live
  task is probed within a bounded number of ticks. For remote files: only paths strictly below the
  workspace are removed. For the pool: slots and solve permits are exclusive in every run, so the
  unique slot index of the schema can never be violated; placement never raises and respects the
  target; clients cannot free a slot; finished leases are final; a due wave gets its permit.

  \<^bold>\<open>Numbers.\<close> Python integers are \<open>int\<close>; floats are exact rationals; a time is a count of
  microseconds, and the SQL clock is rounded down to a second. Where the code bounds a loop (the 5000
  rows of a page, the 32 leases of a placement pass, the rounds of a cancellation) the bound is in the
  definition; every recursion is structural or has a termination proof, so no fuel is needed.

  \<^bold>\<open>Parameters.\<close> Code outside \<open>src/\<close> and answers of the cluster are arguments: \<open>slurm_env\<close> (live steps,
  failing \<open>scancel\<close>), \<open>remote\<close> (the remote wrapper), \<open>place_env\<close> (accounts, storage readings, the pool's
  verdict), the results of process probes, hashes of tokens, the canonical form of a session profile,
  JSON and ISO-8601 parsing. \<open>self._parallel_safe_native_solve_families\<close> is empty in the code, so it is
  the empty list in a run.

  \<^bold>\<open>Not modelled.\<close> The scaling plan \<open>_plan\<close> of the pool and its account preselection (its result is an
  argument of \<open>reconcile\<close>); the validation, settings and summary endpoints of the pool; the choice of an
  allocation shape and the demand planning of \<open>scheduler.py\<close> that precede a request for a new
  allocation; jobs; HTML and JSON views (\<open>app.py\<close>, \<open>aedt_pool_api.py\<close>); SSH and SFTP transport
  (\<open>slurm.py\<close>), the Desktop automation (\<open>aedt_session_host.py\<close>, \<open>aedt_attach_client.py\<close>), the relay, the
  file lock, environment synchronisation and command-line scripts, which are input and output around
  operating-system or network services. In-memory caches that only memoise a computation within a tick
  are left out, and so are columns that record artifact paths and evidence.
\<close>

end
